(* ===== verification/Prelude.thy ===== *)
theory Prelude imports Main "HOL-Library.Word" "HOL-Library.Sublist" "HOL-Library.Char_ord" begin

text \<open>
  Shared vocabulary: Rust strings as byte lists, the operations of the standard library's
  \<^verbatim>\<open>str\<close> the components call, decimal printing and \<^verbatim>\<open>u64\<close> parsing, and the lemma
  collections the component theories use.

  A Rust \<^verbatim>\<open>&str\<close> is a UTF-8 byte sequence, and its offsets count bytes, so a string is
  a list of bytes (\<^typ>\<open>char\<close> of HOL has 8 bits). The few operations that look at a
  Unicode character (whitespace, character boundaries) are written on its bytes.
\<close>

named_theorems str_simps \<open>characteristic facts of the string operations\<close>

type_synonym u64 = "64 word"
type_synonym u32 = "32 word"
type_synonym u16 = "16 word"
type_synonym u8 = "8 word"

section \<open>Prefixes, searching and splitting\<close>

definition strip_prefix :: "string \<Rightarrow> string \<Rightarrow> string option" where
  "strip_prefix p s = (if prefix p s then Some (drop (length p) s) else None)"

definition strip_suffix :: "string \<Rightarrow> string \<Rightarrow> string option" where
  "strip_suffix p s = (if suffix p s then Some (take (length s - length p) s) else None)"

text \<open>\<^verbatim>\<open>s.find(p)\<close>: the offset of the first occurrence.\<close>

fun find_str :: "string \<Rightarrow> string \<Rightarrow> nat option" where
  "find_str p [] = (if p = [] then Some 0 else None)"
| "find_str p (c # s) =
     (if prefix p (c # s) then Some 0 else map_option Suc (find_str p s))"

definition contains_str :: "string \<Rightarrow> string \<Rightarrow> bool" where
  "contains_str p s = (find_str p s \<noteq> None)"

text \<open>\<^verbatim>\<open>s.find(c)\<close> for one ASCII character, and \<^verbatim>\<open>s.rfind(c)\<close>.\<close>

fun find_char :: "char \<Rightarrow> string \<Rightarrow> nat option" where
  "find_char x [] = None"
| "find_char x (c # s) = (if c = x then Some 0 else map_option Suc (find_char x s))"

fun rfind_char :: "char \<Rightarrow> string \<Rightarrow> nat option" where
  "rfind_char x [] = None"
| "rfind_char x (c # s) =
     (case rfind_char x s of
        Some i \<Rightarrow> Some (Suc i)
      | None \<Rightarrow> if c = x then Some 0 else None)"

definition split_once :: "char \<Rightarrow> string \<Rightarrow> (string \<times> string) option" where
  "split_once x s =
     (case find_char x s of
        None \<Rightarrow> None
      | Some i \<Rightarrow> Some (take i s, drop (Suc i) s))"

definition rsplit_once :: "char \<Rightarrow> string \<Rightarrow> (string \<times> string) option" where
  "rsplit_once x s =
     (case rfind_char x s of
        None \<Rightarrow> None
      | Some i \<Rightarrow> Some (take i s, drop (Suc i) s))"

definition split_once_str :: "string \<Rightarrow> string \<Rightarrow> (string \<times> string) option" where
  "split_once_str p s =
     (case find_str p s of
        None \<Rightarrow> None
      | Some i \<Rightarrow> Some (take i s, drop (i + length p) s))"

text \<open>\<^verbatim>\<open>s.split(c)\<close>, as the list of all pieces: never empty.\<close>

fun split_on :: "char \<Rightarrow> string \<Rightarrow> string list" where
  "split_on x [] = [[]]"
| "split_on x (c # s) =
     (if c = x then [] # split_on x s
      else (case split_on x s of
              [] \<Rightarrow> [[c]]
            | piece # pieces \<Rightarrow> (c # piece) # pieces))"

text \<open>\<^verbatim>\<open>pieces.join(sep)\<close>.\<close>

fun join_with :: "string \<Rightarrow> string list \<Rightarrow> string" where
  "join_with sep [] = []"
| "join_with sep [x] = x"
| "join_with sep (x # y # xs) = x @ sep @ join_with sep (y # xs)"

text \<open>\<^verbatim>\<open>s.trim_start_matches(p)\<close> for a non-empty literal, \<^verbatim>\<open>s.trim_end_matches(c)\<close>.\<close>

function trim_start_matches :: "string \<Rightarrow> string \<Rightarrow> string" where
  "trim_start_matches p s =
     (if p \<noteq> [] \<and> prefix p s then trim_start_matches p (drop (length p) s) else s)"
  by pat_completeness auto
termination
  by (relation "measure (\<lambda>(p, s). length s)") (auto simp: prefix_def)

declare trim_start_matches.simps [simp del]

definition trim_end_matches :: "char \<Rightarrow> string \<Rightarrow> string" where
  "trim_end_matches c s = rev (dropWhile (\<lambda>x. x = c) (rev s))"

section \<open>Non-ASCII punctuation of the messages\<close>

definition ellipsis :: string where
  "ellipsis = [CHR 0xE2, CHR 0x80, CHR 0xA6]"

definition em_dash :: string where
  "em_dash = [CHR 0xE2, CHR 0x80, CHR 0x94]"

text \<open>A text between grave accents.\<close>

definition quoted :: "string \<Rightarrow> string" where
  "quoted s = [CHR 0x60] @ s @ [CHR 0x60]"

section \<open>Unicode on bytes: whitespace and character boundaries\<close>

text \<open>
  The UTF-8 encodings of the characters \<^verbatim>\<open>char::is_whitespace\<close> accepts (the Unicode
  property White_Space): U+0009 to U+000D, U+0020, U+0085, U+00A0, U+1680, U+2000 to
  U+200A, U+2028, U+2029, U+202F, U+205F and U+3000.
\<close>

definition ws_chars :: "string list" where
  "ws_chars =
     [[CHR 0x09], [CHR 0x0A], [CHR 0x0B], [CHR 0x0C], [CHR 0x0D], [CHR 0x20],
      [CHR 0xC2, CHR 0x85], [CHR 0xC2, CHR 0xA0], [CHR 0xE1, CHR 0x9A, CHR 0x80],
      [CHR 0xE2, CHR 0x80, CHR 0x80], [CHR 0xE2, CHR 0x80, CHR 0x81],
      [CHR 0xE2, CHR 0x80, CHR 0x82], [CHR 0xE2, CHR 0x80, CHR 0x83],
      [CHR 0xE2, CHR 0x80, CHR 0x84], [CHR 0xE2, CHR 0x80, CHR 0x85],
      [CHR 0xE2, CHR 0x80, CHR 0x86], [CHR 0xE2, CHR 0x80, CHR 0x87],
      [CHR 0xE2, CHR 0x80, CHR 0x88], [CHR 0xE2, CHR 0x80, CHR 0x89],
      [CHR 0xE2, CHR 0x80, CHR 0x8A], [CHR 0xE2, CHR 0x80, CHR 0xA8],
      [CHR 0xE2, CHR 0x80, CHR 0xA9], [CHR 0xE2, CHR 0x80, CHR 0xAF],
      [CHR 0xE2, CHR 0x81, CHR 0x9F], [CHR 0xE3, CHR 0x80, CHR 0x80]]"

definition ws_at_start :: "string \<Rightarrow> string option" where
  "ws_at_start s = find (\<lambda>w. prefix w s) ws_chars"

definition ws_at_end :: "string \<Rightarrow> string option" where
  "ws_at_end s = find (\<lambda>w. suffix w s) ws_chars"

lemma ws_chars_nonempty: "[] \<notin> set ws_chars"
  by (simp add: ws_chars_def)

lemma ws_at_start_SomeD: "ws_at_start s = Some w \<Longrightarrow> w \<noteq> [] \<and> prefix w s"
  using ws_chars_nonempty by (force simp: ws_at_start_def find_Some_iff set_conv_nth)

lemma ws_at_end_SomeD: "ws_at_end s = Some w \<Longrightarrow> w \<noteq> [] \<and> suffix w s"
  using ws_chars_nonempty by (force simp: ws_at_end_def find_Some_iff set_conv_nth)

function trim_start :: "string \<Rightarrow> string" where
  "trim_start s =
     (case ws_at_start s of None \<Rightarrow> s | Some w \<Rightarrow> trim_start (drop (length w) s))"
  by pat_completeness auto
termination
  by (relation "measure length") (auto dest!: ws_at_start_SomeD simp: prefix_def)

function trim_end :: "string \<Rightarrow> string" where
  "trim_end s =
     (case ws_at_end s of
        None \<Rightarrow> s
      | Some w \<Rightarrow> trim_end (take (length s - length w) s))"
  by pat_completeness auto
termination
  by (relation "measure length") (auto dest!: ws_at_end_SomeD simp: suffix_def)

declare trim_start.simps [simp del] trim_end.simps [simp del]

definition trim_ws :: "string \<Rightarrow> string" where
  "trim_ws s = trim_end (trim_start s)"

text \<open>\<^verbatim>\<open>s.is_char_boundary(n)\<close>: the ends, and any byte that does not continue a character.\<close>

definition continuation_byte :: "char \<Rightarrow> bool" where
  "continuation_byte c = (128 \<le> (of_char c :: nat) \<and> (of_char c :: nat) < 192)"

definition is_char_boundary :: "string \<Rightarrow> nat \<Rightarrow> bool" where
  "is_char_boundary s n =
     (n = 0 \<or> n = length s \<or> (n < length s \<and> \<not> continuation_byte (s ! n)))"

section \<open>ASCII classes\<close>

definition is_ascii_digit :: "char \<Rightarrow> bool" where
  "is_ascii_digit c = (CHR ''0'' \<le> c \<and> c \<le> CHR ''9'')"

definition is_ascii_alphabetic :: "char \<Rightarrow> bool" where
  "is_ascii_alphabetic c =
     ((CHR ''A'' \<le> c \<and> c \<le> CHR ''Z'') \<or> (CHR ''a'' \<le> c \<and> c \<le> CHR ''z''))"

definition is_ascii_alphanumeric :: "char \<Rightarrow> bool" where
  "is_ascii_alphanumeric c = (is_ascii_alphabetic c \<or> is_ascii_digit c)"

definition to_ascii_lower :: "char \<Rightarrow> char" where
  "to_ascii_lower c =
     (if CHR ''A'' \<le> c \<and> c \<le> CHR ''Z'' then char_of ((of_char c :: nat) + 32) else c)"

definition to_ascii_lowercase :: "string \<Rightarrow> string" where
  "to_ascii_lowercase s = map to_ascii_lower s"

section \<open>Decimal numbers\<close>

definition digit_char :: "int \<Rightarrow> char" where
  "digit_char d = char_of (48 + d)"

definition digit_val :: "char \<Rightarrow> int" where
  "digit_val c = of_char c - 48"

text \<open>Decimal printing, as \<^verbatim>\<open>{}\<close> prints an unsigned integer.\<close>

function show_dec :: "int \<Rightarrow> string" where
  "show_dec n =
     (if n < 10 then [digit_char n] else show_dec (n div 10) @ [digit_char (n mod 10)])"
  by pat_completeness auto
termination
  by (relation "measure nat") auto

declare show_dec.simps [simp del]

definition decimal_val :: "string \<Rightarrow> int" where
  "decimal_val s = foldl (\<lambda>acc c. 10 * acc + digit_val c) 0 s"

text \<open>
  \<^verbatim>\<open>s.parse::<u64>()\<close>: an optional \<^verbatim>\<open>+\<close>, at least one decimal digit and nothing
  else, and a value that fits; overflow is an error.
\<close>

definition parse_u64 :: "string \<Rightarrow> u64 option" where
  "parse_u64 s =
     (let ds = (case s of c # cs \<Rightarrow> if c = CHR ''+'' then cs else s | [] \<Rightarrow> s)
      in if ds \<noteq> [] \<and> list_all is_ascii_digit ds \<and> decimal_val ds < 2 ^ 64
         then Some (word_of_int (decimal_val ds)) else None)"


section \<open>Facts of the string operations\<close>

lemma strip_prefix_append [simp]: "strip_prefix p (p @ s) = Some s"
  by (simp add: strip_prefix_def)

lemma strip_prefix_Some_iff: "strip_prefix p s = Some t \<longleftrightarrow> s = p @ t"
  by (auto simp: strip_prefix_def prefix_def)

lemma strip_suffix_append [simp]: "strip_suffix p (s @ p) = Some s"
  by (simp add: strip_suffix_def suffix_def)

lemma strip_suffix_Some_iff: "strip_suffix p s = Some t \<longleftrightarrow> s = t @ p"
  by (auto simp: strip_suffix_def suffix_def)

lemma find_str_SomeD:
  "find_str p s = Some i \<Longrightarrow>
     i \<le> length s \<and> prefix p (drop i s) \<and> (\<forall>j<i. \<not> prefix p (drop j s))"
proof (induction p s arbitrary: i rule: find_str.induct)
  case (1 p)
  then show ?case by (simp split: if_splits)
next
  case (2 p c s)
  show ?case
  proof (cases "prefix p (c # s)")
    case False
    with 2 obtain k where i: "i = Suc k" and k: "find_str p s = Some k" by auto
    show ?thesis
    proof (intro conjI allI impI)
      fix j assume "j < i"
      with False 2(1) [OF False k] i show "\<not> prefix p (drop j (c # s))" by (cases j) auto
    qed (use 2(1) [OF False k] i in auto)
  qed (use 2 in simp)
qed

lemma find_str_None_iff: "find_str p s = None \<longleftrightarrow> (\<forall>i \<le> length s. \<not> prefix p (drop i s))"
proof (induction p s rule: find_str.induct)
  case (2 p c s)
  have "(\<forall>i \<le> length (c # s). \<not> prefix p (drop i (c # s))) \<longleftrightarrow>
        \<not> prefix p (c # s) \<and> (\<forall>i \<le> length s. \<not> prefix p (drop i s))"
    unfolding less_Suc_eq_le [symmetric] length_Cons All_less_Suc2 by simp
  with 2 show ?case by auto
qed auto

lemma find_str_not_None:
  assumes "s = a @ p @ c" shows "find_str p s \<noteq> None"
  using assms by (auto simp: find_str_None_iff intro!: exI [of _ "length a"])

lemma find_str_infix [simp]: "find_str p (a @ p @ c) \<noteq> None"
  by (rule find_str_not_None) (rule refl)

lemma split_once_str_append:
  assumes "x \<notin> set a"
  shows "split_once_str (x # p) (a @ x # p @ b) = Some (a, b)"
proof -
  from assms have "find_str (x # p) (a @ x # p @ b) = Some (length a)"
    by (induction a) auto
  then show ?thesis by (simp add: split_once_str_def)
qed

lemma contains_str_iff: "contains_str p s \<longleftrightarrow> (\<exists>a c. s = a @ p @ c)"
proof
  assume "contains_str p s"
  then obtain i where "find_str p s = Some i" by (auto simp: contains_str_def)
  then have "prefix p (drop i s)" by (simp add: find_str_SomeD)
  then obtain c where "drop i s = p @ c" by (auto simp: prefix_def)
  then have "s = take i s @ p @ c" by (metis append_take_drop_id)
  then show "\<exists>a c. s = a @ p @ c" by blast
next
  assume "\<exists>a c. s = a @ p @ c"
  then show "contains_str p s" unfolding contains_str_def using find_str_not_None by blast
qed

lemma find_char_Some_iff:
  "find_char x s = Some i \<longleftrightarrow> i < length s \<and> s ! i = x \<and> x \<notin> set (take i s)"
proof (induction x s arbitrary: i rule: find_char.induct)
  case (2 x c s)
  then show ?case by (cases i) auto
qed simp

lemma find_char_None_iff [str_simps]: "find_char x s = None \<longleftrightarrow> x \<notin> set s"
  by (induction x s rule: find_char.induct) auto

lemma find_char_append [str_simps]:
  "x \<notin> set a \<Longrightarrow> find_char x (a @ x # b) = Some (length a)"
  by (simp add: find_char_Some_iff)

lemma find_char_SomeD:
  assumes "find_char x s = Some i"
  shows "s = take i s @ x # drop (Suc i) s" "x \<notin> set (take i s)" "i < length s"
  using assms by (auto simp: find_char_Some_iff id_take_nth_drop)

lemma rfind_char_None_iff [str_simps]: "rfind_char x s = None \<longleftrightarrow> x \<notin> set s"
  by (induction x s rule: rfind_char.induct) (auto split: option.splits)

lemma rfind_char_append [str_simps]:
  "x \<notin> set b \<Longrightarrow> rfind_char x (a @ x # b) = Some (length a)"
  by (induction a) (auto simp: rfind_char_None_iff [THEN iffD2])

lemma split_once_None_iff [str_simps]: "split_once x s = None \<longleftrightarrow> x \<notin> set s"
  by (simp add: split_once_def find_char_None_iff split: option.split)
     (metis find_char_None_iff option.distinct(1))

lemma split_once_append [str_simps]:
  "x \<notin> set a \<Longrightarrow> split_once x (a @ x # b) = Some (a, b)"
  by (simp add: split_once_def find_char_append)

lemma split_once_Some_iff:
  "split_once x s = Some (a, b) \<longleftrightarrow> s = a @ x # b \<and> x \<notin> set a"
proof
  assume "split_once x s = Some (a, b)"
  then show "s = a @ x # b \<and> x \<notin> set a"
    by (auto simp: split_once_def dest: find_char_SomeD split: option.splits)
qed (auto simp: split_once_append)

lemma rsplit_once_None_iff [str_simps]: "rsplit_once x s = None \<longleftrightarrow> x \<notin> set s"
  by (simp add: rsplit_once_def rfind_char_None_iff split: option.split)
     (metis rfind_char_None_iff option.distinct(1))

lemma rsplit_once_append [str_simps]:
  "x \<notin> set b \<Longrightarrow> rsplit_once x (a @ x # b) = Some (a, b)"
  by (simp add: rsplit_once_def rfind_char_append)

lemma split_last_occurrence: "x \<in> set s \<Longrightarrow> \<exists>a b. s = a @ x # b \<and> x \<notin> set b"
  by (rule split_list_last)

lemma rsplit_once_Some_iff:
  "rsplit_once x s = Some (a, b) \<longleftrightarrow> s = a @ x # b \<and> x \<notin> set b"
proof
  assume h: "rsplit_once x s = Some (a, b)"
  then have "x \<in> set s" by (metis rsplit_once_None_iff option.distinct(1))
  then obtain a' b' where "s = a' @ x # b'" "x \<notin> set b'" by (meson split_list_last)
  with h show "s = a @ x # b \<and> x \<notin> set b" by (auto simp: rsplit_once_append)
qed (auto simp: rsplit_once_append)

lemma split_on_nonempty [simp]: "split_on x s \<noteq> []"
  by (induction x s rule: split_on.induct) (auto split: list.splits)

lemma split_on_no_sep [str_simps]: "x \<notin> set s \<Longrightarrow> split_on x s = [s]"
  by (induction s) auto

lemma split_on_append [str_simps]:
  "x \<notin> set a \<Longrightarrow> split_on x (a @ x # b) = a # split_on x b"
  by (induction a) auto

lemma split_on_hd: "hd (split_on x s) = takeWhile (\<lambda>c. c \<noteq> x) s"
  by (induction x s rule: split_on.induct) (auto split: list.splits)

lemma split_on_pieces: "piece \<in> set (split_on x s) \<Longrightarrow> x \<notin> set piece"
  by (induction x s arbitrary: piece rule: split_on.induct) (fastforce split: list.splits if_splits)+

lemma split_on_join:
  "pieces \<noteq> [] \<Longrightarrow> list_all (\<lambda>p. x \<notin> set p) pieces \<Longrightarrow> split_on x (join_with [x] pieces) = pieces"
  by (induction "[x]" pieces rule: join_with.induct) (auto simp: split_on_append split_on_no_sep)

lemma join_split_on: "join_with [x] (split_on x s) = s"
proof (induction x s rule: split_on.induct)
  case (2 x c s)
  then show ?case
    by (cases "split_on x s"; cases "tl (split_on x s)") auto
qed simp

lemma length_trim_start_matches: "length (trim_start_matches p s) \<le> length s"
proof (induction p s rule: trim_start_matches.induct)
  case (1 p s)
  show ?case
  proof (cases "p \<noteq> [] \<and> prefix p s")
    case True
    with 1 have "length (trim_start_matches p (drop (length p) s)) \<le> length (drop (length p) s)"
      by blast
    with True show ?thesis by (simp add: trim_start_matches.simps [of p s])
  qed (auto simp: trim_start_matches.simps [of p s])
qed

lemma trim_start_matches_id [str_simps]:
  "\<not> prefix p s \<Longrightarrow> trim_start_matches p s = s"
  by (simp add: trim_start_matches.simps)

lemma trim_start_matches_append [str_simps]:
  "p \<noteq> [] \<Longrightarrow> trim_start_matches p (p @ s) = trim_start_matches p s"
  by (simp add: trim_start_matches.simps [of p "p @ s"])

lemma trim_end_matches_id [str_simps]:
  "s = [] \<or> last s \<noteq> c \<Longrightarrow> trim_end_matches c s = s"
  by (cases s rule: rev_cases) (auto simp: trim_end_matches_def)

lemma trim_end_matches_snoc [simp]: "trim_end_matches c (s @ [c]) = trim_end_matches c s"
  by (simp add: trim_end_matches_def)

lemma trim_start_id [str_simps]: "ws_at_start s = None \<Longrightarrow> trim_start s = s"
  by (simp add: trim_start.simps)

lemma trim_end_id [str_simps]: "ws_at_end s = None \<Longrightarrow> trim_end s = s"
  by (simp add: trim_end.simps)

text \<open>Nothing to trim when both ends are printable ASCII.\<close>

definition ascii_graphic :: "char \<Rightarrow> bool" where
  "ascii_graphic c = (CHR ''!'' \<le> c \<and> c \<le> CHR ''~'')"

lemma ws_chars_ends:
  "w \<in> set ws_chars \<Longrightarrow> \<not> ascii_graphic (hd w) \<and> \<not> ascii_graphic (last w) \<and> w \<noteq> []"
  by (auto simp: ws_chars_def ascii_graphic_def)

lemma ws_at_start_None:
  assumes "s = [] \<or> ascii_graphic (hd s)" shows "ws_at_start s = None"
proof -
  have "\<not> prefix w s" if "w \<in> set ws_chars" for w
    using ws_chars_ends [OF that] assms by (cases w; cases s) auto
  then show ?thesis by (simp add: ws_at_start_def find_None_iff)
qed

lemma ws_at_end_None:
  assumes "s = [] \<or> ascii_graphic (last s)" shows "ws_at_end s = None"
proof -
  have "\<not> suffix w s" if "w \<in> set ws_chars" for w
    using ws_chars_ends [OF that] assms
    by (cases w rule: rev_cases; cases s rule: rev_cases) auto
  then show ?thesis by (simp add: ws_at_end_def find_None_iff)
qed

lemma trim_ws_id [str_simps]:
  "s = [] \<or> (ascii_graphic (hd s) \<and> ascii_graphic (last s)) \<Longrightarrow> trim_ws s = s"
  by (auto simp: trim_ws_def trim_start_id trim_end_id ws_at_start_None ws_at_end_None)

section \<open>Facts of decimal numbers\<close>

lemma of_char_nat_int: "(of_char c :: nat) = nat (of_char c :: int)"
  by (metis nat_int of_nat_of_char)

lemma of_char_of_int: "0 \<le> n \<Longrightarrow> n < 256 \<Longrightarrow> (of_char (char_of (n :: int)) :: nat) = nat n"
  by (simp add: of_char_nat_int)

lemma is_ascii_digit_digit_char [simp]:
  "0 \<le> d \<Longrightarrow> d < 10 \<Longrightarrow> is_ascii_digit (digit_char d)"
  by (auto simp: is_ascii_digit_def digit_char_def less_eq_char_def of_char_of_int nat_le_iff
        le_nat_iff)

lemma digit_val_digit_char [simp]: "0 \<le> d \<Longrightarrow> d < 10 \<Longrightarrow> digit_val (digit_char d) = d"
  by (simp add: digit_val_def digit_char_def)

lemma digit_val_bounds: "is_ascii_digit c \<Longrightarrow> 0 \<le> digit_val c \<and> digit_val c < 10"
proof -
  assume "is_ascii_digit c"
  then have "48 \<le> (of_char c :: nat)" "(of_char c :: nat) \<le> 57"
    by (simp_all add: is_ascii_digit_def less_eq_char_def)
  moreover have "(of_char c :: int) = int (of_char c :: nat)" by (rule of_nat_of_char [symmetric])
  ultimately show ?thesis unfolding digit_val_def by linarith
qed

lemma is_ascii_digit_graphic: "is_ascii_digit c \<Longrightarrow> ascii_graphic c"
  by (auto simp: is_ascii_digit_def ascii_graphic_def less_eq_char_def)

lemma decimal_val_Nil [simp]: "decimal_val [] = 0"
  by (simp add: decimal_val_def)

lemma decimal_val_snoc [simp]: "decimal_val (s @ [c]) = 10 * decimal_val s + digit_val c"
  by (simp add: decimal_val_def)

lemma decimal_val_nonneg: "list_all is_ascii_digit s \<Longrightarrow> 0 \<le> decimal_val s"
proof (induction s rule: rev_induct)
  case (snoc c s)
  then show ?case using digit_val_bounds [of c] by auto
qed simp

lemma show_dec_nonempty [simp]: "show_dec n \<noteq> []"
  by (simp add: show_dec.simps [of n])

lemma show_dec_digits: "0 \<le> n \<Longrightarrow> list_all is_ascii_digit (show_dec n)"
proof (induction n rule: show_dec.induct)
  case (1 n)
  then show ?case by (simp add: show_dec.simps [of n] pos_imp_zdiv_nonneg_iff)
qed

lemma decimal_val_show_dec [simp]: "0 \<le> n \<Longrightarrow> decimal_val (show_dec n) = n"
proof (induction n rule: show_dec.induct)
  case (1 n)
  then show ?case
    by (cases "n < 10") (simp_all add: show_dec.simps [of n] decimal_val_def [of "[_]"])
qed

lemma plus_not_digit [simp]: "\<not> is_ascii_digit (CHR ''+'')"
  by (simp add: is_ascii_digit_def)

lemma parse_u64_digits:
  "s \<noteq> [] \<Longrightarrow> list_all is_ascii_digit s \<Longrightarrow>
     parse_u64 s = (if decimal_val s < 2 ^ 64 then Some (word_of_int (decimal_val s)) else None)"
  by (cases s) (auto simp: parse_u64_def)

lemma parse_u64_show_dec [simp]: "parse_u64 (show_dec (uint w)) = Some w"
  using uint_lt2p [of w] by (simp add: parse_u64_digits show_dec_digits)

lemma uint_word_of_int_u64: "0 \<le> n \<Longrightarrow> n < 2 ^ 64 \<Longrightarrow> uint (word_of_int n :: u64) = n"
  by (simp add: uint_word_of_int_eq take_bit_int_eq_self)

lemma parse_u64_Some_uint:
  assumes "parse_u64 s = Some w"
  shows "uint w = decimal_val (case s of c # cs \<Rightarrow> if c = CHR ''+'' then cs else s | [] \<Rightarrow> s)"
proof -
  let ?ds = "case s of c # cs \<Rightarrow> if c = CHR ''+'' then cs else s | [] \<Rightarrow> s"
  from assms have "list_all is_ascii_digit ?ds" "decimal_val ?ds < 2 ^ 64"
    "w = word_of_int (decimal_val ?ds)"
    by (simp_all add: parse_u64_def Let_def split: if_split_asm)
  then show ?thesis by (simp only: uint_word_of_int_u64 decimal_val_nonneg)
qed


lemma trim_end_keeps:
  assumes "ascii_graphic c" shows "\<exists>b'. trim_end (a @ c # b) = a @ c # b'"
proof (induction "length b" arbitrary: b rule: less_induct)
  case less
  show ?case
  proof (cases "ws_at_end (a @ c # b)")
    case None
    then show ?thesis by (auto simp: trim_end_id)
  next
    case (Some w)
    then have w: "w \<in> set ws_chars" "suffix w (a @ c # b)" "w \<noteq> []"
      using ws_at_end_SomeD [OF Some] by (auto simp: ws_at_end_def find_Some_iff)
    have "c \<notin> set w"
      using w(1) assms by (auto simp: ws_chars_def ascii_graphic_def)
    with w(2) have "suffix w b"
      by (auto simp: suffix_def append_eq_append_conv2 Cons_eq_append_conv)
    then obtain b0 where b: "b = b0 @ w" by (auto simp: suffix_def)
    with \<open>w \<noteq> []\<close> have "length b0 < length b" by simp
    have "take (length (a @ c # b) - length w) (a @ c # b) = a @ c # b0"
      using append_eq_conv_conj [of "a @ c # b0" w "a @ c # b"] by (simp add: b)
    with Some have "trim_end (a @ c # b) = trim_end (a @ c # b0)"
      by (simp only: trim_end.simps [of "a @ c # b"] option.case)
    with less [OF \<open>length b0 < length b\<close>] show ?thesis by simp
  qed
qed

lemma show_dec_set: "0 \<le> n \<Longrightarrow> c \<in> set (show_dec n) \<Longrightarrow> is_ascii_digit c"
  using show_dec_digits [of n] by (simp add: list_all_iff)

lemma digit_not_punctuation [simp]:
  "\<not> is_ascii_digit (CHR ''.'')" "\<not> is_ascii_digit (CHR ''-'')" "\<not> is_ascii_digit (CHR ''v'')"
  "\<not> is_ascii_digit (CHR '':'')"
  by (simp_all add: is_ascii_digit_def)


section \<open>Occurrences of a literal\<close>

lemma first_split_eq:
  "x \<notin> set a \<Longrightarrow> x \<notin> set a' \<Longrightarrow> a @ x # b = a' @ x # b' \<longleftrightarrow> a = a' \<and> b = b'"
proof (induction a arbitrary: a')
  case Nil
  then show ?case by (cases a') auto
next
  case (Cons y a)
  then show ?case by (cases a') auto
qed

text \<open>A literal with no border never overlaps itself.\<close>

definition border_free :: "string \<Rightarrow> bool" where
  "border_free p = list_all (\<lambda>k. \<not> prefix (drop k p) p) [1..<length p]"

lemma border_free_no_overlap:
  assumes "border_free p" "prefix p s" "prefix p (drop k s)" "0 < k"
  shows "length p \<le> k"
proof (rule ccontr)
  assume k: "\<not> length p \<le> k"
  obtain t where "s = p @ t" using assms(2) by (auto simp: prefix_def)
  with k have "drop k s = drop k p @ t" by simp
  with assms(3) have "prefix (drop k p) p"
    by (metis prefixI prefix_length_prefix length_drop diff_le_self)
  moreover have "k \<in> set [1..<length p]" using k assms(4) by simp
  ultimately show False using assms(1) by (auto simp: border_free_def list_all_iff)
qed

lemma find_str_first:
  assumes "find_str p s = Some i"
  shows "s = take i s @ p @ drop (i + length p) s"
    and "s = a @ p @ w \<Longrightarrow> i \<le> length a"
proof -
  from find_str_SomeD [OF assms] have i: "prefix p (drop i s)"
    and first: "\<forall>j<i. \<not> prefix p (drop j s)" by auto
  from i obtain t where t: "drop i s = p @ t" by (auto simp: prefix_def)
  then have "t = drop (i + length p) s" by (metis append_eq_conv_conj drop_drop add.commute)
  with t show "s = take i s @ p @ drop (i + length p) s" by (metis append_take_drop_id)
  show "i \<le> length a" if "s = a @ p @ w"
  proof (rule ccontr)
    assume "\<not> i \<le> length a"
    then have "\<not> prefix p (drop (length a) s)" using first by simp
    with that show False by simp
  qed
qed

section \<open>Valid UTF-8\<close>

text \<open>\<^verbatim>\<open>str::from_utf8\<close>: no surrogates, no overlong forms, nothing above U+10FFFF.\<close>

definition byte_in :: "nat \<Rightarrow> nat \<Rightarrow> char \<Rightarrow> bool" where
  "byte_in lo hi c = (lo \<le> of_char c \<and> of_char c \<le> hi)"

fun valid_utf8 :: "string \<Rightarrow> bool" where
  "valid_utf8 [] = True"
| "valid_utf8 (a # s) =
     (if byte_in 0 0x7F a then valid_utf8 s
      else if byte_in 0xC2 0xDF a
      then (case s of b # s' \<Rightarrow> byte_in 0x80 0xBF b \<and> valid_utf8 s' | [] \<Rightarrow> False)
      else if byte_in 0xE0 0xEF a
      then (case s of
              b # c # s' \<Rightarrow>
                byte_in (if byte_in 0xE0 0xE0 a then 0xA0 else 0x80)
                        (if byte_in 0xED 0xED a then 0x9F else 0xBF) b
                \<and> byte_in 0x80 0xBF c \<and> valid_utf8 s'
            | _ \<Rightarrow> False)
      else if byte_in 0xF0 0xF4 a
      then (case s of
              b # c # d # s' \<Rightarrow>
                byte_in (if byte_in 0xF0 0xF0 a then 0x90 else 0x80)
                        (if byte_in 0xF4 0xF4 a then 0x8F else 0xBF) b
                \<and> byte_in 0x80 0xBF c \<and> byte_in 0x80 0xBF d \<and> valid_utf8 s'
            | _ \<Rightarrow> False)
      else False)"

section \<open>Lists\<close>

lemma in_set_map_filter: "x \<in> set (List.map_filter f xs) \<longleftrightarrow> (\<exists>y \<in> set xs. f y = Some x)"
  by (induction xs) (auto simp: List.map_filter_def)

end
