(* ===== verification/Cmp.thy ===== *)
theory Cmp imports Prelude "HOL-Library.List_Lexorder" "HOL-Library.Product_Lexorder" begin

text \<open>
  Three-way comparison as \<^verbatim>\<open>std::cmp::Ordering\<close> has it, and the contract of a
  comparison function as a locale: a reflexive, antisymmetric (up to \<^verbatim>\<open>Equal\<close>) and
  transitive \<^verbatim>\<open>cmp\<close>. Components that implement \<^verbatim>\<open>Ord\<close> by hand interpret it.
\<close>

datatype ordering = Less | Equal | Greater

fun reverse_ordering :: "ordering \<Rightarrow> ordering" where
  "reverse_ordering Less = Greater"
| "reverse_ordering Equal = Equal"
| "reverse_ordering Greater = Less"

text \<open>\<^verbatim>\<open>Ordering::then_with\<close>; the closure is only run on \<^verbatim>\<open>Equal\<close>.\<close>

definition then_with :: "ordering \<Rightarrow> ordering \<Rightarrow> ordering" where
  "then_with o1 o2 = (if o1 = Equal then o2 else o1)"

text \<open>\<^verbatim>\<open>Ord::cmp\<close> of the built-in types: integers, tuples, byte strings.\<close>

definition cmp_lin :: "'a :: linorder \<Rightarrow> 'a \<Rightarrow> ordering" where
  "cmp_lin a b = (if a < b then Less else if a = b then Equal else Greater)"

lemma reverse_reverse [simp]: "reverse_ordering (reverse_ordering x) = x"
  by (cases x) auto

lemma reverse_eq_iff [simp]:
  "reverse_ordering x = Less \<longleftrightarrow> x = Greater"
  "reverse_ordering x = Equal \<longleftrightarrow> x = Equal"
  "reverse_ordering x = Greater \<longleftrightarrow> x = Less"
  by (cases x; simp)+

locale comparison =
  fixes compare :: "'a \<Rightarrow> 'a \<Rightarrow> ordering"
  assumes compare_refl: "compare a a = Equal"
    and compare_swap: "compare b a = reverse_ordering (compare a b)"
    and compare_trans:
      "compare a b \<noteq> Greater \<Longrightarrow> compare b c \<noteq> Greater \<Longrightarrow> compare a c \<noteq> Greater"
begin

lemma compare_Equal_sym: "compare a b = Equal \<Longrightarrow> compare b a = Equal"
  using compare_swap [of a b] by simp

lemma compare_ge_trans:
  "compare a b \<noteq> Less \<Longrightarrow> compare b c \<noteq> Less \<Longrightarrow> compare a c \<noteq> Less"
  using compare_trans [of c b a] compare_swap by (metis reverse_eq_iff(3))

lemma compare_Equal_left: "compare a b = Equal \<Longrightarrow> compare a c = compare b c"
proof -
  assume eq: "compare a b = Equal"
  then have eq': "compare b a = Equal" by (rule compare_Equal_sym)
  show ?thesis
    using compare_trans [of a b c] compare_trans [of b a c]
      compare_ge_trans [of a b c] compare_ge_trans [of b a c] eq eq'
    by (cases "compare a c"; cases "compare b c") auto
qed

lemma compare_Less_trans:
  "compare a b = Less \<Longrightarrow> compare b c \<noteq> Greater \<Longrightarrow> compare a c = Less"
proof -
  assume ab: "compare a b = Less" and bc: "compare b c \<noteq> Greater"
  have "compare a c \<noteq> Greater" using compare_trans [of a b c] ab bc by simp
  moreover have "compare a c \<noteq> Equal"
  proof
    assume "compare a c = Equal"
    then have "compare c b = Less"
      using compare_Equal_left [of a c b] ab by simp
    then show False using compare_swap [of c b] bc by simp
  qed
  ultimately show ?thesis by (cases "compare a c") simp_all
qed

lemma compare_total: "compare a b \<noteq> Greater \<or> compare b a \<noteq> Greater"
  using compare_swap [of a b] by (cases "compare a b") auto

end

lemma cmp_lin_eq_iff [simp]:
  "cmp_lin a b = Less \<longleftrightarrow> a < b"
  "cmp_lin a b = Equal \<longleftrightarrow> a = b"
  "cmp_lin a b = Greater \<longleftrightarrow> b < a"
  by (auto simp: cmp_lin_def)

interpretation lin: comparison "cmp_lin :: 'a :: linorder \<Rightarrow> 'a \<Rightarrow> ordering"
proof
  fix a b c :: 'a
  show "cmp_lin a a = Equal" by simp
  show "cmp_lin b a = reverse_ordering (cmp_lin a b)" by (auto simp: cmp_lin_def)
  show "cmp_lin a b \<noteq> Greater \<Longrightarrow> cmp_lin b c \<noteq> Greater \<Longrightarrow> cmp_lin a c \<noteq> Greater"
    by (simp add: not_less)
qed

text \<open>A comparison that reads a key of a linear order meets the contract.\<close>

lemma comparison_by_key:
  fixes key :: "'a \<Rightarrow> 'k :: linorder"
  assumes "\<And>a b. compare a b = cmp_lin (key a) (key b)"
  shows "comparison compare"
proof
  fix a b c
  show "compare a a = Equal" by (simp add: assms)
  show "compare b a = reverse_ordering (compare a b)"
    unfolding assms by (rule lin.compare_swap)
  show "compare a b \<noteq> Greater \<Longrightarrow> compare b c \<noteq> Greater \<Longrightarrow> compare a c \<noteq> Greater"
    unfolding assms by (rule lin.compare_trans)
qed

lemma cmp_lin_Pair: "cmp_lin (a, b) (c, d) = then_with (cmp_lin a c) (cmp_lin b d)"
  by (auto simp: cmp_lin_def then_with_def)

lemma cmp_lin_bool [simp]:
  "cmp_lin True True = Equal" "cmp_lin False False = Equal"
  "cmp_lin True False = Greater" "cmp_lin False True = Less"
  by simp_all

lemma then_with_simps [simp]:
  "then_with Equal x = x" "then_with Less x = Less" "then_with Greater x = Greater"
  by (simp_all add: then_with_def)

lemma cmp_lin_list:
  "cmp_lin [] [] = Equal"
  "cmp_lin [] (y # ys) = Less"
  "cmp_lin (x # xs) [] = Greater"
  "cmp_lin (x # xs) (y # ys) = then_with (cmp_lin x y) (cmp_lin xs ys)"
  by (auto simp: cmp_lin_def then_with_def)

end
