(* ===== verification/GatewayBuild.thy ===== *)
theory GatewayBuild imports Cmp "HOL-Library.Monad_Syntax" begin

text \<open>
  \<^verbatim>\<open>src/src/gateway_build.rs\<close>: gateway release versions, their order, and the refusal of
  builds released before the metrics overflow split.
\<close>

section \<open>Versions\<close>

record gateway_version =
  gv_core :: "u64 \<times> u64 \<times> u64"
  gv_pre :: "string list"

text \<open>The closure \<^verbatim>\<open>next\<close> of \<^verbatim>\<open>parse\<close>: advance the iterator of the parts and parse.\<close>

fun next_part :: "string list \<Rightarrow> (u64 \<times> string list) option" where
  "next_part [] = None"
| "next_part (p # ps) = map_option (\<lambda>n. (n, ps)) (parse_u64 p)"

definition parse_pre :: "string option \<Rightarrow> string list option" where
  "parse_pre pre =
     (case pre of
        Some p \<Rightarrow>
          if p = [] \<or> list_ex (\<lambda>x. x = []) (split_on CHR ''.'' p) then None
          else Some (split_on CHR ''.'' p)
      | None \<Rightarrow> Some [])"

definition parse_version :: "string \<Rightarrow> gateway_version option" where
  "parse_version version =
     (let v0 = trim_ws version;
          v1 = (case strip_prefix ''v'' v0 of Some t \<Rightarrow> t | None \<Rightarrow> v0);
          v = hd (split_on CHR ''+'' v1);
          (core, pre) = (case split_once CHR ''-'' v of
                           Some (core, pre) \<Rightarrow> (core, Some pre)
                         | None \<Rightarrow> (v, None))
      in do {
        let parts = split_on CHR ''.'' core;
        (a, parts) \<leftarrow> next_part parts;
        (b, parts) \<leftarrow> next_part parts;
        (c, parts) \<leftarrow> next_part parts;
        if parts \<noteq> [] then None
        else do {
          pre \<leftarrow> parse_pre pre;
          Some \<lparr>gv_core = (a, b, c), gv_pre = pre\<rparr>
        }
      })"

definition is_unreleased :: "gateway_version \<Rightarrow> bool" where
  "is_unreleased v = (gv_core v = (0, 0, 0) \<and> gv_pre v = [])"

section \<open>Order\<close>

definition ident_cmp :: "string \<Rightarrow> string \<Rightarrow> ordering" where
  "ident_cmp a b =
     (case (parse_u64 a, parse_u64 b) of
        (Some x, Some y) \<Rightarrow> cmp_lin x y
      | (Some _, None) \<Rightarrow> Less
      | (None, Some _) \<Rightarrow> Greater
      | (None, None) \<Rightarrow> cmp_lin a b)"

text \<open>The loop over the zipped identifiers: the first difference, if any.\<close>

fun first_difference :: "(string \<times> string) list \<Rightarrow> ordering option" where
  "first_difference [] = None"
| "first_difference ((a, b) # rest) =
     (let r = ident_cmp a b in if r \<noteq> Equal then Some r else first_difference rest)"

definition pre_cmp :: "string list \<Rightarrow> string list \<Rightarrow> ordering" where
  "pre_cmp p q =
     (case (p = [], q = []) of
        (True, True) \<Rightarrow> Equal
      | (True, False) \<Rightarrow> Greater
      | (False, True) \<Rightarrow> Less
      | (False, False) \<Rightarrow>
          (case first_difference (zip p q) of
             Some r \<Rightarrow> r
           | None \<Rightarrow> cmp_lin (length p) (length q)))"

definition version_cmp :: "gateway_version \<Rightarrow> gateway_version \<Rightarrow> ordering" where
  "version_cmp v w =
     then_with (cmp_lin (gv_core v) (gv_core w)) (pre_cmp (gv_pre v) (gv_pre w))"

definition version_partial_cmp :: "gateway_version \<Rightarrow> gateway_version \<Rightarrow> ordering option" where
  "version_partial_cmp v w = Some (version_cmp v w)"

section \<open>Display\<close>

definition show_u64 :: "u64 \<Rightarrow> string" where
  "show_u64 n = show_dec (uint n)"

definition show_version :: "gateway_version \<Rightarrow> string" where
  "show_version v =
     (case gv_core v of (major, minor, patch) \<Rightarrow>
        show_u64 major @ ''.'' @ show_u64 minor @ ''.'' @ show_u64 patch)
     @ (if gv_pre v \<noteq> [] then ''-'' @ join_with ''.'' (gv_pre v) else [])"

section \<open>The overflow split\<close>

definition last_before_overflow_split :: "(string \<times> u64) list" where
  "last_before_overflow_split = [(''alpha'', 1), (''beta'', 59), (''canary'', 917)]"

definition before_overflow_split :: "string \<Rightarrow> bool" where
  "before_overflow_split version =
     (case parse_version version of
        None \<Rightarrow> False
      | Some v \<Rightarrow>
          if is_unreleased v then False
          else (case cmp_lin (gv_core v) (0, 1, 0) of
            Less \<Rightarrow> True
          | Greater \<Rightarrow> False
          | Equal \<Rightarrow>
              (case gv_pre v of
                 [channel, n] \<Rightarrow>
                   list_ex (\<lambda>(c, last). c = channel \<and>
                     (case parse_u64 n of Some n \<Rightarrow> n \<le> last | None \<Rightarrow> False))
                     last_before_overflow_split
               | _ \<Rightarrow> False)))"

definition too_old :: string where
  "too_old = ''gateway_build_too_old''"

definition overflow_split_refusal :: "string \<Rightarrow> string option" where
  "overflow_split_refusal version =
     (if before_overflow_split version
      then Some (''gateway '' @ trim_ws version @
        '' was released before its metrics report kept refused and replayed calls apart from billable ones; use a later release'')
      else None)"

definition at_least :: "string \<Rightarrow> gateway_version \<Rightarrow> bool" where
  "at_least version floor =
     (case parse_version version of
        None \<Rightarrow> False
      | Some v \<Rightarrow> version_cmp v floor \<noteq> Less)"


section \<open>The order is a total preorder\<close>

text \<open>
  An identifier is compared by what it parses to: numbers below everything else, numbers by
  value, other identifiers as byte strings. This key type carries that order.
\<close>

datatype ident_key = NumKey u64 | AlphaKey string

instantiation ident_key :: linorder
begin

fun less_eq_ident_key :: "ident_key \<Rightarrow> ident_key \<Rightarrow> bool" where
  "less_eq_ident_key (NumKey a) (NumKey b) = (a \<le> b)"
| "less_eq_ident_key (NumKey _) (AlphaKey _) = True"
| "less_eq_ident_key (AlphaKey _) (NumKey _) = False"
| "less_eq_ident_key (AlphaKey a) (AlphaKey b) = (a \<le> b)"

definition less_ident_key :: "ident_key \<Rightarrow> ident_key \<Rightarrow> bool" where
  "less_ident_key a b = (a \<le> b \<and> \<not> b \<le> a)"

instance
proof
  fix a b c :: ident_key
  show "(a < b) = (a \<le> b \<and> \<not> b \<le> a)" by (rule less_ident_key_def)
  show "a \<le> a" by (cases a) auto
  show "a \<le> b \<Longrightarrow> b \<le> c \<Longrightarrow> a \<le> c" by (cases a; cases b; cases c) auto
  show "a \<le> b \<Longrightarrow> b \<le> a \<Longrightarrow> a = b" by (cases a; cases b) auto
  show "a \<le> b \<or> b \<le> a" by (cases a; cases b) auto
qed

end

definition ident_key_of :: "string \<Rightarrow> ident_key" where
  "ident_key_of s = (case parse_u64 s of Some n \<Rightarrow> NumKey n | None \<Rightarrow> AlphaKey s)"

definition version_key :: "gateway_version \<Rightarrow> (u64 \<times> u64 \<times> u64) \<times> bool \<times> ident_key list" where
  "version_key v = (gv_core v, gv_pre v = [], map ident_key_of (gv_pre v))"

lemma less_ident_key_simps [simp]:
  "NumKey m < NumKey n \<longleftrightarrow> m < n" "NumKey m < AlphaKey t"
  "\<not> AlphaKey s < NumKey n" "AlphaKey s < AlphaKey t \<longleftrightarrow> s < t"
  unfolding less_ident_key_def by auto

lemma ident_cmp_key: "ident_cmp a b = cmp_lin (ident_key_of a) (ident_key_of b)"
  by (cases "parse_u64 a"; cases "parse_u64 b")
    (simp_all add: ident_cmp_def ident_key_of_def cmp_lin_def)

lemma first_difference_key:
  "(case first_difference (zip p q) of Some r \<Rightarrow> r | None \<Rightarrow> cmp_lin (length p) (length q)) =
     cmp_lin (map ident_key_of p) (map ident_key_of q)"
proof (induction p arbitrary: q)
  case Nil
  then show ?case by (cases q) (auto simp: cmp_lin_def)
next
  case (Cons a p)
  show ?case
  proof (cases q)
    case Nil
    then show ?thesis by (auto simp: cmp_lin_def)
  next
    case (Cons b q')
    show ?thesis
      using Cons.IH [of q'] unfolding Cons
      by (cases "ident_cmp a b = Equal")
        (auto simp: ident_cmp_key cmp_lin_list then_with_def Let_def cmp_lin_def
          split: option.splits if_splits)
  qed
qed

lemma pre_cmp_key:
  "pre_cmp p q = cmp_lin (p = [], map ident_key_of p) (q = [], map ident_key_of q)"
  unfolding cmp_lin_Pair first_difference_key [symmetric] pre_cmp_def
  by (cases "p = []"; cases "q = []") (simp_all add: cmp_lin_def)

lemma version_cmp_key: "version_cmp v w = cmp_lin (version_key v) (version_key w)"
  unfolding version_key_def version_cmp_def pre_cmp_key by (subst cmp_lin_Pair) simp

interpretation version_order: comparison version_cmp
  by (rule comparison_by_key [of version_cmp version_key]) (rule version_cmp_key)


section \<open>Printing and parsing\<close>

definition semver_char :: "char \<Rightarrow> bool" where
  "semver_char c = (is_ascii_alphanumeric c \<or> c = CHR ''-'')"

definition semver_ident :: "string \<Rightarrow> bool" where
  "semver_ident s = (s \<noteq> [] \<and> list_all semver_char s)"

definition wf_version :: "gateway_version \<Rightarrow> bool" where
  "wf_version v = list_all semver_ident (gv_pre v)"

lemma semver_char_graphic:
  "semver_char c \<Longrightarrow> ascii_graphic c \<and> c \<noteq> CHR ''.'' \<and> c \<noteq> CHR ''+''"
  by (auto simp: semver_char_def is_ascii_alphanumeric_def is_ascii_alphabetic_def
        is_ascii_digit_def ascii_graphic_def less_eq_char_def)

lemma show_u64_chars: "c \<in> set (show_u64 n) \<Longrightarrow> is_ascii_digit c"
  unfolding show_u64_def by (rule show_dec_set) auto

lemma show_u64_nonempty [simp]: "show_u64 n \<noteq> []"
  by (simp add: show_u64_def)

lemma parse_show_u64 [simp]: "parse_u64 (show_u64 n) = Some n"
  by (simp add: show_u64_def)

lemma show_u64_no_punctuation [simp]:
  "CHR ''.'' \<notin> set (show_u64 n)" "CHR ''-'' \<notin> set (show_u64 n)"
  "CHR ''+'' \<notin> set (show_u64 n)" "CHR ''v'' \<notin> set (show_u64 n)"
  using show_u64_chars [of _ n] by fastforce+

definition show_core :: "u64 \<times> u64 \<times> u64 \<Rightarrow> string" where
  "show_core k = (case k of (a, b, c) \<Rightarrow>
     show_u64 a @ CHR ''.'' # show_u64 b @ CHR ''.'' # show_u64 c)"

lemma show_core_chars:
  "c \<in> set (show_core k) \<Longrightarrow> is_ascii_digit c \<or> c = CHR ''.''"
  by (auto simp: show_core_def split: prod.splits dest: show_u64_chars)

lemma split_show_core:
  "split_on CHR ''.'' (show_core (a, b, c)) = [show_u64 a, show_u64 b, show_u64 c]"
  by (simp add: show_core_def split_on_append split_on_no_sep)

lemma join_semver_chars:
  "list_all semver_ident pre \<Longrightarrow> c \<in> set (join_with ''.'' pre) \<Longrightarrow> semver_char c \<or> c = CHR ''.''"
  by (induction "''.''" pre rule: join_with.induct) (auto simp: semver_ident_def list_all_iff)

lemma show_version_core:
  "show_version v = show_core (gv_core v)
     @ (if gv_pre v \<noteq> [] then CHR ''-'' # join_with ''.'' (gv_pre v) else [])"
  by (simp add: show_version_def show_core_def split: prod.splits)

lemma show_version_chars:
  assumes "wf_version v" "c \<in> set (show_version v)"
  shows "ascii_graphic c \<and> c \<noteq> CHR ''+''"
proof -
  from assms have "semver_char c \<or> c = CHR ''.''"
    using join_semver_chars [of "gv_pre v" c] show_core_chars [of c "gv_core v"]
    by (auto simp: show_version_core wf_version_def semver_char_def is_ascii_alphanumeric_def
          split: if_splits)
  then show ?thesis using semver_char_graphic by (auto simp: ascii_graphic_def)
qed

lemma show_version_hd: "show_version v \<noteq> [] \<and> is_ascii_digit (hd (show_version v))"
  using show_u64_chars [OF hd_in_set [OF show_u64_nonempty]]
  by (auto simp: show_version_core show_core_def split: prod.splits)

lemma parse_pre_join:
  assumes "list_all semver_ident pre" "pre \<noteq> []"
  shows "parse_pre (Some (join_with ''.'' pre)) = Some pre"
proof -
  have sep: "list_all (\<lambda>p. CHR ''.'' \<notin> set p) pre"
    using assms(1) semver_char_graphic
    unfolding list_all_iff semver_ident_def by blast
  have split: "split_on CHR ''.'' (join_with ''.'' pre) = pre"
    using split_on_join [OF assms(2) sep] .
  have ne: "\<not> list_ex (\<lambda>x. x = []) pre"
    using assms(1) by (auto simp: list_all_iff list_ex_iff semver_ident_def)
  have "join_with ''.'' pre \<noteq> []"
    using assms by (cases pre; cases "tl pre") (auto simp: semver_ident_def)
  with split ne show ?thesis by (simp add: parse_pre_def)
qed

lemma parse_body:
  assumes "wf_version v" "trim_ws s = lead @ show_version v @ tail"
    and "lead = [] \<or> lead = ''v''" and "tail = [] \<or> hd tail = CHR ''+''"
  shows "parse_version s = Some v"
proof -
  let ?body = "show_version v" and ?core = "show_core (gv_core v)"
  obtain a b c where abc: "gv_core v = (a, b, c)" by (cases "gv_core v")
  have noplus: "CHR ''+'' \<notin> set ?body" using show_version_chars [OF assms(1)] by blast
  have nov: "strip_prefix ''v'' (?body @ tail) = None"
    using show_version_hd [of v] by (cases ?body) (auto simp: strip_prefix_def)
  have lead: "(case strip_prefix ''v'' (lead @ ?body @ tail) of Some t \<Rightarrow> t
      | None \<Rightarrow> lead @ ?body @ tail) = ?body @ tail"
    using assms(3) nov by (auto simp: strip_prefix_def)
  have cut: "hd (split_on CHR ''+'' (?body @ tail)) = ?body"
    using assms(4) noplus by (cases tail) (auto simp: split_on_append split_on_no_sep)
  have nodash: "CHR ''-'' \<notin> set ?core" using show_core_chars by fastforce
  have core: "next_part (split_on CHR ''.'' ?core) = Some (a, [show_u64 b, show_u64 c])"
    by (simp add: abc split_show_core)
  show ?thesis
  proof (cases "gv_pre v = []")
    case True
    then have body: "?body = ?core" by (simp add: show_version_core)
    have "split_once CHR ''-'' ?core = None" using nodash by (simp add: split_once_None_iff)
    then show ?thesis
      unfolding parse_version_def Let_def assms(2) lead cut unfolding body
      using core True abc by (simp add: parse_pre_def)
  next
    case False
    then have body: "?body = ?core @ CHR ''-'' # join_with ''.'' (gv_pre v)"
      by (simp add: show_version_core)
    have "split_once CHR ''-'' ?body = Some (?core, join_with ''.'' (gv_pre v))"
      unfolding body by (rule split_once_append [OF nodash])
    moreover have "parse_pre (Some (join_with ''.'' (gv_pre v))) = Some (gv_pre v)"
      using assms(1) False by (simp add: wf_version_def parse_pre_join)
    ultimately show ?thesis
      unfolding parse_version_def Let_def assms(2) lead cut using core abc by simp
  qed
qed

lemma trim_version:
  assumes "wf_version v" "lead = [] \<or> lead = ''v''"
  shows "trim_ws (lead @ show_version v) = lead @ show_version v"
    and "\<exists>b. trim_ws (lead @ show_version v @ CHR ''+'' # build) = lead @ show_version v @ CHR ''+'' # b"
proof -
  let ?s = "lead @ show_version v"
  have g: "?s \<noteq> []" "ascii_graphic (hd ?s)" "ascii_graphic (last ?s)"
    using show_version_hd [of v] show_version_chars [OF assms(1)] assms(2)
    by (auto simp: is_ascii_digit_graphic ascii_graphic_def)
  then show "trim_ws ?s = ?s" by (simp add: trim_ws_id)
  have "ws_at_start (?s @ CHR ''+'' # build) = None"
    using g by (intro ws_at_start_None) (metis hd_append2)
  then have "trim_ws (?s @ CHR ''+'' # build) = trim_end (?s @ CHR ''+'' # build)"
    by (simp add: trim_ws_def trim_start_id)
  moreover have "ascii_graphic (CHR ''+'')" by (simp add: ascii_graphic_def)
  ultimately show "\<exists>b. trim_ws (lead @ show_version v @ CHR ''+'' # build) =
      lead @ show_version v @ CHR ''+'' # b"
    using trim_end_keeps [of "CHR ''+''" ?s build] by simp
qed

text \<open>
  C30: a release version prints to text that parses back to it, also with the leading \<^verbatim>\<open>v\<close>
  a tag carries and with any build metadata after a \<^verbatim>\<open>+\<close>, which are ignored.
\<close>

theorem version_display_parse_roundtrip:
  assumes "wf_version v" "lead = [] \<or> lead = ''v''"
  shows "parse_version (lead @ show_version v) = Some v \<and>
    parse_version (lead @ show_version v @ CHR ''+'' # build) = Some v"
  using parse_body [OF assms(1), of "lead @ show_version v" lead "[]"]
    parse_body [OF assms(1), of "lead @ show_version v @ CHR ''+'' # build" lead]
    trim_version [OF assms] assms(2) by (metis append_Nil2 list.sel(1))


theorem version_display_parse_roundtrip_witness:
  "parse_version ''v1.0.0-rc.3+build.5'' =
     Some \<lparr>gv_core = (1, 0, 0), gv_pre = [''rc'', ''3'']\<rparr>"
proof -
  let ?v = "\<lparr>gv_core = (1, 0, 0), gv_pre = [''rc'', ''3'']\<rparr>"
  have wf: "wf_version ?v" by code_simp
  have s: "show_version ?v = ''1.0.0-rc.3''" by code_simp
  show ?thesis
    using version_display_parse_roundtrip [OF wf, of "''v''" "''build.5''"] unfolding s by simp
qed

section \<open>What the order and the refusal mean\<close>

text \<open>
  C29: the hand-written \<^verbatim>\<open>Ord\<close> is a total preorder: every version compares equal to itself,
  swapping the arguments reverses the verdict, and the verdicts are transitive.
\<close>

theorem version_cmp_total_preorder:
  "version_cmp a a = Equal \<and>
   version_cmp b a = reverse_ordering (version_cmp a b) \<and>
   (version_cmp a b \<noteq> Greater \<and> version_cmp b c \<noteq> Greater \<longrightarrow> version_cmp a c \<noteq> Greater)"
  using version_order.compare_refl version_order.compare_swap version_order.compare_trans by blast

theorem version_cmp_total_preorder_witness:
  "\<exists>a b c. parse_version ''0.1.0-beta.9'' = Some a \<and> parse_version ''0.1.0-beta.10'' = Some b \<and>
     parse_version ''0.1.0'' = Some c \<and> version_cmp a b = Less \<and> version_cmp b c = Less \<and>
     version_cmp a c \<noteq> Greater"
proof -
  let ?a = "\<lparr>gv_core = (0, 1, 0), gv_pre = [''beta'', ''9'']\<rparr>"
  let ?b = "\<lparr>gv_core = (0, 1, 0), gv_pre = [''beta'', ''10'']\<rparr>"
  let ?c = "\<lparr>gv_core = (0, 1, 0), gv_pre = []\<rparr>"
  have p: "parse_version ''0.1.0-beta.9'' = Some ?a" "parse_version ''0.1.0-beta.10'' = Some ?b"
    "parse_version ''0.1.0'' = Some ?c" by code_simp+
  have lt: "version_cmp ?a ?b = Less" "version_cmp ?b ?c = Less" by code_simp+
  then have "version_cmp ?a ?c \<noteq> Greater"
    using version_cmp_total_preorder [of ?a ?b ?c] by simp
  with p lt show ?thesis by blast
qed

text \<open>
  Two versions compare \<^verbatim>\<open>Equal\<close> exactly when their cores agree and their identifiers
  agree as numbers or byte strings; so \<^verbatim>\<open>Ord\<close> and the derived \<^verbatim>\<open>Eq\<close> disagree on
  \<^verbatim>\<open>1.0.0-rc.1\<close> and \<^verbatim>\<open>1.0.0-rc.01\<close>.
\<close>

theorem version_cmp_Equal_iff:
  "(version_cmp v w = Equal) =
     (gv_core v = gv_core w \<and> map ident_key_of (gv_pre v) = map ident_key_of (gv_pre w)) \<and>
   (\<exists>a b. parse_version ''1.0.0-rc.1'' = Some a \<and> parse_version ''1.0.0-rc.01'' = Some b \<and>
     version_cmp a b = Equal \<and> a \<noteq> b)"
proof -
  have "parse_version ''1.0.0-rc.1'' = Some \<lparr>gv_core = (1, 0, 0), gv_pre = [''rc'', ''1'']\<rparr> \<and>
    parse_version ''1.0.0-rc.01'' = Some \<lparr>gv_core = (1, 0, 0), gv_pre = [''rc'', ''01'']\<rparr> \<and>
    version_cmp \<lparr>gv_core = (1, 0, 0), gv_pre = [''rc'', ''1'']\<rparr>
      \<lparr>gv_core = (1, 0, 0), gv_pre = [''rc'', ''01'']\<rparr> = Equal"
    by code_simp
  then show ?thesis
    by (auto simp: version_cmp_key version_key_def)
qed

lemma parse_show_version: "wf_version v \<Longrightarrow> parse_version (show_version v) = Some v"
  using parse_body [of v "show_version v" "[]" "[]"] trim_version(1) [of v "[]"] by simp

text \<open>
  The releases before the split: every core below \<^verbatim>\<open>0.1.0\<close>, whatever its channel, but the bare
  \<^verbatim>\<open>0.0.0\<close> of an unreleased build; and the \<^verbatim>\<open>0.1.0\<close> pre-releases of exactly two parts, a listed
  channel and a number up to the channel's last build before the split.
\<close>

definition released_before_split :: "gateway_version \<Rightarrow> bool" where
  "released_before_split v =
     ((gv_core v < (0, 1, 0) \<and> v \<noteq> \<lparr>gv_core = (0, 0, 0), gv_pre = []\<rparr>) \<or>
      (gv_core v = (0, 1, 0) \<and>
       (\<exists>channel ident n last. gv_pre v = [channel, ident] \<and> parse_u64 ident = Some n \<and>
          (channel, last) \<in> {(''alpha'', 1), (''beta'', 59), (''canary'', 917)} \<and> n \<le> last)))"

text \<open>
  C28: a text is refused exactly when it parses to one of the releases before the split; any other
  text is admitted, one that does not parse among them. A well-formed version is refused by its
  printed form exactly when it is one of these releases itself.
\<close>

theorem overflow_split_refusal_iff:
  "(overflow_split_refusal version \<noteq> None \<longleftrightarrow>
      (\<exists>v. parse_version version = Some v \<and> released_before_split v)) \<and>
   (wf_version v \<longrightarrow> (overflow_split_refusal (show_version v) \<noteq> None \<longleftrightarrow> released_before_split v))"
proof -
  have chan: "(case gv_pre v of
        [channel, n] \<Rightarrow>
          list_ex (\<lambda>(c, last). c = channel \<and>
            (case parse_u64 n of Some n \<Rightarrow> n \<le> last | None \<Rightarrow> False)) last_before_overflow_split
      | _ \<Rightarrow> False) =
    (\<exists>channel ident n last. gv_pre v = [channel, ident] \<and> parse_u64 ident = Some n \<and>
       (channel, last) \<in> {(''alpha'', 1), (''beta'', 59), (''canary'', 917)} \<and> n \<le> last)" for v
    by (auto simp: last_before_overflow_split_def split: list.splits option.splits)
  have unreleased: "is_unreleased v \<longleftrightarrow> v = \<lparr>gv_core = (0, 0, 0), gv_pre = []\<rparr>" for v
    by (cases v) (simp add: is_unreleased_def)
  have refused: "overflow_split_refusal version \<noteq> None \<longleftrightarrow>
      (\<exists>v. parse_version version = Some v \<and> released_before_split v)" for version
  proof (cases "parse_version version")
    case (Some v)
    then show ?thesis
      using chan [of v] by (auto simp: overflow_split_refusal_def before_overflow_split_def unreleased
          released_before_split_def cmp_lin_def split: if_splits)
  qed (simp add: overflow_split_refusal_def before_overflow_split_def)
  show ?thesis
    using refused [of version] refused [of "show_version v"] parse_show_version [of v] by auto
qed

theorem overflow_split_refusal_iff_witness:
  "overflow_split_refusal ''0.1.0-beta.59'' \<noteq> None \<and>
   overflow_split_refusal ''0.1.0-beta.60'' = None"
proof -
  let ?v = "\<lambda>n. \<lparr>gv_core = (0, 1, 0), gv_pre = [''beta'', n]\<rparr>"
  have wf: "wf_version (?v ''59'')" "wf_version (?v ''60'')" by code_simp+
  have s: "show_version (?v ''59'') = ''0.1.0-beta.59''" "show_version (?v ''60'') = ''0.1.0-beta.60''"
    by code_simp+
  have n: "parse_u64 ''59'' = Some 59" "parse_u64 ''60'' = Some 60" by code_simp+
  show ?thesis
    using overflow_split_refusal_iff [THEN conjunct2, THEN mp, OF wf(1)]
      overflow_split_refusal_iff [THEN conjunct2, THEN mp, OF wf(2)]
    unfolding s by (simp add: n released_before_split_def)
qed

text \<open>
  \<^verbatim>\<open>at_least\<close> is monotone in the floor, and a release floor admits exactly the
  later cores and the release itself: no pre-release of the floor's core passes.
\<close>

theorem at_least_floor:
  assumes "wf_version v" "gv_pre floor = []"
  shows "(at_least (show_version v) floor =
      (gv_core floor < gv_core v \<or> gv_core v = gv_core floor \<and> gv_pre v = [])) \<and>
    (at_least s f \<and> version_cmp f g \<noteq> Less \<longrightarrow> at_least s g)"
proof
  have "version_cmp v floor \<noteq> Less \<longleftrightarrow>
      gv_core floor < gv_core v \<or> gv_core v = gv_core floor \<and> gv_pre v = []"
    using assms(2)
    by (cases "gv_pre v = []") (auto simp: version_cmp_def then_with_def pre_cmp_def cmp_lin_def)
  then show "at_least (show_version v) floor =
      (gv_core floor < gv_core v \<or> gv_core v = gv_core floor \<and> gv_pre v = [])"
    by (simp add: at_least_def parse_show_version [OF assms(1)])
  show "at_least s f \<and> version_cmp f g \<noteq> Less \<longrightarrow> at_least s g"
    using version_order.compare_ge_trans by (auto simp: at_least_def split: option.splits)
qed

theorem at_least_floor_witness:
  "\<not> at_least ''1.0.0-rc.9'' \<lparr>gv_core = (1, 0, 0), gv_pre = []\<rparr> \<and>
   at_least ''1.0.0-rc.9'' \<lparr>gv_core = (0, 9, 0), gv_pre = []\<rparr>"
proof -
  let ?v = "\<lparr>gv_core = (1, 0, 0), gv_pre = [''rc'', ''9'']\<rparr>"
  have wf: "wf_version ?v" and s: "show_version ?v = ''1.0.0-rc.9''" by code_simp+
  have "\<not> at_least ''1.0.0-rc.9'' \<lparr>gv_core = (1, 0, 0), gv_pre = []\<rparr>"
    using at_least_floor [OF wf, of "\<lparr>gv_core = (1, 0, 0), gv_pre = []\<rparr>"] unfolding s by simp
  moreover have "at_least ''1.0.0-rc.9'' \<lparr>gv_core = (0, 9, 0), gv_pre = []\<rparr>"
    using at_least_floor [OF wf, of "\<lparr>gv_core = (0, 9, 0), gv_pre = []\<rparr>"] unfolding s by simp
  ultimately show ?thesis ..
qed

end
