(* ===== verification/Json.thy ===== *)
theory Json imports Prelude begin

text \<open>
  The value type a parsed configuration has, \<^verbatim>\<open>serde_json::Value\<close>, with the accessors the
  guards call. An object is an association list in the map's iteration order (its keys are
  distinct in every value a parser returns, \<^verbatim>\<open>wf_json\<close>); an integer keeps serde_json's
  split into \<^verbatim>\<open>u64\<close> and negative \<^verbatim>\<open>i64\<close>, and a float its 64 bits. An object the code builds
  has its members in the order the code writes them, which has no meaning in JSON.
\<close>

datatype json_number = PosInt u64 | NegInt "64 word" | Float "64 word"

datatype json =
    JNull
  | JBool bool
  | JNumber json_number
  | JString string
  | JArray "json list"
  | JObject "(string \<times> json) list"

named_theorems json_simps \<open>characteristic facts of the JSON accessors\<close>

section \<open>Accessors\<close>

fun json_get :: "json \<Rightarrow> string \<Rightarrow> json option" where
  "json_get (JObject m) k = map_of m k"
| "json_get _ _ = None"

fun as_str :: "json \<Rightarrow> string option" where
  "as_str (JString s) = Some s"
| "as_str _ = None"

fun as_bool :: "json \<Rightarrow> bool option" where
  "as_bool (JBool b) = Some b"
| "as_bool _ = None"

fun as_array :: "json \<Rightarrow> json list option" where
  "as_array (JArray xs) = Some xs"
| "as_array _ = None"

fun as_object :: "json \<Rightarrow> (string \<times> json) list option" where
  "as_object (JObject m) = Some m"
| "as_object _ = None"

fun is_object :: "json \<Rightarrow> bool" where
  "is_object (JObject _) = True"
| "is_object _ = False"

definition is_null :: "json \<Rightarrow> bool" where
  "is_null v = (v = JNull)"

text \<open>
  \<^verbatim>\<open>Value::pointer\<close>, on the reference tokens of the pointer (\<^verbatim>\<open>/a/b\<close> is
  \<^verbatim>\<open>[a, b]\<close>). A token selects a key of an object, or an element of an array when it is a
  decimal index without a sign or a leading zero.
\<close>

definition parse_index :: "string \<Rightarrow> nat option" where
  "parse_index s =
     (if prefix ''+'' s \<or> (prefix ''0'' s \<and> length s \<noteq> 1) then None
      else map_option unat (parse_u64 s))"

definition pointer_step :: "json \<Rightarrow> string \<Rightarrow> json option" where
  "pointer_step v token =
     (case v of
        JObject m \<Rightarrow> map_of m token
      | JArray xs \<Rightarrow>
          (case parse_index token of
             Some i \<Rightarrow> if i < length xs then Some (xs ! i) else None
           | None \<Rightarrow> None)
      | _ \<Rightarrow> None)"

fun pointer :: "string list \<Rightarrow> json \<Rightarrow> json option" where
  "pointer [] v = Some v"
| "pointer (t # ts) v = (case pointer_step v t of None \<Rightarrow> None | Some w \<Rightarrow> pointer ts w)"

section \<open>Leaves and well-formedness\<close>

text \<open>The string values of a document, in order: array elements and object values.\<close>

fun leaf_strings :: "json \<Rightarrow> string list" where
  "leaf_strings (JString s) = [s]"
| "leaf_strings (JArray xs) = concat (map leaf_strings xs)"
| "leaf_strings (JObject m) = concat (map (\<lambda>(k, v). leaf_strings v) m)"
| "leaf_strings _ = []"

fun wf_json :: "json \<Rightarrow> bool" where
  "wf_json (JArray xs) = list_all wf_json xs"
| "wf_json (JObject m) = (distinct (map fst m) \<and> list_all (\<lambda>(k, v). wf_json v) m)"
| "wf_json _ = True"

lemma as_str_Some_iff [json_simps]: "as_str v = Some s \<longleftrightarrow> v = JString s"
  by (cases v) auto

lemma as_bool_Some_iff [json_simps]: "as_bool v = Some b \<longleftrightarrow> v = JBool b"
  by (cases v) auto

lemma as_array_Some_iff [json_simps]: "as_array v = Some xs \<longleftrightarrow> v = JArray xs"
  by (cases v) auto

lemma as_object_Some_iff [json_simps]: "as_object v = Some m \<longleftrightarrow> v = JObject m"
  by (cases v) auto

lemma is_object_iff [json_simps]: "is_object v \<longleftrightarrow> (\<exists>m. v = JObject m)"
  by (cases v) auto

lemma json_get_Some: "json_get v k = Some w \<longleftrightarrow> (\<exists>m. v = JObject m \<and> map_of m k = Some w)"
  by (cases v) auto

lemma pointer_step_object [simp]: "pointer_step (JObject m) t = map_of m t"
  by (simp add: pointer_step_def)

lemma pointer_append: "pointer (p @ q) v = (case pointer p v of None \<Rightarrow> None | Some w \<Rightarrow> pointer q w)"
  by (induction p arbitrary: v) (auto split: option.splits)

text \<open>A value a pointer reaches is part of the document, so its leaves are leaves.\<close>

lemma leaf_strings_step:
  "pointer_step v t = Some w \<Longrightarrow> set (leaf_strings w) \<subseteq> set (leaf_strings v)"
  by (auto simp: pointer_step_def split: json.splits option.splits if_splits
        dest!: map_of_SomeD) (fastforce dest: nth_mem)+

lemma leaf_strings_pointer:
  "pointer p v = Some w \<Longrightarrow> set (leaf_strings w) \<subseteq> set (leaf_strings v)"
  by (induction p arbitrary: v) (auto split: option.splits dest: leaf_strings_step)

end
