(* ===== verification/SecretScan.thy ===== *)
theory SecretScan imports Json "HOL-Library.Multiset" "HOL-Library.List_Lexorder" "HOL-Library.Product_Lexorder" begin

text \<open>
  \<^verbatim>\<open>src/src/publish_guard.rs\<close>, the scan of one leaf string: secret-key grammar, secret
  digest, interpolation tokens, credential tokens and host-reading URIs. The closures of the
  code push onto one violation list; the model returns the extended list.
\<close>

record violation =
  kind :: string
  snippet :: string

section \<open>Secret keys and their digest\<close>

definition SECRET_KEY_MAX_LEN :: nat where
  "SECRET_KEY_MAX_LEN = 64"

definition is_secret_key :: "string \<Rightarrow> bool" where
  "is_secret_key name =
     (case name of
        [] \<Rightarrow> False
      | first # bytes \<Rightarrow>
          length name \<le> SECRET_KEY_MAX_LEN
          \<and> (is_ascii_alphabetic first \<or> first = CHR ''_'')
          \<and> list_all (\<lambda>b. is_ascii_alphanumeric b \<or> b = CHR ''_'') bytes)"

text \<open>
  \<^verbatim>\<open>secrets_digest\<close>. The hash and the hex encoder are library code: parameters.
  \<^verbatim>\<open>digest_input\<close> is what the successive \<^verbatim>\<open>update\<close> calls feed the hasher.
\<close>

definition digest_input :: "(string \<times> string) list \<Rightarrow> string" where
  "digest_input entries = concat (map (\<lambda>(name, value). name @ ''='' @ value @ [CHR 0x0A]) entries)"

definition secrets_digest ::
    "(string \<Rightarrow> string) \<Rightarrow> (string \<Rightarrow> string) \<Rightarrow> (string \<times> string) list \<Rightarrow> string" where
  "secrets_digest sha256 hex_encode secrets =
     (if secrets = [] then []
      else hex_encode (sha256 (digest_input (sort secrets))))"

section \<open>Constants\<close>

definition ENV_OPENERS :: "string list" where
  "ENV_OPENERS = [''${env.'']"

definition SECRET_OPENER :: string where
  "SECRET_OPENER = ''${secret.''"

definition CRED_OPENER :: string where
  "CRED_OPENER = ''${cred://''"

definition HOST_SECRET_SCHEMES :: "string list" where
  "HOST_SECRET_SCHEMES = [''env://'', ''file://'']"

section \<open>Truncation\<close>

text \<open>The loop \<^verbatim>\<open>while !s.is_char_boundary(end) { end -= 1 }\<close>; offset 0 is a boundary.\<close>

fun boundary_below :: "string \<Rightarrow> nat \<Rightarrow> nat" where
  "boundary_below s 0 = 0"
| "boundary_below s (Suc n) =
     (if is_char_boundary s (Suc n) then Suc n else boundary_below s n)"

definition truncate_str :: "string \<Rightarrow> string" where
  "truncate_str s =
     (if length s \<le> 80 then s
      else take (boundary_below s 80) s @ ellipsis)"

section \<open>Scanners\<close>

function tokens_from :: "string \<Rightarrow> string \<Rightarrow> char \<Rightarrow> string list" where
  "tokens_from rest opener close =
     (case find_str opener rest of
        None \<Rightarrow> []
      | Some start \<Rightarrow>
          (let after = drop (start + length opener) rest
           in case find_char close after of
                None \<Rightarrow> []
              | Some e \<Rightarrow>
                  truncate_str (take (length opener + e + 1) (drop start rest))
                  # tokens_from (drop (e + 1) after) opener close))"
  by pat_completeness auto
termination
  by (relation "measure (\<lambda>(rest, opener, close). length rest)") (auto dest: find_char_SomeD(3))

declare tokens_from.simps [simp del]

text \<open>The inner part starts after \<^verbatim>\<open>${\<close>, two bytes into the opener.\<close>

function cred_token_inners :: "string \<Rightarrow> string list" where
  "cred_token_inners rest =
     (case find_str CRED_OPENER rest of
        None \<Rightarrow> []
      | Some open_at \<Rightarrow>
          (let after = drop (open_at + 2) rest
           in case find_char CHR ''}'' after of
                None \<Rightarrow> []
              | Some close \<Rightarrow> take close after # cred_token_inners (drop (close + 1) after)))"
  by pat_completeness auto
termination
  by (relation "measure length") (auto dest: find_char_SomeD(3))

declare cred_token_inners.simps [simp del]

definition identifier_byte :: "char \<Rightarrow> bool" where
  "identifier_byte c =
     (is_ascii_alphanumeric c \<or> c = CHR ''-'' \<or> c = CHR ''_'' \<or> c = CHR ''.'')"

text \<open>
  Offsets of \<^verbatim>\<open>scheme\<close> at a value boundary, from offset \<^verbatim>\<open>at\<close> on. The character before
  an offset is an identifier character exactly when the byte before it is. The code calls it
  with the two constants above, which are not empty; with an empty scheme its loop would not
  advance, and the guard on \<^verbatim>\<open>scheme\<close> keeps the model total there.
\<close>

function boundary_matches :: "string \<Rightarrow> string \<Rightarrow> nat \<Rightarrow> nat list" where
  "boundary_matches raw scheme at =
     (if scheme = [] \<or> at > length raw then []
      else (case find_str scheme (drop at raw) of
        None \<Rightarrow> []
      | Some rel \<Rightarrow>
          (let idx = at + rel;
               boundary = (idx = 0 \<or> \<not> identifier_byte (raw ! (idx - 1)))
           in (if boundary then [idx] else [])
              @ boundary_matches raw scheme (idx + length scheme))))"
  by pat_completeness auto
termination
  by (relation "measure (\<lambda>(raw, scheme, at). Suc (length raw) - at)")
    (auto simp flip: length_greater_0_conv)

declare boundary_matches.simps [simp del]

definition scheme_boundary_matches :: "string \<Rightarrow> string \<Rightarrow> nat list" where
  "scheme_boundary_matches raw scheme = boundary_matches raw scheme 0"

definition is_well_formed_cred :: "string \<Rightarrow> bool" where
  "is_well_formed_cred inner =
     (case strip_prefix ''cred://'' inner of
        None \<Rightarrow> False
      | Some path \<Rightarrow>
          (case (case split_once CHR ''#'' path of
                   Some (p, frag) \<Rightarrow> (p, frag \<noteq> [])
                 | None \<Rightarrow> (path, True)) of
             (path, part_ok) \<Rightarrow>
               if \<not> part_ok then False
               else (case split_once CHR ''/'' path of
                       Some (plugin, target) \<Rightarrow> plugin \<noteq> [] \<and> target \<noteq> []
                     | None \<Rightarrow> False)))"

section \<open>The checks of one leaf\<close>

text \<open>The end of a URI: the first whitespace, quote or closing brace.\<close>

fun uri_end :: "string \<Rightarrow> nat option" where
  "uri_end [] = None"
| "uri_end (c # s) =
     (if ws_at_start (c # s) \<noteq> None \<or> c = CHR 0x22 \<or> c = CHR 0x27 \<or> c = CHR ''}''
      then Some 0 else map_option Suc (uri_end s))"

definition secret_token_name :: "string \<Rightarrow> string" where
  "secret_token_name snip =
     (case Option.bind (strip_prefix SECRET_OPENER snip) (strip_suffix ''}'') of
        Some name \<Rightarrow> name | None \<Rightarrow> [])"

definition env_violations :: "string \<Rightarrow> violation list" where
  "env_violations value =
     concat (map (\<lambda>opener.
       map (\<lambda>snip. \<lparr>kind = ''host_env_interpolation'', snippet = snip\<rparr>)
         (tokens_from value opener CHR ''}'')) ENV_OPENERS)"

definition secret_violations :: "string \<Rightarrow> string set \<Rightarrow> violation list" where
  "secret_violations value secret_keys =
     map (\<lambda>snip. \<lparr>kind = ''unregistered_secret'', snippet = snip\<rparr>)
       (filter (\<lambda>snip. \<not> (is_secret_key (secret_token_name snip)
                           \<and> secret_token_name snip \<in> secret_keys))
         (tokens_from value SECRET_OPENER CHR ''}''))"

definition cred_violations :: "string \<Rightarrow> violation list" where
  "cred_violations value =
     map (\<lambda>inner. \<lparr>kind = ''malformed_cred_token'', snippet = ''${'' @ inner @ ''}''\<rparr>)
       (filter (\<lambda>inner. \<not> is_well_formed_cred inner) (cred_token_inners value))"

definition host_uri_violations :: "string \<Rightarrow> violation list" where
  "host_uri_violations value =
     concat (map (\<lambda>scheme.
       map (\<lambda>idx. \<lparr>kind = ''host_secret_uri'',
                    snippet = truncate_str (case uri_end (drop idx value) of
                                          Some e \<Rightarrow> take e (drop idx value)
                                        | None \<Rightarrow> drop idx value)\<rparr>)
         (scheme_boundary_matches value scheme)) HOST_SECRET_SCHEMES)"

definition check_leaf_value :: "string \<Rightarrow> string set \<Rightarrow> violation list \<Rightarrow> violation list" where
  "check_leaf_value value secret_keys violations =
     violations @ env_violations value @ secret_violations value secret_keys
     @ cred_violations value @ host_uri_violations value"


section \<open>What the token scanner finds\<close>

lemma tokens_from_step:
  assumes "find_str opener s = Some i" "find_char close (drop (i + length opener) s) = Some e"
  defines "u \<equiv> take i s" and "b \<equiv> take e (drop (i + length opener) s)"
    and "r \<equiv> drop (Suc e) (drop (i + length opener) s)"
  shows "s = u @ opener @ b @ close # r" "close \<notin> set b"
    "tokens_from s opener close = truncate_str (opener @ b @ [close]) # tokens_from r opener close"
proof -
  let ?v = "drop (i + length opener) s"
  have v: "?v = b @ close # r" and c: "close \<notin> set b"
    using find_char_SomeD [OF assms(2)] by (simp_all add: b_def r_def)
  have s: "s = u @ opener @ ?v"
    using find_str_first(1) [OF assms(1)] by (simp add: u_def)
  with v show "s = u @ opener @ b @ close # r" by simp
  show "close \<notin> set b" by (rule c)
  have len: "length b = e" using find_char_SomeD(3) [OF assms(2)] by (simp add: b_def)
  have i: "i \<le> length s" using find_str_SomeD [OF assms(1)] by simp
  have "drop i s = opener @ b @ close # r"
    using s v i by (metis append_take_drop_id same_append_eq u_def)
  then have "take (length opener + e + 1) (drop i s) = opener @ b @ [close]"
    by (simp add: len)
  with assms(1,2) show
    "tokens_from s opener close = truncate_str (opener @ b @ [close]) # tokens_from r opener close"
    by (subst tokens_from.simps) (simp add: r_def Let_def)
qed

text \<open>A closed token: the opener, a body without the closing character, and that character.\<close>

definition has_token :: "string \<Rightarrow> char \<Rightarrow> string \<Rightarrow> string \<Rightarrow> bool" where
  "has_token opener close s body =
     (close \<notin> set body \<and> (\<exists>a c. s = a @ opener @ body @ close # c))"

lemma tokens_from_Nil_iff:
  "tokens_from s opener close = [] \<longleftrightarrow> (\<nexists>body. has_token opener close s body)"
proof (cases "find_str opener s")
  case None
  then have "\<not> has_token opener close s body" for body
    by (auto simp: has_token_def)
  with None show ?thesis by (simp add: tokens_from.simps [of s])
next
  case (Some i)
  show ?thesis
  proof (cases "find_char close (drop (i + length opener) s)")
    case None
    have False if "has_token opener close s body" for body
    proof -
      from that obtain a c where ac: "s = a @ opener @ body @ close # c"
        by (auto simp: has_token_def)
      then have "i \<le> length a" by (rule find_str_first(2) [OF Some])
      then have "suffix (close # c) (drop (i + length opener) s)"
        unfolding ac by (auto simp: suffix_def)
      then have "close \<in> set (drop (i + length opener) s)" by (auto dest: set_mono_suffix)
      with None show False by (simp add: find_char_None_iff)
    qed
    with Some None show ?thesis by (auto simp: tokens_from.simps [of s])
  next
    case e: (Some e)
    from tokens_from_step [OF Some e] show ?thesis by (auto simp: has_token_def)
  qed
qed

text \<open>
  A token of a string is the first one the scan finds, or lies in the rest, or starts inside the
  first one: an opener cannot overlap the opener of the first.
\<close>

lemma token_split:
  assumes opener: "border_free opener" "opener \<noteq> []" "close \<notin> set opener"
    and s: "s = u @ opener @ b @ close # r" and b: "close \<notin> set b"
    and first: "\<And>a w. s = a @ opener @ w \<Longrightarrow> length u \<le> length a"
    and token: "has_token opener close s body"
  shows "body = b \<or> has_token opener close r body \<or> hd opener \<in> set b"
proof -
  from token obtain a c where a: "s = a @ opener @ body @ close # c" and nb: "close \<notin> set body"
    by (auto simp: has_token_def)
  from first [OF a] obtain w where w: "a = u @ w"
    using s a by (metis append_eq_append_conv_if append_take_drop_id)
  have eq: "opener @ b @ close # r = w @ opener @ body @ close # c"
    using s a w by simp
  show ?thesis
  proof (cases "w = []")
    case True
    with eq have "b @ close # r = body @ close # c" by simp
    with b nb show ?thesis by (simp add: first_split_eq)
  next
    case False
    have "prefix opener (opener @ b @ close # r)" "prefix opener (drop (length w) (opener @ b @ close # r))"
      by simp (simp add: eq)
    with opener(1) False have "length opener \<le> length w"
      using border_free_no_overlap by blast
    then obtain w' where w': "w = opener @ w'"
      using eq by (metis append_eq_append_conv_if append_take_drop_id)
    with eq have eq': "b @ close # r = w' @ opener @ body @ close # c" by simp
    show ?thesis
    proof (cases "close \<in> set w'")
      case True
      then obtain x y where "w' = x @ close # y" "close \<notin> set x"
        by (meson split_list_first)
      with eq' b have "r = y @ opener @ body @ close # c" by (simp add: first_split_eq)
      with nb show ?thesis by (auto simp: has_token_def)
    next
      case False
      then have "b = w' @ opener @ body"
        using eq' b nb opener(3) first_split_eq [of close b "w' @ opener @ body" r c] by simp
      then show ?thesis using opener(2) by simp
    qed
  qed
qed

text \<open>
  When every acceptable body is free of the opener's first byte, all scanned tokens are
  acceptable exactly when all closed tokens of the string are, nested ones included.
\<close>

lemma tokens_all_bodies:
  assumes opener: "border_free opener" "opener \<noteq> []" "close \<notin> set opener"
    and good: "\<And>body. good body \<Longrightarrow> hd opener \<notin> set body"
    and ok: "\<And>body. close \<notin> set body \<Longrightarrow> ok (truncate_str (opener @ body @ [close])) = good body"
  shows "list_all ok (tokens_from s opener close) \<longleftrightarrow>
    (\<forall>body. has_token opener close s body \<longrightarrow> good body)"
proof (induction "length s" arbitrary: s rule: less_induct)
  case less
  show ?case
  proof (cases "tokens_from s opener close = []")
    case True
    then have "\<nexists>body. has_token opener close s body" unfolding tokens_from_Nil_iff .
    with True show ?thesis by simp
  next
    case False
    then obtain i e where ie: "find_str opener s = Some i"
      "find_char close (drop (i + length opener) s) = Some e"
      by (auto simp: tokens_from.simps [of s] Let_def split: option.splits)
    obtain u b r where s: "s = u @ opener @ b @ close # r" and b: "close \<notin> set b"
      and t: "tokens_from s opener close = truncate_str (opener @ b @ [close]) # tokens_from r opener close"
      and u: "u = take i s"
      using tokens_from_step [OF ie] by blast
    have "length r < length s" unfolding s by simp
    note IH = less [OF this]
    have first: "length u \<le> length a" if "s = a @ opener @ w" for a w
      using find_str_first(2) [OF ie(1) that] find_str_SomeD [OF ie(1)] by (simp add: u)
    have "good body" if "has_token opener close s body" "good b"
      "\<forall>body. has_token opener close r body \<longrightarrow> good body" for body
      using token_split [OF opener s b _ that(1)] first that(2,3) good by blast
    moreover have "has_token opener close s body" if "has_token opener close r body" for body
      using that unfolding has_token_def s by (metis append_Cons append_assoc)
    moreover have "has_token opener close s b" unfolding has_token_def s using b by auto
    ultimately show ?thesis using IH ok [OF b] by (auto simp: t)
  qed
qed

section \<open>Truncation\<close>

lemma boundary_below_le: "boundary_below s n \<le> n"
  by (induction n) auto

lemma boundary_below_boundary: "is_char_boundary s (boundary_below s n)"
  by (induction n) (auto simp: is_char_boundary_def)

lemma boundary_below_greatest:
  "m \<le> n \<Longrightarrow> is_char_boundary s m \<Longrightarrow> m \<le> boundary_below s n"
  by (induction n) (auto simp: le_Suc_eq)

lemma length_truncate_str: "length (truncate_str s) \<le> 83"
  using boundary_below_le [of s 80] by (auto simp: truncate_str_def ellipsis_def)


section \<open>What the URI scanner finds\<close>

definition boundary_occurrence :: "string \<Rightarrow> string \<Rightarrow> nat \<Rightarrow> bool" where
  "boundary_occurrence raw scheme i =
     (i \<le> length raw \<and> prefix scheme (drop i raw)
      \<and> (i = 0 \<or> \<not> identifier_byte (raw ! (i - 1))))"

lemma occurrence_after:
  assumes "find_str scheme (drop at raw) = Some rel" "border_free scheme"
    and "at \<le> i" "i \<le> length raw" "prefix scheme (drop i raw)"
  shows "i = at + rel \<or> at + rel + length scheme \<le> i"
proof -
  from assms(3) obtain j where j: "i = at + j" by (auto simp: le_iff_add)
  have "\<not> j < rel"
    using find_str_SomeD [OF assms(1)] assms(5) by (auto simp: j add.commute)
  then obtain k where k: "j = rel + k" by (auto simp: not_less le_iff_add)
  have "prefix scheme (drop (at + rel) raw)"
    using find_str_SomeD [OF assms(1)] by (simp add: add.commute)
  moreover have "prefix scheme (drop k (drop (at + rel) raw))"
    using assms(5) by (simp add: j k add.commute add.left_commute)
  ultimately have "k = 0 \<or> length scheme \<le> k"
    using border_free_no_overlap [OF assms(2)] by blast
  with j k show ?thesis by auto
qed

lemma boundary_matches_set:
  assumes "border_free scheme" "scheme \<noteq> []"
  shows "set (boundary_matches raw scheme at) = {i. at \<le> i \<and> boundary_occurrence raw scheme i}"
  using assms
proof (induction raw scheme at rule: boundary_matches.induct)
  case (1 raw scheme at)
  show ?case
  proof (cases "at > length raw \<or> find_str scheme (drop at raw) = None")
    case True
    have "\<not> boundary_occurrence raw scheme i" if "at \<le> i" for i
    proof
      assume o: "boundary_occurrence raw scheme i"
      then have "at \<le> length raw" using that by (auto simp: boundary_occurrence_def)
      with True have none: "find_str scheme (drop at raw) = None" by simp
      have "i - at \<le> length (drop at raw)" "prefix scheme (drop (i - at) (drop at raw))"
        using o that by (auto simp: boundary_occurrence_def)
      with none show False unfolding find_str_None_iff by blast
    qed
    with True show ?thesis by (auto simp: boundary_matches.simps [of raw])
  next
    case False
    then obtain rel where rel: "find_str scheme (drop at raw) = Some rel" and at: "at \<le> length raw"
      by auto
    let ?idx = "at + rel" and ?rest = "boundary_matches raw scheme (at + rel + length scheme)"
    have idx: "?idx \<le> length raw" "prefix scheme (drop ?idx raw)"
      using find_str_SomeD [OF rel] at by (auto simp: add.commute)
    have rest: "set ?rest = {i. ?idx + length scheme \<le> i \<and> boundary_occurrence raw scheme i}"
      using "1.IH" [OF _ rel refl refl] at "1.prems" by simp
    have eq: "boundary_matches raw scheme at =
        (if ?idx = 0 \<or> \<not> identifier_byte (raw ! (?idx - 1)) then [?idx] else []) @ ?rest"
      using at rel "1.prems" by (subst boundary_matches.simps) (simp add: Let_def)
    have "at \<le> i \<and> boundary_occurrence raw scheme i \<longleftrightarrow>
        i = ?idx \<and> (?idx = 0 \<or> \<not> identifier_byte (raw ! (?idx - 1))) \<or>
        ?idx + length scheme \<le> i \<and> boundary_occurrence raw scheme i" for i
      using idx occurrence_after [OF rel "1.prems"(1), of i] by (auto simp: boundary_occurrence_def)
    then show ?thesis unfolding eq set_append rest by auto
  qed
qed

lemma scheme_boundary_matches_Nil_iff:
  assumes "border_free scheme" "scheme \<noteq> []"
  shows "scheme_boundary_matches raw scheme = [] \<longleftrightarrow>
    (\<forall>a c. raw = a @ scheme @ c \<longrightarrow> a \<noteq> [] \<and> identifier_byte (last a))"
proof -
  have "boundary_occurrence raw scheme i \<longleftrightarrow>
      (\<exists>a c. raw = a @ scheme @ c \<and> length a = i \<and> (a = [] \<or> \<not> identifier_byte (last a)))" for i
  proof
    assume o: "boundary_occurrence raw scheme i"
    then obtain c where "drop i raw = scheme @ c" by (auto simp: boundary_occurrence_def prefix_def)
    then have "raw = take i raw @ scheme @ c" by (metis append_take_drop_id)
    with o show "\<exists>a c. raw = a @ scheme @ c \<and> length a = i \<and> (a = [] \<or> \<not> identifier_byte (last a))"
      by (intro exI [of _ "take i raw"] exI [of _ c])
        (auto simp: boundary_occurrence_def last_conv_nth)
  qed (auto simp: boundary_occurrence_def last_conv_nth nth_append)
  then have "(\<exists>i. boundary_occurrence raw scheme i) \<longleftrightarrow>
      (\<exists>a c. raw = a @ scheme @ c \<and> (a = [] \<or> \<not> identifier_byte (last a)))"
    by blast
  moreover have "scheme_boundary_matches raw scheme = [] \<longleftrightarrow> \<not> (\<exists>i. boundary_occurrence raw scheme i)"
    using boundary_matches_set [OF assms, of raw 0]
    by (auto simp: scheme_boundary_matches_def simp flip: set_empty)
  ultimately show ?thesis by blast
qed

section \<open>A leaf the guard accepts\<close>

definition reads_host_uri :: "string \<Rightarrow> bool" where
  "reads_host_uri value =
     (\<exists>scheme \<in> set HOST_SECRET_SCHEMES. \<exists>a c.
        value = a @ scheme @ c \<and> (a = [] \<or> \<not> identifier_byte (last a)))"

definition leaf_clean :: "string \<Rightarrow> string set \<Rightarrow> bool" where
  "leaf_clean value secret_keys =
     ((\<nexists>body. has_token ''${env.'' CHR ''}'' value body) \<and>
      (\<forall>name. has_token ''${secret.'' CHR ''}'' value name \<longrightarrow>
         is_secret_key name \<and> name \<in> secret_keys) \<and>
      list_all is_well_formed_cred (cred_token_inners value) \<and>
      \<not> reads_host_uri value)"

lemma openers_border_free:
  "border_free ''${env.''" "border_free ''${secret.''" "border_free ''env://''" "border_free ''file://''"
  by code_simp+

lemma is_secret_key_chars:
  "is_secret_key name \<Longrightarrow> c \<in> set name \<Longrightarrow> is_ascii_alphanumeric c \<or> c = CHR ''_''"
  by (auto simp: is_secret_key_def is_ascii_alphanumeric_def list_all_iff split: list.splits)

lemma secret_token_name_truncate:
  assumes "CHR ''}'' \<notin> set body"
  shows "is_secret_key (secret_token_name (truncate_str (SECRET_OPENER @ body @ ''}''))) \<and>
      secret_token_name (truncate_str (SECRET_OPENER @ body @ ''}'')) \<in> keys \<longleftrightarrow>
    is_secret_key body \<and> body \<in> keys"
proof (cases "length (SECRET_OPENER @ body @ ''}'') \<le> 80")
  case True
  then have t: "truncate_str (SECRET_OPENER @ body @ ''}'') = SECRET_OPENER @ body @ ''}''"
    by (simp add: truncate_str_def)
  show ?thesis unfolding t by (simp add: secret_token_name_def)
next
  case False
  then have "\<not> is_secret_key body"
    by (auto simp: is_secret_key_def SECRET_KEY_MAX_LEN_def SECRET_OPENER_def split: list.splits)
  moreover have "secret_token_name (truncate_str (SECRET_OPENER @ body @ ''}'')) = []"
  proof -
    have "strip_suffix ''}'' t = None" if "strip_prefix SECRET_OPENER
        (take (boundary_below (SECRET_OPENER @ body @ ''}'') 80) (SECRET_OPENER @ body @ ''}'')
          @ ellipsis) = Some t" for t
    proof -
      from that have eq: "take (boundary_below (SECRET_OPENER @ body @ ''}'') 80)
          (SECRET_OPENER @ body @ ''}'') @ ellipsis = SECRET_OPENER @ t"
        by (simp only: strip_prefix_Some_iff)
      have "last (SECRET_OPENER @ t) \<noteq> CHR ''}''" unfolding eq [symmetric] by (simp add: ellipsis_def)
      then show ?thesis
        by (cases t rule: rev_cases) (auto simp: strip_suffix_def suffix_def)
    qed
    with False show ?thesis
      by (auto simp: secret_token_name_def truncate_str_def split: Option.bind_split option.splits)
  qed
  ultimately show ?thesis by (simp add: is_secret_key_def)
qed

lemma env_violations_Nil_iff:
  "env_violations value = [] \<longleftrightarrow> (\<nexists>body. has_token ''${env.'' CHR ''}'' value body)"
  by (simp add: env_violations_def ENV_OPENERS_def tokens_from_Nil_iff)

lemma secret_violations_Nil_iff:
  "secret_violations value keys = [] \<longleftrightarrow>
    (\<forall>name. has_token ''${secret.'' CHR ''}'' value name \<longrightarrow> is_secret_key name \<and> name \<in> keys)"
proof -
  let ?ok = "\<lambda>snip. is_secret_key (secret_token_name snip) \<and> secret_token_name snip \<in> keys"
  have "secret_violations value keys = [] \<longleftrightarrow> list_all ?ok (tokens_from value SECRET_OPENER CHR ''}'')"
    by (simp add: secret_violations_def filter_empty_conv list_all_iff)
  also have "\<dots> \<longleftrightarrow> (\<forall>name. has_token SECRET_OPENER CHR ''}'' value name \<longrightarrow>
      is_secret_key name \<and> name \<in> keys)"
  proof (rule tokens_all_bodies)
    show "border_free SECRET_OPENER" by (simp add: SECRET_OPENER_def openers_border_free)
    show "SECRET_OPENER \<noteq> []" "CHR ''}'' \<notin> set SECRET_OPENER" by (simp_all add: SECRET_OPENER_def)
    show "hd SECRET_OPENER \<notin> set body" if "is_secret_key body \<and> body \<in> keys" for body
      using is_secret_key_chars [of body "CHR ''$''"] that
      by (auto simp: SECRET_OPENER_def is_ascii_alphanumeric_def is_ascii_alphabetic_def is_ascii_digit_def)
    show "?ok (truncate_str (SECRET_OPENER @ body @ ''}'')) = (is_secret_key body \<and> body \<in> keys)"
      if "CHR ''}'' \<notin> set body" for body
      by (rule secret_token_name_truncate [OF that])
  qed
  finally show ?thesis by (simp add: SECRET_OPENER_def)
qed

lemma host_uri_violations_Nil_iff: "host_uri_violations value = [] \<longleftrightarrow> \<not> reads_host_uri value"
  by (auto simp: host_uri_violations_def reads_host_uri_def HOST_SECRET_SCHEMES_def
        scheme_boundary_matches_Nil_iff openers_border_free)

lemma check_leaf_value_clean:
  "check_leaf_value value keys vs = vs \<longleftrightarrow> leaf_clean value keys"
  by (simp add: check_leaf_value_def leaf_clean_def env_violations_Nil_iff
        secret_violations_Nil_iff host_uri_violations_Nil_iff cred_violations_def
        filter_empty_conv list_all_iff)


section \<open>The size of a report\<close>

lemma tokens_from_length: "list_all (\<lambda>t. length t \<le> 83) (tokens_from s opener close)"
  by (induction s opener close rule: tokens_from.induct)
    (subst tokens_from.simps, simp add: Let_def length_truncate_str split: option.split)

text \<open>A credential token with no target, of any length, is the only thing its value is refused for.\<close>

definition long_cred :: "nat \<Rightarrow> string" where
  "long_cred n = ''cred://'' @ replicate n CHR ''x''"

lemma cred_token_inners_long: "cred_token_inners (''${'' @ long_cred n @ ''}'') = [long_cred n]"
proof -
  have "find_char CHR ''}'' (long_cred n @ ''}'') = Some (length (long_cred n))"
    by (rule find_char_append) (simp add: long_cred_def)
  moreover have "find_str CRED_OPENER (''${'' @ long_cred n @ ''}'') = Some 0"
    by (simp add: long_cred_def CRED_OPENER_def)
  moreover have "cred_token_inners [] = []"
    by (subst cred_token_inners.simps) (simp add: CRED_OPENER_def)
  ultimately show ?thesis
    by (subst cred_token_inners.simps) (simp add: Let_def)
qed

lemma long_cred_misses:
  assumes "x \<in> set p" "x \<in> set ''nsfv.''"
  shows "''${'' @ long_cred n @ ''}'' \<noteq> a @ p @ c"
proof
  assume eq: "''${'' @ long_cred n @ ''}'' = a @ p @ c"
  have "x \<in> set (a @ p @ c)" using assms(1) by simp
  then have "x \<in> set (''${'' @ long_cred n @ ''}'')" by (simp only: eq)
  with assms(2) show False by (auto simp: long_cred_def)
qed

lemma check_long_cred:
  "check_leaf_value (''${'' @ long_cred n @ ''}'') keys [] =
     [\<lparr>kind = ''malformed_cred_token'', snippet = ''${'' @ long_cred n @ ''}''\<rparr>]"
proof -
  let ?token = "''${'' @ long_cred n @ ''}''"
  have tokens: "tokens_from ?token opener CHR ''}'' = []" if "x \<in> set opener" "x \<in> set ''nsfv.''" for x opener
    using long_cred_misses [OF that] by (auto simp: tokens_from_Nil_iff has_token_def)
  have "env_violations ?token = []" "secret_violations ?token keys = []"
    using tokens [of "CHR ''n''" "''${env.''"] tokens [of "CHR ''s''" "''${secret.''"]
    by (simp_all add: env_violations_def secret_violations_def ENV_OPENERS_def SECRET_OPENER_def)
  moreover have "host_uri_violations ?token = []"
    using long_cred_misses [of "CHR ''v''" "''env://''"] long_cred_misses [of "CHR ''f''" "''file://''"]
    unfolding host_uri_violations_Nil_iff reads_host_uri_def HOST_SECRET_SCHEMES_def by auto
  moreover have "split_once CHR ''/'' (replicate n CHR ''x'') = None" "split_once CHR ''#'' (replicate n CHR ''x'') = None"
    by (simp_all add: split_once_None_iff)
  then have "\<not> is_well_formed_cred (long_cred n)"
    by (simp add: is_well_formed_cred_def long_cred_def strip_prefix_def)
  ultimately show ?thesis
    by (simp add: check_leaf_value_def cred_violations_def cred_token_inners_long [simplified])
qed

text \<open>
  C27: what a leaf is reported for has at most 83 bytes, a cut-off snippet and its ellipsis, unless it
  is a malformed credential token: such a token is reported whole, whatever its length, although the
  snippet is documented to be truncated.
\<close>

theorem leaf_snippets_bounded:
  "list_all (\<lambda>v. length (snippet v) \<le> 83 \<or> kind v = ''malformed_cred_token'') (check_leaf_value value keys []) \<and>
   (\<exists>long v. check_leaf_value long keys [] = [v] \<and> kind v = ''malformed_cred_token'' \<and> n \<le> length (snippet v))"
proof
  have "list_all (\<lambda>v. length (snippet v) \<le> 83) (env_violations value @ secret_violations value keys)"
    using tokens_from_length by (auto simp: env_violations_def secret_violations_def list_all_iff)
  moreover have "list_all (\<lambda>v. length (snippet v) \<le> 83) (host_uri_violations value)"
    using length_truncate_str by (auto simp: host_uri_violations_def list_all_iff)
  ultimately show "list_all (\<lambda>v. length (snippet v) \<le> 83 \<or> kind v = ''malformed_cred_token'')
      (check_leaf_value value keys [])"
    by (auto simp: check_leaf_value_def cred_violations_def list_all_iff)
  show "\<exists>long v. check_leaf_value long keys [] = [v] \<and> kind v = ''malformed_cred_token'' \<and> n \<le> length (snippet v)"
    by (intro exI conjI, rule check_long_cred [of n]) (simp_all add: long_cred_def)
qed

section \<open>The digest of a secret set\<close>

lemma digest_input_simps [simp]:
  "digest_input [] = []"
  "digest_input ((n, v) # r) = n @ CHR ''='' # v @ CHR 0x0A # digest_input r"
  by (simp_all add: digest_input_def)

lemma digest_input_inj:
  assumes "list_all (\<lambda>(n, v). CHR ''='' \<notin> set n \<and> CHR 0x0A \<notin> set v) a"
    and "list_all (\<lambda>(n, v). CHR ''='' \<notin> set n \<and> CHR 0x0A \<notin> set v) b"
    and "digest_input a = digest_input b"
  shows "a = b"
  using assms
proof (induction a arbitrary: b)
  case Nil
  then show ?case by (cases b) auto
next
  case (Cons e a)
  obtain n v where e: "e = (n, v)" by (cases e)
  from Cons.prems(3) e obtain n' v' b' where b: "b = (n', v') # b'"
    by (cases b) auto
  from Cons.prems e b have
    eq: "n @ CHR ''='' # (v @ CHR 0x0A # digest_input a) = n' @ CHR ''='' # (v' @ CHR 0x0A # digest_input b')"
    by simp
  with Cons.prems e b have "n = n'" "v @ CHR 0x0A # digest_input a = v' @ CHR 0x0A # digest_input b'"
    by (simp_all add: first_split_eq)
  with Cons.prems e b have "v = v'" "digest_input a = digest_input b'"
    by (simp_all add: first_split_eq)
  with Cons.IH [of b'] Cons.prems \<open>n = n'\<close> e b show ?case by simp
qed

lemma secret_key_no_equals: "is_secret_key name \<Longrightarrow> CHR ''='' \<notin> set name"
  using is_secret_key_chars [of name "CHR ''=''"]
  by (auto simp: is_ascii_alphanumeric_def is_ascii_alphabetic_def is_ascii_digit_def)

text \<open>
  C33: for registered names and values without a line feed, two secret sets have the same
  digest exactly when they hold the same entries, in whatever order they are listed, as long
  as the hash does not collide on their inputs.
\<close>

theorem secrets_digest_eq_iff:
  assumes "\<And>n v. (n, v) \<in> set a \<union> set b \<Longrightarrow> is_secret_key n \<and> CHR 0x0A \<notin> set v"
    and collision_free: "\<And>x y. x \<in> {digest_input (sort a), digest_input (sort b)} \<Longrightarrow>
      y \<in> {digest_input (sort a), digest_input (sort b)} \<Longrightarrow>
      hex_encode (sha256 x) = hex_encode (sha256 y) \<Longrightarrow> x = y"
    and hex_nonempty: "\<And>x. hex_encode (sha256 x) \<noteq> []"
  shows "secrets_digest sha256 hex_encode a = secrets_digest sha256 hex_encode b \<longleftrightarrow> mset a = mset b"
proof
  assume "mset a = mset b"
  then have "sort a = sort b" "a = [] \<longleftrightarrow> b = []"
    by (metis mset_sort properties_for_sort sorted_sort, auto)
  then show "secrets_digest sha256 hex_encode a = secrets_digest sha256 hex_encode b"
    by (simp add: secrets_digest_def)
next
  assume eq: "secrets_digest sha256 hex_encode a = secrets_digest sha256 hex_encode b"
  have clean: "list_all (\<lambda>(n, v). CHR ''='' \<notin> set n \<and> CHR 0x0A \<notin> set v) (sort c)"
    if "c \<in> {a, b}" for c
    using that assms(1) secret_key_no_equals by (fastforce simp: list_all_iff)
  have "a = [] \<longleftrightarrow> b = []"
    using eq hex_nonempty [of "digest_input (sort a)"] hex_nonempty [of "digest_input (sort b)"]
    by (auto simp: secrets_digest_def split: if_split_asm)
  have "sort a = sort b"
  proof (cases "a = []")
    case True
    with \<open>a = [] \<longleftrightarrow> b = []\<close> show ?thesis by simp
  next
    case False
    with \<open>a = [] \<longleftrightarrow> b = []\<close> eq
    have "hex_encode (sha256 (digest_input (sort a))) = hex_encode (sha256 (digest_input (sort b)))"
      by (simp add: secrets_digest_def)
    then have "digest_input (sort a) = digest_input (sort b)"
      by (rule collision_free [rotated 2]) simp_all
    moreover have "a \<in> {a, b}" "b \<in> {a, b}" by blast+
    ultimately show ?thesis using digest_input_inj [OF clean [of a] clean [of b]] by blast
  qed
  then have "mset (sort a) = mset (sort b)" by (rule arg_cong)
  then show "mset a = mset b" by simp
qed

theorem secrets_digest_eq_iff_witness:
  "secrets_digest id (\<lambda>x. ''h'' @ x) [(''B'', ''2''), (''A'', ''1'')] =
     secrets_digest id (\<lambda>x. ''h'' @ x) [(''A'', ''1''), (''B'', ''2'')]"
proof -
  have k: "is_secret_key ''A''" "is_secret_key ''B''" by code_simp+
  show ?thesis
    by (rule secrets_digest_eq_iff [THEN iffD2]) (auto simp: k)
qed

text \<open>
  With a line feed inside a value the digest is ambiguous: two different secret sets
  have the same digest whatever the hash.
\<close>

theorem secrets_digest_line_feed_collision:
  "secrets_digest sha256 hex_encode [(''A'', ''1'' @ [CHR 0x0A] @ ''B=2'')] =
   secrets_digest sha256 hex_encode [(''A'', ''1''), (''B'', ''2'')]"
proof -
  have "digest_input (sort [(''A'', ''1'' @ [CHR 0x0A] @ ''B=2'')]) =
      digest_input (sort [(''A'', ''1''), (''B'', ''2'')])"
    by code_simp
  then show ?thesis by (simp only: secrets_digest_def list.distinct if_False)
qed

end
