(* ===== verification/Net.thy ===== *)
theory Net imports Prelude begin

unbundle bit_operations_syntax

text \<open>
  \<^verbatim>\<open>std::net\<close>: addresses, the textual parser behind \<^verbatim>\<open>str::parse::<IpAddr>\<close> and the
  address classes. A parser takes the unread bytes and returns a value with the rest.
\<close>

datatype ip_addr = V4 u8 u8 u8 u8 | V6 "u16 list"

fun wf_ip :: "ip_addr \<Rightarrow> bool" where
  "wf_ip (V4 _ _ _ _) = True"
| "wf_ip (V6 segs) = (length segs = 8)"

type_synonym 'a reader = "string \<Rightarrow> ('a \<times> string) option"

section \<open>Numbers and separators\<close>

definition to_digit :: "int \<Rightarrow> char \<Rightarrow> int option" where
  "to_digit radix c =
     (if CHR ''0'' \<le> c \<and> c \<le> CHR ''9'' then Some (of_char c - 48)
      else if radix = 16 \<and> CHR ''a'' \<le> c \<and> c \<le> CHR ''f'' then Some (of_char c - 87)
      else if radix = 16 \<and> CHR ''A'' \<le> c \<and> c \<le> CHR ''F'' then Some (of_char c - 55)
      else None)"

text \<open>The digit loop: \<^verbatim>\<open>None\<close> as soon as more than \<^verbatim>\<open>max_digits\<close> digits follow.\<close>

fun read_digits :: "int \<Rightarrow> nat \<Rightarrow> nat \<Rightarrow> int \<Rightarrow> string \<Rightarrow> (int \<times> nat \<times> string) option" where
  "read_digits radix max_digits count acc [] = Some (acc, count, [])"
| "read_digits radix max_digits count acc (c # s) =
     (case to_digit radix c of
        None \<Rightarrow> Some (acc, count, c # s)
      | Some d \<Rightarrow>
          if Suc count > max_digits then None
          else read_digits radix max_digits (Suc count) (acc * radix + d) s)"

text \<open>\<^verbatim>\<open>read_number\<close>: the value must fit (\<^verbatim>\<open>bound\<close> is 256 or 65536).\<close>

definition read_number :: "int \<Rightarrow> nat \<Rightarrow> bool \<Rightarrow> int \<Rightarrow> int reader" where
  "read_number radix max_digits allow_zero_prefix bound s =
     (case read_digits radix max_digits 0 0 s of
        None \<Rightarrow> None
      | Some (n, count, rest) \<Rightarrow>
          if n \<ge> bound then None
          else if count = 0 then None
          else if \<not> allow_zero_prefix \<and> prefix ''0'' s \<and> count > 1 then None
          else Some (n, rest))"

definition read_given_char :: "char \<Rightarrow> unit reader" where
  "read_given_char x s = (case s of c # t \<Rightarrow> if c = x then Some ((), t) else None | [] \<Rightarrow> None)"

definition read_separator :: "char \<Rightarrow> nat \<Rightarrow> 'a reader \<Rightarrow> 'a reader" where
  "read_separator sep index inner s =
     (if index > 0
      then (case read_given_char sep s of None \<Rightarrow> None | Some (_, t) \<Rightarrow> inner t)
      else inner s)"

section \<open>Addresses\<close>

fun read_octets :: "nat \<Rightarrow> nat \<Rightarrow> u8 list reader" where
  "read_octets 0 i s = Some ([], s)"
| "read_octets (Suc k) i s =
     (case read_separator CHR ''.'' i (read_number 10 3 False 256) s of
        None \<Rightarrow> None
      | Some (n, t) \<Rightarrow>
          (case read_octets k (Suc i) t of
             None \<Rightarrow> None
           | Some (ns, u) \<Rightarrow> Some (word_of_int n # ns, u)))"

definition read_ipv4_addr :: "(u8 \<times> u8 \<times> u8 \<times> u8) reader" where
  "read_ipv4_addr s =
     (case read_octets 4 0 s of
        Some ([a, b, c, d], t) \<Rightarrow> Some ((a, b, c, d), t)
      | _ \<Rightarrow> None)"

definition be_bytes :: "u8 \<Rightarrow> u8 \<Rightarrow> u16" where
  "be_bytes a b = word_of_int (uint a * 256 + uint b)"

text \<open>
  \<^verbatim>\<open>read_groups\<close> on the last \<^verbatim>\<open>left\<close> slots of the array, the first of them at index
  \<^verbatim>\<open>i\<close>: the groups read, whether they end in an embedded IPv4 address, and the rest.
\<close>

fun read_groups :: "nat \<Rightarrow> nat \<Rightarrow> string \<Rightarrow> u16 list \<times> bool \<times> string" where
  "read_groups 0 i s = ([], False, s)"
| "read_groups (Suc left) i s =
     (case (if left > 0 then read_separator CHR '':'' i read_ipv4_addr s else None) of
        Some ((a, b, c, d), t) \<Rightarrow> ([be_bytes a b, be_bytes c d], True, t)
      | None \<Rightarrow>
          (case read_separator CHR '':'' i (read_number 16 4 True 65536) s of
             None \<Rightarrow> ([], False, s)
           | Some (g, t) \<Rightarrow>
               (case read_groups left (Suc i) t of
                  (gs, v4, u) \<Rightarrow> (word_of_int g # gs, v4, u))))"

definition read_ipv6_addr :: "u16 list reader" where
  "read_ipv6_addr s =
     (case read_groups 8 0 s of
        (head, head_ipv4, t) \<Rightarrow>
          if length head = 8 then Some (head, t)
          else if head_ipv4 then None
          else (case read_given_char CHR '':'' t of
            None \<Rightarrow> None
          | Some (_, t) \<Rightarrow>
              (case read_given_char CHR '':'' t of
                 None \<Rightarrow> None
               | Some (_, t) \<Rightarrow>
                   (case read_groups (8 - (length head + 1)) 0 t of
                      (tail, _, t) \<Rightarrow>
                        Some (head @ replicate (8 - length head - length tail) 0 @ tail, t)))))"

definition read_ip_addr :: "ip_addr reader" where
  "read_ip_addr s =
     (case read_ipv4_addr s of
        Some ((a, b, c, d), t) \<Rightarrow> Some (V4 a b c d, t)
      | None \<Rightarrow> map_option (\<lambda>(segs, t). (V6 segs, t)) (read_ipv6_addr s))"

definition parse_ip :: "string \<Rightarrow> ip_addr option" where
  "parse_ip s = (case read_ip_addr s of Some (ip, []) \<Rightarrow> Some ip | _ \<Rightarrow> None)"

section \<open>Classes\<close>

definition v4_is_private :: "u8 \<Rightarrow> u8 \<Rightarrow> bool" where
  "v4_is_private a b =
     (a = 10 \<or> (a = 172 \<and> 16 \<le> b \<and> b \<le> 31) \<or> (a = 192 \<and> b = 168))"

definition v4_is_loopback :: "u8 \<Rightarrow> bool" where
  "v4_is_loopback a = (a = 127)"

definition v4_is_link_local :: "u8 \<Rightarrow> u8 \<Rightarrow> bool" where
  "v4_is_link_local a b = (a = 169 \<and> b = 254)"

definition v6_is_loopback :: "u16 list \<Rightarrow> bool" where
  "v6_is_loopback segs = (segs = [0, 0, 0, 0, 0, 0, 0, 1])"

definition v6_is_unspecified :: "u16 list \<Rightarrow> bool" where
  "v6_is_unspecified segs = (segs = [0, 0, 0, 0, 0, 0, 0, 0])"

definition high_byte :: "u16 \<Rightarrow> u8" where
  "high_byte w = ucast (drop_bit 8 w)"

definition low_byte :: "u16 \<Rightarrow> u8" where
  "low_byte w = ucast w"

fun to_ipv4_mapped :: "u16 list \<Rightarrow> (u8 \<times> u8 \<times> u8 \<times> u8) option" where
  "to_ipv4_mapped [s0, s1, s2, s3, s4, s5, ab, cd] =
     (if s0 = 0 \<and> s1 = 0 \<and> s2 = 0 \<and> s3 = 0 \<and> s4 = 0 \<and> s5 = 0xffff
      then Some (high_byte ab, low_byte ab, high_byte cd, low_byte cd) else None)"
| "to_ipv4_mapped _ = None"

section \<open>Printing IPv4 addresses\<close>

definition show_u8 :: "u8 \<Rightarrow> string" where
  "show_u8 n = show_dec (uint n)"

definition show_v4 :: "u8 \<Rightarrow> u8 \<Rightarrow> u8 \<Rightarrow> u8 \<Rightarrow> string" where
  "show_v4 a b c d =
     show_u8 a @ CHR ''.'' # show_u8 b @ CHR ''.'' # show_u8 c @ CHR ''.'' # show_u8 d"


section \<open>A printed IPv4 address parses back\<close>

lemma to_digit_10 [simp]: "to_digit 10 c = (if is_ascii_digit c then Some (digit_val c) else None)"
  by (simp add: to_digit_def is_ascii_digit_def digit_val_def)

lemma read_digits_append:
  assumes "list_all is_ascii_digit ds" "count + length ds \<le> m"
    and "rest = [] \<or> \<not> is_ascii_digit (hd rest)"
  shows "read_digits 10 m count acc (ds @ rest) =
    Some (foldl (\<lambda>acc c. 10 * acc + digit_val c) acc ds, count + length ds, rest)"
  using assms
proof (induction ds arbitrary: count acc)
  case Nil
  then show ?case by (cases rest) auto
next
  case (Cons d ds)
  then show ?case by (simp add: mult.commute)
qed

lemma small_decimals:
  "list_all (\<lambda>n. length (show_dec n) \<le> 3 \<and>
     (prefix ''0'' (show_dec n) \<longrightarrow> length (show_dec n) = 1)) [0..255]"
  by code_simp

lemma show_u8_shape:
  "length (show_u8 n) \<le> 3" "prefix ''0'' (show_u8 n) \<Longrightarrow> length (show_u8 n) = 1"
  "list_all is_ascii_digit (show_u8 n)" "show_u8 n \<noteq> []"
proof -
  have "uint n \<in> set [0..255]" using uint_lt2p [of n] by simp
  with small_decimals show "length (show_u8 n) \<le> 3"
    "prefix ''0'' (show_u8 n) \<Longrightarrow> length (show_u8 n) = 1"
    unfolding list_all_iff show_u8_def by blast+
qed (simp_all add: show_u8_def show_dec_digits)

lemma read_octet:
  assumes "rest = [] \<or> \<not> is_ascii_digit (hd rest)"
  shows "read_number 10 3 False 256 (show_u8 n @ rest) = Some (uint n, rest)"
proof -
  have val: "foldl (\<lambda>acc c. 10 * acc + digit_val c) 0 (show_u8 n) = uint n"
    using decimal_val_show_dec [of "uint n"] by (simp add: decimal_val_def show_u8_def)
  have "read_digits 10 3 0 0 (show_u8 n @ rest) = Some (uint n, length (show_u8 n), rest)"
    using read_digits_append [OF show_u8_shape(3), of 0 n 3 rest 0] assms show_u8_shape(1)
    by (simp add: val)
  moreover have "uint n < 256" using uint_lt2p [of n] by simp
  moreover have "prefix ''0'' (show_u8 n @ rest) \<Longrightarrow> length (show_u8 n) = 1"
    using show_u8_shape(2) [of n] show_u8_shape(4) [of n] by (cases "show_u8 n") auto
  ultimately show ?thesis using show_u8_shape(4) [of n] by (auto simp: read_number_def)
qed

lemma read_ipv4_show:
  assumes "rest = [] \<or> \<not> is_ascii_digit (hd rest)"
  shows "read_ipv4_addr (show_v4 a b c d @ rest) = Some ((a, b, c, d), rest)"
proof -
  have four: "read_octets 4 = read_octets (Suc (Suc (Suc (Suc 0))))" by (simp add: numeral_eq_Suc)
  show ?thesis
    using assms
    by (simp add: read_ipv4_addr_def show_v4_def four read_separator_def read_given_char_def
          read_octet)
qed

lemma parse_show_v4 [simp]: "parse_ip (show_v4 a b c d) = Some (V4 a b c d)"
  using read_ipv4_show [of "[]" a b c d] by (simp add: parse_ip_def read_ip_addr_def)

lemma show_v4_chars: "x \<in> set (show_v4 a b c d) \<Longrightarrow> is_ascii_digit x \<or> x = CHR ''.''"
  using show_u8_shape(3) by (auto simp: show_v4_def list_all_iff)

lemma show_v4_nonempty [simp]: "show_v4 a b c d \<noteq> []"
  by (simp add: show_v4_def)

section \<open>A parsed address is well-formed\<close>

lemma length_read_groups: "length (fst (read_groups left i s)) \<le> left"
proof (induction left i s rule: read_groups.induct)
  case (2 left i s)
  then show ?case by (auto split: option.splits prod.splits)
qed simp

lemma read_ipv6_length: "read_ipv6_addr s = Some (segs, t) \<Longrightarrow> length segs = 8"
proof -
  assume h: "read_ipv6_addr s = Some (segs, t)"
  obtain head v4 u where g: "read_groups 8 0 s = (head, v4, u)" by (cases "read_groups 8 0 s")
  have l: "length head \<le> 8" using length_read_groups [of 8 0 s] g by simp
  show ?thesis
  proof (cases "length head = 8")
    case True
    with h g show ?thesis by (simp add: read_ipv6_addr_def)
  next
    case False
    with h g obtain w tail v w' where
      r: "read_groups (8 - (length head + 1)) 0 w = (tail, v, w')" and
      e: "segs = head @ replicate (8 - length head - length tail) 0 @ tail"
      by (auto simp: read_ipv6_addr_def split: option.splits prod.splits if_splits)
    have "length tail \<le> 8 - (length head + 1)"
      using length_read_groups [of "8 - (length head + 1)" 0 w] r by simp
    with e l show ?thesis by simp
  qed
qed

lemma parse_ip_wf: "parse_ip s = Some ip \<Longrightarrow> wf_ip ip"
  by (auto simp: parse_ip_def read_ip_addr_def split: option.splits prod.splits list.splits
        dest: read_ipv6_length)

end
