(* ===== verification/PublishGuard.thy ===== *)
theory PublishGuard imports SecretScan Net begin

text \<open>
  \<^verbatim>\<open>src/src/publish_guard.rs\<close>: the pre-deploy guard of a published configuration. A check
  that pushes onto the code's violation list takes the list and returns it extended. The YAML
  and TOML readers are library code: the parameters \<^verbatim>\<open>yaml\<close> and \<^verbatim>\<open>toml\<close>, which return
  the value they parse, if any.
\<close>

record publish_guard_error =
  violations :: "violation list"

text \<open>\<^verbatim>\<open>Display\<close>: the violations separated by semicolons, in order.\<close>

fun show_violations :: "nat \<Rightarrow> violation list \<Rightarrow> string" where
  "show_violations i [] = []"
| "show_violations i (v # vs) =
     (if i > 0 then ''; '' else []) @ snippet v @ '' ['' @ kind v @ '']'' @ show_violations (Suc i) vs"

definition show_guard_error :: "publish_guard_error \<Rightarrow> string" where
  "show_guard_error e =
     ''published config rejected by the publish guard ('' @ show_dec (int (length (violations e)))
     @ '' violation(s)): '' @ show_violations 0 (violations e)"

section \<open>Parsing\<close>

definition parse_structured ::
    "(string \<Rightarrow> json option) \<Rightarrow> (string \<Rightarrow> json option) \<Rightarrow> string \<Rightarrow> json option" where
  "parse_structured yaml toml raw =
     (case yaml raw of
        Some v \<Rightarrow>
          if is_object v then Some v
          else (case toml raw of
                  Some w \<Rightarrow> if is_object w then Some w else None
                | None \<Rightarrow> None)
      | None \<Rightarrow>
          (case toml raw of
             Some w \<Rightarrow> if is_object w then Some w else None
           | None \<Rightarrow> None))"

text \<open>The value \<^verbatim>\<open>unparseable()\<close>, which \<^verbatim>\<open>check_published_config\<close> also spells out.\<close>

definition unparseable :: publish_guard_error where
  "unparseable = \<lparr>violations =
     [\<lparr>kind = ''unparseable_config'', snippet = ''config is not valid YAML or TOML''\<rparr>]\<rparr>"

text \<open>The leaf walk threads the state of the closure it is given.\<close>

fun walk_leaf_strings :: "json \<Rightarrow> (string \<Rightarrow> 's \<Rightarrow> 's) \<Rightarrow> 's \<Rightarrow> 's" where
  "walk_leaf_strings (JString s) f st = f s st"
| "walk_leaf_strings (JArray items) f st = fold (\<lambda>item. walk_leaf_strings item f) items st"
| "walk_leaf_strings (JObject m) f st = fold (\<lambda>(key, value). walk_leaf_strings value f) m st"
| "walk_leaf_strings _ f st = st"

section \<open>Events\<close>

definition trust_floor_violations :: "json \<Rightarrow> violation list" where
  "trust_floor_violations cfg =
     concat (map (\<lambda>mode.
       (case Option.bind (pointer [''mcp'', ''configurations'', ''events'', mode, ''require_trust''] cfg)
               as_str of
          Some trust \<Rightarrow>
            if trust \<noteq> ''verified''
            then [\<lparr>kind = ''events_trust_floor'',
                   snippet = ''mcp.configurations.events.'' @ mode @ ''.require_trust: '' @ truncate_str trust\<rparr>]
            else []
        | None \<Rightarrow> []))
       [''webhook'', ''poll'', ''push''])"

definition WEBHOOK :: string where
  "WEBHOOK = ''mcp.configurations.events.webhook''"

definition webhook_violations :: "json \<Rightarrow> violation list" where
  "webhook_violations cfg =
     (case pointer [''mcp'', ''configurations'', ''events'', ''webhook''] cfg of
        None \<Rightarrow> []
      | Some webhook \<Rightarrow>
          (if pointer [''ttl'', ''allow_no_expiry''] webhook = Some (JBool True)
           then [\<lparr>kind = ''events_no_expiry'', snippet = WEBHOOK @ ''.ttl.allow_no_expiry''\<rparr>]
           else [])
          @ (case Option.bind (pointer [''verification'', ''modes''] webhook) as_array of
               Some modes \<Rightarrow>
                 map (\<lambda>mode. \<lparr>kind = ''events_verification_mode'',
                              snippet = WEBHOOK @ ''.verification.modes: '' @ truncate_str mode\<rparr>)
                   (filter (\<lambda>mode. mode \<noteq> ''challenge'') (List.map_filter as_str modes))
             | None \<Rightarrow> [])
          @ (case Option.bind (pointer [''egress'', ''allowed_ports''] webhook) as_array of
               Some ports \<Rightarrow>
                 if ports \<noteq> [JNumber (PosInt 443)]
                 then [\<lparr>kind = ''events_callback_ports'', snippet = WEBHOOK @ ''.egress.allowed_ports''\<rparr>]
                 else []
             | None \<Rightarrow> []))"

definition inbound_violations :: "json \<Rightarrow> violation list" where
  "inbound_violations cfg =
     (case Option.bind (pointer [''mcp'', ''capabilities'', ''events''] cfg) as_array of
        None \<Rightarrow> []
      | Some types \<Rightarrow>
          concat (map (\<lambda>(index, ty).
            if pointer [''source'', ''inbound'', ''allow_unsigned''] ty = Some (JBool True)
            then (let name = (case Option.bind (json_get ty ''name'') as_str of
                                Some n \<Rightarrow> [CHR 0x60] @ truncate_str n @ [CHR 0x60]
                              | None \<Rightarrow> show_dec (int index))
                  in [\<lparr>kind = ''events_unsigned_inbound'',
                       snippet = ''mcp.capabilities.events['' @ name
                         @ ''].source.inbound.allow_unsigned''\<rparr>])
            else []) (List.enumerate 0 types)))"

definition check_events :: "json \<Rightarrow> violation list \<Rightarrow> violation list" where
  "check_events cfg vs =
     vs @ trust_floor_violations cfg @ webhook_violations cfg @ inbound_violations cfg"

section \<open>The license block\<close>

definition check_license_block :: "json \<Rightarrow> violation list \<Rightarrow> violation list" where
  "check_license_block cfg vs =
     (case json_get cfg ''license'' of
        Some v \<Rightarrow>
          if \<not> is_null v then vs @ [\<lparr>kind = ''license_block'', snippet = ''license''\<rparr>] else vs
      | None \<Rightarrow> vs)"

section \<open>Private networks\<close>

definition PRIVATE_BACKENDS_KEY :: string where
  "PRIVATE_BACKENDS_KEY = ''allow_private_backends''"

text \<open>The path string is pushed and truncated back around each child: an argument here.\<close>

fun collect_private_backends :: "json \<Rightarrow> string \<Rightarrow> string list \<Rightarrow> string list" where
  "collect_private_backends (JObject m) path out =
     fold (\<lambda>(key, child) out.
       let path' = (if path \<noteq> [] then path @ ''.'' else path) @ key
       in if key = PRIVATE_BACKENDS_KEY
          then (if as_bool child = Some True \<and> path' \<notin> set out then out @ [path'] else out)
          else collect_private_backends child path' out) m out"
| "collect_private_backends (JArray items) path out =
     fold (\<lambda>item out. collect_private_backends item (path @ ''[]'') out) items out"
| "collect_private_backends _ path out = out"

definition gated_upstream_host :: "string \<Rightarrow> string option" where
  "gated_upstream_host url =
     (case split_once_str ''://'' url of
        None \<Rightarrow> None
      | Some (scheme, rest) \<Rightarrow>
          if scheme \<notin> {''http'', ''https'', ''ws'', ''wss''} then None
          else
            (let authority = takeWhile (\<lambda>c. c \<notin> set ''/?#'') rest;
                 host_port = (case rsplit_once CHR ''@'' authority of
                                Some (_, h) \<Rightarrow> h | None \<Rightarrow> authority);
                 host = (case rfind_char CHR '']'' host_port of
                           Some close \<Rightarrow> take (Suc close) host_port
                         | None \<Rightarrow> (case rsplit_once CHR '':'' host_port of
                                      Some (h, _) \<Rightarrow> h | None \<Rightarrow> host_port));
                 host = trim_end_matches CHR '']'' (trim_start_matches ''['' host)
             in if host \<noteq> [] then Some host else None))"

function ip_is_private :: "ip_addr \<Rightarrow> bool" where
  "ip_is_private (V4 a b c d) =
     (v4_is_private a b
      \<or> v4_is_loopback a
      \<or> v4_is_link_local a b
      \<or> (a = 0 \<and> b = 0 \<and> c = 0 \<and> d = 0)
      \<or> (a = 255 \<and> b = 255 \<and> c = 255 \<and> d = 255)
      \<or> a = 0)"
| "ip_is_private (V6 segs) =
     (v6_is_loopback segs
      \<or> v6_is_unspecified segs
      \<or> (segs ! 0) AND 0xfe00 = 0xfc00
      \<or> (segs ! 0) AND 0xffc0 = 0xfe80
      \<or> (case to_ipv4_mapped segs of
           Some (a, b, c, d) \<Rightarrow> ip_is_private (V4 a b c d)
         | None \<Rightarrow> False))"
  by pat_completeness auto
termination
  by (relation "measure (case_ip_addr (\<lambda>_ _ _ _. 0) (\<lambda>_. 1))") auto

definition is_private_or_local_host :: "string \<Rightarrow> bool" where
  "is_private_or_local_host host =
     (case parse_ip host of
        Some ip \<Rightarrow> ip_is_private ip
      | None \<Rightarrow>
          (let h = to_ascii_lowercase host
           in h = ''localhost''
              \<or> suffix ''.localhost'' h
              \<or> suffix ''.local'' h
              \<or> suffix ''.internal'' h
              \<or> h = ''metadata.google.internal''))"

definition federation_violations :: "json \<Rightarrow> violation list" where
  "federation_violations cfg =
     (case Option.bind (pointer [''mcp'', ''federations''] cfg) as_array of
        None \<Rightarrow> []
      | Some feds \<Rightarrow>
          concat (map (\<lambda>fed.
            (case Option.bind (pointer [''upstream'', ''url''] fed) as_str of
               None \<Rightarrow> []
             | Some url \<Rightarrow>
                 (case gated_upstream_host url of
                    None \<Rightarrow> []
                  | Some host \<Rightarrow>
                      if is_private_or_local_host host
                      then [\<lparr>kind = ''private_federation_upstream'', snippet = truncate_str url\<rparr>]
                      else []))) feds))"

definition check_ssrf :: "json \<Rightarrow> violation list \<Rightarrow> violation list" where
  "check_ssrf cfg vs =
     vs @ map (\<lambda>path. \<lparr>kind = ''private_backends_enabled'', snippet = path @ '': true''\<rparr>)
            (collect_private_backends cfg [] [])
     @ federation_violations cfg"

section \<open>The guard\<close>

definition check_published_config_with_secret_keys ::
    "(string \<Rightarrow> json option) \<Rightarrow> (string \<Rightarrow> json option) \<Rightarrow> string \<Rightarrow> string set
       \<Rightarrow> publish_guard_error + unit" where
  "check_published_config_with_secret_keys yaml toml raw secret_keys =
     (case parse_structured yaml toml raw of
        None \<Rightarrow> Inl unparseable
      | Some cfg \<Rightarrow>
          (let vs = walk_leaf_strings cfg (\<lambda>leaf vs. check_leaf_value leaf secret_keys vs) [];
               vs = check_ssrf cfg vs;
               vs = check_license_block cfg vs;
               vs = check_events cfg vs
           in if vs = [] then Inr () else Inl \<lparr>violations = vs\<rparr>))"

definition check_published_config ::
    "(string \<Rightarrow> json option) \<Rightarrow> (string \<Rightarrow> json option) \<Rightarrow> string \<Rightarrow> publish_guard_error + unit" where
  "check_published_config yaml toml raw =
     check_published_config_with_secret_keys yaml toml raw {}"

section \<open>Authentication posture\<close>

datatype cloud_auth_error = NoVerifier | Unparseable

fun show_cloud_auth_error :: "cloud_auth_error \<Rightarrow> string" where
  "show_cloud_auth_error NoVerifier =
     ''cloud gateway requires a token verifier so its public endpoint isn'' @ [CHR 0x27]
     @ ''t reachable with a self-asserted identity: set '' @ quoted ''governance.access.jwks'' @ '' (or ''
     @ quoted ''governance.access.oidc_oauth''
     @ '') to your IdP, or configure the embedded enterprise-managed authorization server (''
     @ quoted ''governance.access.authorization_server''
     @ ''). To intentionally publish a public / anonymous MCP server, set ''
     @ quoted ''cloud.allow_anonymous: true'' @ ''.''"
| "show_cloud_auth_error Unparseable =
     ''published config could not be parsed as YAML or TOML, so its authentication posture can''
     @ [CHR 0x27] @ ''t be verified '' @ em_dash @ '' fix the config and re-publish.''"

definition VERIFIER_KEYS :: "string list" where
  "VERIFIER_KEYS = [''jwks'', ''oidc_oauth'', ''authorization_server'']"

definition is_present_object :: "json option \<Rightarrow> bool" where
  "is_present_object node = (case node of Some (JObject _) \<Rightarrow> True | _ \<Rightarrow> False)"

definition require_cloud_auth ::
    "(string \<Rightarrow> json option) \<Rightarrow> (string \<Rightarrow> json option) \<Rightarrow> string \<Rightarrow> cloud_auth_error + unit" where
  "require_cloud_auth yaml toml raw =
     (case parse_structured yaml toml raw of
        None \<Rightarrow> Inl Unparseable
      | Some cfg \<Rightarrow>
          if Option.bind (pointer [''cloud'', ''allow_anonymous''] cfg) as_bool = Some True
          then Inr ()
          else
            (let has_verifier =
               (case pointer [''governance'', ''access''] cfg of
                  Some a \<Rightarrow> list_ex (\<lambda>key. is_present_object (json_get a key)) VERIFIER_KEYS
                | None \<Rightarrow> False)
             in if has_verifier then Inr () else Inl NoVerifier))"


section \<open>The leaf walk is a fold over the leaves\<close>

lemma fold_nested:
  assumes "\<And>x st. x \<in> set xs \<Longrightarrow> g x st = fold f (h x) st"
  shows "fold g xs st = fold f (concat (map h xs)) st"
  using assms by (induction xs arbitrary: st) auto

lemma walk_leaf_strings_fold: "walk_leaf_strings v f st = fold f (leaf_strings v) st"
proof (induction v f st rule: walk_leaf_strings.induct)
  case (2 items f st)
  then show ?case by (simp add: fold_nested [of items _ f leaf_strings])
next
  case (3 m f st)
  then show ?case
    by (simp add: fold_nested [of m _ f "\<lambda>(k, v). leaf_strings v"] split: prod.splits)
qed auto

lemma check_leaf_value_append: "check_leaf_value s keys vs = vs @ check_leaf_value s keys []"
  by (simp add: check_leaf_value_def)

lemma fold_check_leaf_value:
  "fold (\<lambda>leaf vs. check_leaf_value leaf keys vs) ls vs =
     vs @ concat (map (\<lambda>leaf. check_leaf_value leaf keys []) ls)"
  by (induction ls arbitrary: vs) (simp_all, metis check_leaf_value_append)

section \<open>What each check accepts\<close>

text \<open>A private-backend switch that is on, at any depth the search reaches.\<close>

fun enables_private_backends :: "json \<Rightarrow> bool" where
  "enables_private_backends (JObject m) =
     list_ex (\<lambda>(key, child).
       if key = PRIVATE_BACKENDS_KEY then child = JBool True else enables_private_backends child) m"
| "enables_private_backends (JArray items) = list_ex enables_private_backends items"
| "enables_private_backends _ = False"

lemma fold_grows:
  assumes "\<And>x out. x \<in> set xs \<Longrightarrow> (\<exists>ys. g x out = out @ ys)
      \<and> (g x out = [] \<longleftrightarrow> out = [] \<and> \<not> P x)"
  shows "(\<exists>ys. fold g xs out = out @ ys) \<and> (fold g xs out = [] \<longleftrightarrow> out = [] \<and> \<not> list_ex P xs)"
  using assms
proof (induction xs arbitrary: out)
  case (Cons x xs)
  from Cons.prems [of x out] obtain ys where ys: "g x out = out @ ys" by auto
  from Cons.IH [of "out @ ys"] Cons.prems have
    "(\<exists>zs. fold g xs (out @ ys) = (out @ ys) @ zs) \<and>
     (fold g xs (out @ ys) = [] \<longleftrightarrow> out @ ys = [] \<and> \<not> list_ex P xs)" by simp
  with ys Cons.prems [of x out] show ?case by auto
qed simp

lemma collect_private_backends_spec:
  "(\<exists>ys. collect_private_backends v path out = out @ ys) \<and>
   (collect_private_backends v path out = [] \<longleftrightarrow> out = [] \<and> \<not> enables_private_backends v)"
proof (induction v path out rule: collect_private_backends.induct)
  case (1 m path out)
  show ?case
    unfolding collect_private_backends.simps enables_private_backends.simps
  proof (rule fold_grows)
    fix x out'
    assume x: "x \<in> set m"
    obtain key child where kc: "x = (key, child)" by (cases x)
    show "(\<exists>ys. (case x of (key, child) \<Rightarrow> \<lambda>out. let path' = (if path \<noteq> [] then path @ ''.'' else path) @ key
        in if key = PRIVATE_BACKENDS_KEY
          then (if as_bool child = Some True \<and> path' \<notin> set out then out @ [path'] else out)
          else collect_private_backends child path' out) out' = out' @ ys) \<and>
      ((case x of (key, child) \<Rightarrow> \<lambda>out. let path' = (if path \<noteq> [] then path @ ''.'' else path) @ key
        in if key = PRIVATE_BACKENDS_KEY
          then (if as_bool child = Some True \<and> path' \<notin> set out then out @ [path'] else out)
          else collect_private_backends child path' out) out' = [] \<longleftrightarrow>
       out' = [] \<and> \<not> (case x of (key, child) \<Rightarrow>
         if key = PRIVATE_BACKENDS_KEY then child = JBool True else enables_private_backends child))"
      using 1 [OF x kc [symmetric] refl, of out'] unfolding kc
      by (auto simp: Let_def as_bool_Some_iff)
  qed
next
  case (2 items path out)
  then show ?case
    unfolding collect_private_backends.simps enables_private_backends.simps
    by (intro fold_grows) blast
qed auto

lemma collect_private_backends_Nil_iff:
  "collect_private_backends v [] [] = [] \<longleftrightarrow> \<not> enables_private_backends v"
  using collect_private_backends_spec [of v "[]" "[]"] by simp

text \<open>Every pointer to the switch that does not itself pass through the switch is found.\<close>

lemma enables_private_backends_pointer:
  assumes "pointer (p @ [PRIVATE_BACKENDS_KEY]) v = Some (JBool True)"
    and "PRIVATE_BACKENDS_KEY \<notin> set p"
  shows "enables_private_backends v"
  using assms
proof (induction p arbitrary: v)
  case Nil
  have "parse_index PRIVATE_BACKENDS_KEY = None" by code_simp
  with Nil show ?case
    by (auto simp: pointer_step_def list_ex_iff split: option.splits json.splits dest!: map_of_SomeD)
next
  case (Cons t p)
  then obtain w where w: "pointer_step v t = Some w"
    and e: "enables_private_backends w" by (auto split: option.splits)
  show ?case
  proof (cases v)
    case (JArray xs)
    with w e show ?thesis
      by (auto simp: pointer_step_def list_ex_iff split: option.splits if_splits)
  next
    case (JObject m)
    with w have "(t, w) \<in> set m" by (auto dest: map_of_SomeD)
    with JObject e Cons.prems(2) show ?thesis by (auto simp: list_ex_iff intro!: bexI [of _ "(t, w)"])
  qed (use w in \<open>auto simp: pointer_step_def\<close>)
qed

definition private_federation_upstream :: "json \<Rightarrow> bool" where
  "private_federation_upstream cfg =
     (\<exists>feds fed url host. pointer [''mcp'', ''federations''] cfg = Some (JArray feds) \<and>
        fed \<in> set feds \<and> pointer [''upstream'', ''url''] fed = Some (JString url) \<and>
        gated_upstream_host url = Some host \<and> is_private_or_local_host host)"

lemma federation_violations_Nil_iff:
  "federation_violations cfg = [] \<longleftrightarrow> \<not> private_federation_upstream cfg"
  unfolding federation_violations_def private_federation_upstream_def
  by (cases "pointer [''mcp'', ''federations''] cfg")
    (force simp: as_str_Some_iff as_array_Some_iff bind_eq_Some_conv split: option.splits if_splits)+

definition license_block_absent :: "json \<Rightarrow> bool" where
  "license_block_absent cfg = (json_get cfg ''license'' \<in> {None, Some JNull})"

lemma check_license_block_spec:
  "check_license_block cfg vs = vs @ check_license_block cfg []"
  "check_license_block cfg [] = [] \<longleftrightarrow> license_block_absent cfg"
  by (auto simp: check_license_block_def license_block_absent_def is_null_def split: option.splits)

definition events_managed :: "json \<Rightarrow> bool" where
  "events_managed cfg =
     ((\<forall>mode trust. mode \<in> {''webhook'', ''poll'', ''push''} \<longrightarrow>
         pointer [''mcp'', ''configurations'', ''events'', mode, ''require_trust''] cfg = Some (JString trust) \<longrightarrow>
         trust = ''verified'') \<and>
      (\<forall>webhook. pointer [''mcp'', ''configurations'', ''events'', ''webhook''] cfg = Some webhook \<longrightarrow>
         pointer [''ttl'', ''allow_no_expiry''] webhook \<noteq> Some (JBool True) \<and>
         (\<forall>modes mode. pointer [''verification'', ''modes''] webhook = Some (JArray modes) \<longrightarrow>
            JString mode \<in> set modes \<longrightarrow> mode = ''challenge'') \<and>
         (\<forall>ports. pointer [''egress'', ''allowed_ports''] webhook = Some (JArray ports) \<longrightarrow>
            ports = [JNumber (PosInt 443)])) \<and>
      (\<forall>types ty. pointer [''mcp'', ''capabilities'', ''events''] cfg = Some (JArray types) \<longrightarrow>
         ty \<in> set types \<longrightarrow> pointer [''source'', ''inbound'', ''allow_unsigned''] ty \<noteq> Some (JBool True)))"

end
