(* ===== verification/Gate.thy ===== *)
theory Gate imports Json begin

text \<open>
  The contract every gate over a raw configuration keeps, as locales. The guards of
  \<^verbatim>\<open>src/src/publish_guard.rs\<close> and \<^verbatim>\<open>src/src/target_validate.rs\<close> are its instances.
\<close>

text \<open>
  A gate parses its input, refuses what does not parse, and otherwise decides by a predicate of
  the parsed document alone.
\<close>

locale config_gate =
  fixes parse :: "string \<Rightarrow> json option"
    and gate :: "string \<Rightarrow> 'e + unit"
    and verdict :: "json \<Rightarrow> bool"
  assumes gate_unparsed: "parse raw = None \<Longrightarrow> isl (gate raw)"
    and gate_parsed: "parse raw = Some cfg \<Longrightarrow> gate raw = Inr () \<longleftrightarrow> verdict cfg"
begin

lemma admits_iff: "gate raw = Inr () \<longleftrightarrow> (\<exists>cfg. parse raw = Some cfg \<and> verdict cfg)"
proof (cases "parse raw")
  case None
  then show ?thesis using gate_unparsed [OF None] by auto
qed (simp add: gate_parsed)

lemma refuses_iff: "isl (gate raw) \<longleftrightarrow> (\<forall>cfg. parse raw = Some cfg \<longrightarrow> \<not> verdict cfg)"
  using admits_iff [of raw] by (cases "gate raw") auto

lemma same_document: "parse raw = parse raw' \<Longrightarrow> gate raw = Inr () \<longleftrightarrow> gate raw' = Inr ()"
  by (simp add: admits_iff)

end

text \<open>A gate that reports: every refusal carries at least one violation.\<close>

locale reporting_gate = config_gate parse gate verdict
  for parse :: "string \<Rightarrow> json option" and gate :: "string \<Rightarrow> 'e + unit" and verdict +
  fixes report :: "'e \<Rightarrow> 'v list"
  assumes reports: "gate raw = Inl e \<Longrightarrow> report e \<noteq> []"
begin

lemma verdict_or_report:
  "(\<exists>cfg. parse raw = Some cfg \<and> verdict cfg) \<or> (\<exists>e v. gate raw = Inl e \<and> v \<in> set (report e))"
proof (cases "gate raw")
  case (Inl e)
  then show ?thesis using reports [OF Inl] by (cases "report e") auto
next
  case (Inr u)
  then show ?thesis using admits_iff [of raw] by simp
qed

end

end
