(* ===== verification/GuardVerdict.thy ===== *)
theory GuardVerdict imports PublishGuard Gate begin

text \<open>
  What the guards of \<^verbatim>\<open>src/src/publish_guard.rs\<close> decide: the instances of the gate contract on
  the publish guard and the authentication gate, and their verdicts read as plain conditions
  on the document.
\<close>

section \<open>The published configuration\<close>

lemma case_as_str_Nil_iff:
  "(case Option.bind node as_str of Some s \<Rightarrow> if P s then [v s] else [] | None \<Rightarrow> []) = []
     \<longleftrightarrow> (\<forall>s. node = Some (JString s) \<longrightarrow> \<not> P s)"
proof (cases node)
  case (Some v)
  then show ?thesis by (cases v) auto
qed simp

lemma enumerate_all: "(\<forall>(i, x) \<in> set (List.enumerate n xs). P x) \<longleftrightarrow> (\<forall>x \<in> set xs. P x)"
  by (induction xs arbitrary: n) auto

lemma trust_floor_Nil_iff:
  "trust_floor_violations cfg = [] \<longleftrightarrow>
     (\<forall>mode trust. mode \<in> {''webhook'', ''poll'', ''push''} \<longrightarrow>
         pointer [''mcp'', ''configurations'', ''events'', mode, ''require_trust''] cfg = Some (JString trust) \<longrightarrow>
         trust = ''verified'')"
  unfolding trust_floor_violations_def by (auto simp: case_as_str_Nil_iff simp del: pointer.simps)

lemma map_filter_as_str: "s \<in> set (List.map_filter as_str vs) \<longleftrightarrow> JString s \<in> set vs"
  by (induction vs) (auto simp: as_str_Some_iff split: option.splits)

lemma webhook_Nil_iff:
  "webhook_violations cfg = [] \<longleftrightarrow>
     (\<forall>webhook. pointer [''mcp'', ''configurations'', ''events'', ''webhook''] cfg = Some webhook \<longrightarrow>
         pointer [''ttl'', ''allow_no_expiry''] webhook \<noteq> Some (JBool True) \<and>
         (\<forall>modes mode. pointer [''verification'', ''modes''] webhook = Some (JArray modes) \<longrightarrow>
            JString mode \<in> set modes \<longrightarrow> mode = ''challenge'') \<and>
         (\<forall>ports. pointer [''egress'', ''allowed_ports''] webhook = Some (JArray ports) \<longrightarrow>
            ports = [JNumber (PosInt 443)]))"
  by (auto simp: webhook_violations_def bind_eq_Some_conv as_array_Some_iff filter_empty_conv
        map_filter_as_str simp del: pointer.simps split: option.splits)

lemma inbound_Nil_iff:
  "inbound_violations cfg = [] \<longleftrightarrow>
     (\<forall>types ty. pointer [''mcp'', ''capabilities'', ''events''] cfg = Some (JArray types) \<longrightarrow>
         ty \<in> set types \<longrightarrow> pointer [''source'', ''inbound'', ''allow_unsigned''] ty \<noteq> Some (JBool True))"
proof (cases "Option.bind (pointer [''mcp'', ''capabilities'', ''events''] cfg) as_array")
  case None
  moreover from None have "pointer [''mcp'', ''capabilities'', ''events''] cfg \<noteq> Some (JArray types)" for types
    by auto
  ultimately show ?thesis by (simp add: inbound_violations_def del: pointer.simps)
next
  case (Some types)
  have "inbound_violations cfg = [] \<longleftrightarrow> (\<forall>(i, ty) \<in> set (List.enumerate 0 types).
      pointer [''source'', ''inbound'', ''allow_unsigned''] ty \<noteq> Some (JBool True))"
    using Some by (auto simp: inbound_violations_def Let_def simp del: pointer.simps)
  also have "\<dots> \<longleftrightarrow> (\<forall>ty \<in> set types.
      pointer [''source'', ''inbound'', ''allow_unsigned''] ty \<noteq> Some (JBool True))"
    by (rule enumerate_all)
  finally show ?thesis
    using Some by (auto simp: bind_eq_Some_conv as_array_Some_iff simp del: pointer.simps)
qed

lemma check_events_spec:
  "check_events cfg vs = vs @ check_events cfg []"
  "check_events cfg [] = [] \<longleftrightarrow> events_managed cfg"
  by (simp_all add: check_events_def events_managed_def trust_floor_Nil_iff webhook_Nil_iff
        inbound_Nil_iff del: pointer.simps)

text \<open>The verdict of the publish guard, one conjunct per check.\<close>

definition published_ok :: "string set \<Rightarrow> json \<Rightarrow> bool" where
  "published_ok secret_keys cfg =
     (list_all (\<lambda>leaf. leaf_clean leaf secret_keys) (leaf_strings cfg)
      \<and> \<not> enables_private_backends cfg
      \<and> \<not> private_federation_upstream cfg
      \<and> license_block_absent cfg
      \<and> events_managed cfg)"

lemma leaf_walk_Nil_iff:
  "walk_leaf_strings cfg (\<lambda>leaf vs. check_leaf_value leaf keys vs) [] = [] \<longleftrightarrow>
     list_all (\<lambda>leaf. leaf_clean leaf keys) (leaf_strings cfg)"
  using check_leaf_value_clean [of _ keys "[]"]
  by (simp add: walk_leaf_strings_fold fold_check_leaf_value list_all_iff)

lemma published_violations_Nil_iff:
  "check_events cfg (check_license_block cfg (check_ssrf cfg
     (walk_leaf_strings cfg (\<lambda>leaf vs. check_leaf_value leaf keys vs) []))) = []
   \<longleftrightarrow> published_ok keys cfg"
  by (subst check_events_spec(1), subst check_license_block_spec(1))
    (auto simp: check_ssrf_def published_ok_def leaf_walk_Nil_iff check_events_spec(2)
       check_license_block_spec(2) federation_violations_Nil_iff collect_private_backends_Nil_iff)

interpretation guard: reporting_gate "parse_structured yaml toml"
  "\<lambda>raw. check_published_config_with_secret_keys yaml toml raw keys" "published_ok keys" violations
  for yaml toml keys
proof
  fix raw cfg e
  show "parse_structured yaml toml raw = None \<Longrightarrow>
      isl (check_published_config_with_secret_keys yaml toml raw keys)"
    by (simp add: check_published_config_with_secret_keys_def)
  show "parse_structured yaml toml raw = Some cfg \<Longrightarrow>
      (check_published_config_with_secret_keys yaml toml raw keys = Inr ()) = published_ok keys cfg"
    using published_violations_Nil_iff [of cfg keys]
    by (simp add: check_published_config_with_secret_keys_def Let_def)
  show "check_published_config_with_secret_keys yaml toml raw keys = Inl e \<Longrightarrow> violations e \<noteq> []"
    by (auto simp: check_published_config_with_secret_keys_def Let_def unparseable_def
          split: option.splits if_splits)
qed

section \<open>Authentication\<close>

definition auth_ok :: "json \<Rightarrow> bool" where
  "auth_ok cfg =
     (pointer [''cloud'', ''allow_anonymous''] cfg = Some (JBool True) \<or>
      (\<exists>key \<in> set VERIFIER_KEYS. \<exists>m. pointer [''governance'', ''access'', key] cfg = Some (JObject m)))"

lemma is_present_object_iff: "is_present_object node \<longleftrightarrow> (\<exists>m. node = Some (JObject m))"
  by (auto simp: is_present_object_def split: option.splits json.splits)

lemma verifier_key_not_index: "key \<in> set VERIFIER_KEYS \<Longrightarrow> parse_index key = None"
proof -
  have "list_all (\<lambda>key. parse_index key = None) VERIFIER_KEYS" by code_simp
  then show "key \<in> set VERIFIER_KEYS \<Longrightarrow> parse_index key = None" by (simp add: list_all_iff)
qed

lemma json_get_pointer_step:
  "parse_index key = None \<Longrightarrow> json_get v key = pointer_step v key"
  by (cases v) (simp_all add: pointer_step_def)

lemma verifier_pointer:
  assumes "key \<in> set VERIFIER_KEYS"
  shows "pointer [''governance'', ''access'', key] cfg = Some w \<longleftrightarrow>
    (\<exists>a. pointer [''governance'', ''access''] cfg = Some a \<and> json_get a key = Some w)"
  using verifier_key_not_index [OF assms] by (auto simp: json_get_pointer_step split: option.splits)

interpretation auth: config_gate "parse_structured yaml toml" "require_cloud_auth yaml toml"
  auth_ok for yaml toml
proof
  fix raw cfg
  show "parse_structured yaml toml raw = None \<Longrightarrow> isl (require_cloud_auth yaml toml raw)"
    by (simp add: require_cloud_auth_def)
  assume p: "parse_structured yaml toml raw = Some cfg"
  have anon: "Option.bind (pointer [''cloud'', ''allow_anonymous''] cfg) as_bool = Some True \<longleftrightarrow>
      pointer [''cloud'', ''allow_anonymous''] cfg = Some (JBool True)"
    by (simp add: bind_eq_Some_conv as_bool_Some_iff del: pointer.simps)
  have "(\<exists>key \<in> set VERIFIER_KEYS. \<exists>m. pointer [''governance'', ''access'', key] cfg = Some (JObject m))
      \<longleftrightarrow> (\<exists>key \<in> set VERIFIER_KEYS. \<exists>a m. pointer [''governance'', ''access''] cfg = Some a \<and>
            json_get a key = Some (JObject m))"
    using verifier_pointer by blast
  with p anon show "(require_cloud_auth yaml toml raw = Inr ()) = auth_ok cfg"
    by (simp add: require_cloud_auth_def auth_ok_def is_present_object_iff list_ex_iff
          del: pointer.simps split: option.splits)
qed

section \<open>The host of an upstream URL\<close>

text \<open>What may stand between the scheme and the host, and after the host.\<close>

definition url_userinfo :: "string \<Rightarrow> bool" where
  "url_userinfo u = (u = [] \<or> (\<exists>v. u = v @ ''@'' \<and> set v \<inter> set ''/?#'' = {}))"

definition url_port :: "string \<Rightarrow> bool" where
  "url_port p = (p = [] \<or> (\<exists>ds. p = CHR '':'' # ds \<and> list_all is_ascii_digit ds))"

definition url_tail :: "string \<Rightarrow> bool" where
  "url_tail t = (t = [] \<or> hd t \<in> set ''/?#'')"

lemma takeWhile_authority:
  assumes "set a \<inter> S = {}" "t = [] \<or> hd t \<in> S"
  shows "takeWhile (\<lambda>c. c \<notin> S) (a @ t) = a"
  using assms by (induction a) (cases t; auto)+

lemma digit_not_delimiter: "is_ascii_digit x \<Longrightarrow> x \<notin> set ''/?#@[]:''"
  by (auto simp: is_ascii_digit_def)

lemma host_port_chars:
  "x \<in> set (show_v4 a b c d) \<Longrightarrow> x \<notin> set ''/?#@[]:''"
  "url_port p \<Longrightarrow> x \<in> set p \<Longrightarrow> x \<notin> set ''/?#@[]''"
  using show_v4_chars [of x a b c d] digit_not_delimiter [of x]
  by (auto simp: url_port_def list_all_iff)

lemma gated_host_literal:
  assumes "scheme \<in> {''http'', ''https'', ''ws'', ''wss''}" "url_userinfo u" "url_port p" "url_tail t"
  shows "gated_upstream_host (scheme @ ''://'' @ u @ show_v4 a b c d @ p @ t) = Some (show_v4 a b c d)"
proof -
  let ?host = "show_v4 a b c d"
  let ?auth = "u @ ?host @ p"
  note host = host_port_chars(1) [of _ a b c d] and port = host_port_chars(2) [OF assms(3)]
  have "set u \<inter> set ''/?#'' = {}"
    using assms(2) by (auto simp: url_userinfo_def)
  moreover have "set ?host \<inter> set ''/?#'' = {}" "set p \<inter> set ''/?#'' = {}"
    using host port by auto
  ultimately have "set ?auth \<inter> set ''/?#'' = {}" unfolding set_append Int_Un_distrib2 by blast
  with assms(4) have auth: "takeWhile (\<lambda>c. c \<notin> set ''/?#'') (?auth @ t) = ?auth"
    unfolding url_tail_def by (metis takeWhile_authority)
  have split: "split_once_str ''://'' (scheme @ ''://'' @ rest) = Some (scheme, rest)" for rest
    using assms(1) by (auto simp: split_once_str_def)
  have noat: "CHR ''@'' \<notin> set (?host @ p)" and nobr: "CHR '']'' \<notin> set (?host @ p)"
    using host port by auto
  have hp: "(case rsplit_once CHR ''@'' ?auth of Some (_, h) \<Rightarrow> h | None \<Rightarrow> ?auth) = ?host @ p"
    using assms(2) noat rsplit_once_append [OF noat]
    by (auto simp: url_userinfo_def rsplit_once_None_iff [THEN iffD2])
  have nocolon: "CHR '':'' \<notin> set ?host" using host by auto
  have h: "(case rsplit_once CHR '':'' (?host @ p) of Some (h, _) \<Rightarrow> h | None \<Rightarrow> ?host @ p) = ?host"
  proof (cases "p = []")
    case True
    with nocolon show ?thesis by (simp add: rsplit_once_None_iff [THEN iffD2])
  next
    case False
    with assms(3) obtain ds where ds: "p = CHR '':'' # ds" "list_all is_ascii_digit ds"
      by (auto simp: url_port_def)
    then have "CHR '':'' \<notin> set ds" by (auto simp: list_all_iff is_ascii_digit_def)
    with ds show ?thesis by (simp add: rsplit_once_append)
  qed
  have "\<not> prefix ''['' ?host" "CHR '']'' \<notin> set ?host"
    using host [of "CHR ''[''"] host [of "CHR '']''"] by (auto simp: prefix_def)
  moreover from this(2) have "last ?host \<noteq> CHR '']''"
    using last_in_set [OF show_v4_nonempty, of a b c d] by metis
  ultimately have trim: "trim_end_matches CHR '']'' (trim_start_matches ''['' ?host) = ?host"
    by (simp add: trim_start_matches_id trim_end_matches_id)
  show ?thesis
    using auth hp h trim nobr assms(1)
    by (simp add: gated_upstream_host_def split [simplified] rfind_char_None_iff [THEN iffD2] Let_def
        cong del: option.case_cong_weak)
qed

section \<open>Properties of the guard\<close>

text \<open>
  C2: in an admitted config no string value, at whatever path, holds a closed
  \<^verbatim>\<open>${env.X}\<close> token or a host-reading \<^verbatim>\<open>env://\<close> or \<^verbatim>\<open>file://\<close> URI at a value boundary, a
  \<^verbatim>\<open>${secret.X}\<close> token names a well-formed registered key, and every \<^verbatim>\<open>${cred://..}\<close> token is
  well-formed.
\<close>

theorem admitted_leaf_safe:
  assumes "check_published_config_with_secret_keys yaml toml raw keys = Inr ()"
    and "parse_structured yaml toml raw = Some cfg"
    and "pointer path cfg = Some (JString leaf)"
  shows "\<not> has_token ''${env.'' CHR ''}'' leaf name \<and> \<not> reads_host_uri leaf
    \<and> (has_token ''${secret.'' CHR ''}'' leaf name \<longrightarrow> is_secret_key name \<and> name \<in> keys)
    \<and> list_all is_well_formed_cred (cred_token_inners leaf)"
proof -
  have "leaf \<in> set (leaf_strings cfg)" using leaf_strings_pointer [OF assms(3)] by auto
  moreover have "published_ok keys cfg" using assms(1,2) by (simp add: guard.admits_iff)
  ultimately have "leaf_clean leaf keys" by (simp add: published_ok_def list_all_iff)
  then show ?thesis by (auto simp: leaf_clean_def)
qed

theorem admitted_leaf_safe_witness:
  "\<not> has_token ''${env.'' CHR ''}'' ''k ${secret.DB}'' ''DB'' \<and> \<not> reads_host_uri ''k ${secret.DB}''
    \<and> ''DB'' \<in> {''DB''} \<and> list_all is_well_formed_cred (cred_token_inners ''k ${secret.DB}'')"
proof -
  let ?cfg = "JObject [(''mcp'', JObject [(''key'', JString ''k ${secret.DB}'')])]"
  have "check_published_config_with_secret_keys (\<lambda>_. Some ?cfg) (\<lambda>_. None) ''mcp'' {''DB''} = Inr ()"
    "parse_structured (\<lambda>_. Some ?cfg) (\<lambda>_. None) ''mcp'' = Some ?cfg"
    "pointer [''mcp'', ''key''] ?cfg = Some (JString ''k ${secret.DB}'')"
    by code_simp+
  from admitted_leaf_safe [OF this, of "''DB''"] show ?thesis by simp
qed

text \<open>
  C4: a config in which \<^verbatim>\<open>allow_private_backends\<close> is true at any path that does not run through
  another such key is refused, whatever the schema of that path.
\<close>

theorem private_switch_refused:
  assumes "parse_structured yaml toml raw = Some cfg"
    and "pointer (path @ [PRIVATE_BACKENDS_KEY]) cfg = Some (JBool True)"
    and "PRIVATE_BACKENDS_KEY \<notin> set path"
  shows "check_published_config_with_secret_keys yaml toml raw keys \<noteq> Inr ()"
  using enables_private_backends_pointer [OF assms(2,3)] assms(1)
  by (simp add: guard.admits_iff published_ok_def)

theorem private_switch_refused_witness:
  "check_published_config_with_secret_keys
     (\<lambda>_. Some (JObject [(''b'', JArray [JObject [(PRIVATE_BACKENDS_KEY, JBool True)]])])) (\<lambda>_. None)
     ''b'' {''DB''} \<noteq> Inr ()"
proof -
  let ?cfg = "JObject [(''b'', JArray [JObject [(PRIVATE_BACKENDS_KEY, JBool True)]])]"
  have "parse_structured (\<lambda>_. Some ?cfg) (\<lambda>_. None) ''b'' = Some ?cfg"
    "pointer ([''b'', ''0''] @ [PRIVATE_BACKENDS_KEY]) ?cfg = Some (JBool True)"
    "PRIVATE_BACKENDS_KEY \<notin> set [''b'', ''0'']"
    by code_simp+
  then show ?thesis by (rule private_switch_refused)
qed

text \<open>
  The search does not look beneath the switch: nested beneath another
  \<^verbatim>\<open>allow_private_backends\<close> key the switch passes, although the doc comment of
  \<^verbatim>\<open>collect_private_backends\<close> promises every occurrence in the document.
\<close>

theorem nested_private_switch_admitted:
  "check_published_config (\<lambda>_. Some (JObject [(PRIVATE_BACKENDS_KEY,
      JObject [(PRIVATE_BACKENDS_KEY, JBool True)])])) (\<lambda>_. None) raw = Inr ()"
  unfolding check_published_config_def check_published_config_with_secret_keys_def
    parse_structured_def is_object.simps option.case if_True
  by code_simp

text \<open>
  C3: a config with a federation upstream whose URL has the scheme \<^verbatim>\<open>http\<close>, \<^verbatim>\<open>https\<close>, \<^verbatim>\<open>ws\<close> or
  \<^verbatim>\<open>wss\<close>, written in lower case, and a private dotted-quad host is refused, whatever userinfo, port,
  path, query or fragment surrounds the address. (Any other spelling of the scheme passes, as
  \<^verbatim>\<open>scheme_compared_as_written\<close> shows.)
\<close>

theorem private_upstream_refused:
  assumes "parse_structured yaml toml raw = Some cfg"
    and "pointer [''mcp'', ''federations''] cfg = Some (JArray feds)" "fed \<in> set feds"
    and "pointer [''upstream'', ''url''] fed
           = Some (JString (scheme @ ''://'' @ u @ show_v4 a b c d @ p @ t))"
    and "scheme \<in> {''http'', ''https'', ''ws'', ''wss''}" "url_userinfo u" "url_port p" "url_tail t"
    and "ip_is_private (V4 a b c d)"
  shows "check_published_config_with_secret_keys yaml toml raw keys \<noteq> Inr ()"
proof -
  have "is_private_or_local_host (show_v4 a b c d)"
    using assms(9) unfolding is_private_or_local_host_def parse_show_v4 by simp
  with gated_host_literal [OF assms(5-8)] assms(2-4) have "private_federation_upstream cfg"
    unfolding private_federation_upstream_def by blast
  with assms(1) show ?thesis by (simp add: guard.admits_iff published_ok_def)
qed

theorem private_upstream_refused_witness:
  "check_published_config_with_secret_keys (\<lambda>_. Some (JObject [(''mcp'', JObject [(''federations'',
     JArray [JObject [(''upstream'', JObject [(''url'', JString ''wss://me@10.1.2.3:9000/x'')])]])])]))
     (\<lambda>_. None) ''r'' {''DB''} \<noteq> Inr ()"
proof -
  let ?fed = "JObject [(''upstream'', JObject [(''url'',
     JString (''wss'' @ ''://'' @ ''me@'' @ show_v4 10 1 2 3 @ '':9000'' @ ''/x''))])]"
  let ?cfg = "JObject [(''mcp'', JObject [(''federations'', JArray [?fed])])]"
  have url: "''wss'' @ ''://'' @ ''me@'' @ show_v4 10 1 2 3 @ '':9000'' @ ''/x'' = ''wss://me@10.1.2.3:9000/x''"
    by code_simp
  have "check_published_config_with_secret_keys (\<lambda>_. Some ?cfg) (\<lambda>_. None) ''r'' {''DB''} \<noteq> Inr ()"
  proof (rule private_upstream_refused
      [of _ _ _ ?cfg "[?fed]" ?fed "''wss''" "''me@''" 10 1 2 3 "'':9000''" "''/x''"])
    show "url_userinfo ''me@''" unfolding url_userinfo_def by (intro disjI2 exI [of _ "''me''"]) simp
    show "url_port '':9000''" by (simp add: url_port_def is_ascii_digit_def)
  qed (simp_all add: parse_structured_def url_tail_def v4_is_private_def)
  then show ?thesis unfolding url .
qed

text \<open>The scheme of an upstream, apart from its case: it opens no token and ends no secret URI.\<close>

lemma scheme_letters:
  assumes "to_ascii_lowercase scheme \<in> {''http'', ''https'', ''ws'', ''wss''}"
  shows "CHR '':'' \<notin> set scheme" "CHR ''$'' \<notin> set scheme" "scheme \<noteq> a @ ''env''" "scheme \<noteq> a @ ''file''"
proof -
  have lower: "c \<in> set scheme \<Longrightarrow> to_ascii_lower c \<in> set ''htpsw''" for c
    using assms imageI [of c "set scheme" to_ascii_lower] by (auto simp: to_ascii_lowercase_def set_map [symmetric] simp del: set_map)
  show "CHR '':'' \<notin> set scheme" "CHR ''$'' \<notin> set scheme"
    using lower [of "CHR '':''"] lower [of "CHR ''$''"] by (auto simp: to_ascii_lower_def)
  show "scheme \<noteq> a @ ''env''" "scheme \<noteq> a @ ''file''"
    using assms by (auto simp: to_ascii_lowercase_def to_ascii_lower_def append_eq_Cons_conv)
qed

lemma plain_url_clean:
  assumes "to_ascii_lowercase scheme \<in> {''http'', ''https'', ''ws'', ''wss''}"
    and "CHR '':'' \<notin> set rest" "CHR ''$'' \<notin> set rest"
  shows "leaf_clean (scheme @ ''://'' @ rest) keys"
proof -
  let ?url = "scheme @ ''://'' @ rest"
  note letters = scheme_letters [OF assms(1)]
  have "CHR ''$'' \<notin> set ?url" using letters(2) assms(3) by simp
  then have tokens: "\<not> has_token (CHR ''$'' # opener) c ?url body" for opener c body
    by (metis has_token_def append_Cons in_set_conv_decomp)
  have "find_str CRED_OPENER ?url = None"
    using \<open>CHR ''$'' \<notin> set ?url\<close> unfolding find_str_None_iff CRED_OPENER_def prefix_def
    by (metis append_Cons in_set_dropD list.set_intros(1))
  moreover have "\<not> reads_host_uri ?url"
  proof
    assume "reads_host_uri ?url"
    then obtain a c where "?url = (a @ ''env'') @ CHR '':'' # ''//'' @ c \<or> ?url = (a @ ''file'') @ CHR '':'' # ''//'' @ c"
      unfolding reads_host_uri_def HOST_SECRET_SCHEMES_def by fastforce
    then obtain s where s: "?url = (a @ s) @ CHR '':'' # ''//'' @ c" "s = ''env'' \<or> s = ''file''"
      by blast
    then have "scheme = a @ s"
      using append_Cons_eq_iff [of "CHR '':''" scheme "''//'' @ rest" "a @ s" "''//'' @ c"] letters(1) assms(2) by simp
    with s(2) letters(3,4) show False by blast
  qed
  ultimately show ?thesis using tokens by (simp add: leaf_clean_def cred_token_inners.simps)
qed

definition federation_document :: "string \<Rightarrow> json" where
  "federation_document url =
     JObject [(''mcp'', JObject [(''federations'', JArray [JObject [(''upstream'', JObject [(''url'', JString url)])]])])]"

text \<open>
  C40: the scheme of an upstream is compared as it is written, although URL schemes are
  case-insensitive: in any spelling with a letter in upper case the check passes every address,
  the private ones included, that it refuses in lower case.
\<close>

theorem scheme_compared_as_written:
  assumes "to_ascii_lowercase scheme \<in> {''http'', ''https'', ''ws'', ''wss''}"
    and "scheme \<notin> {''http'', ''https'', ''ws'', ''wss''}"
    and "CHR '':'' \<notin> set t" "CHR ''$'' \<notin> set t"
  shows "check_published_config_with_secret_keys
    (\<lambda>_. Some (federation_document (scheme @ ''://'' @ show_v4 a b c d @ t))) (\<lambda>_. None) raw keys = Inr ()"
proof -
  let ?url = "scheme @ ''://'' @ show_v4 a b c d @ t"
  have "CHR '':'' \<notin> set (show_v4 a b c d)" "CHR ''$'' \<notin> set (show_v4 a b c d)"
    using show_v4_chars [of "CHR '':''" a b c d] show_v4_chars [of "CHR ''$''" a b c d]
    by (auto simp: is_ascii_digit_def less_eq_char_def)
  then have "leaf_clean ?url keys"
    using assms by (intro plain_url_clean) auto
  moreover have "gated_upstream_host ?url = None"
  proof -
    have "split_once_str ''://'' ?url = Some (scheme, show_v4 a b c d @ t)"
      using split_once_str_append [OF scheme_letters(1) [OF assms(1)], of "''//''"] by simp
    with assms(2) show ?thesis by (simp add: gated_upstream_host_def)
  qed
  ultimately have "published_ok keys (federation_document ?url)"
    by (simp add: published_ok_def federation_document_def private_federation_upstream_def license_block_absent_def events_managed_def PRIVATE_BACKENDS_KEY_def)
  then show ?thesis by (simp add: guard.admits_iff parse_structured_def federation_document_def)
qed

theorem scheme_compared_as_written_witness:
  "check_published_config_with_secret_keys (\<lambda>_. Some (JObject [(''mcp'', JObject [(''federations'',
     JArray [JObject [(''upstream'', JObject [(''url'', JString ''HTTP://10.1.2.3/'')])]])])]))
     (\<lambda>_. None) ''r'' {} = Inr ()"
proof -
  have "to_ascii_lowercase ''HTTP'' = ''http''"
    and url: "''HTTP'' @ ''://'' @ show_v4 10 1 2 3 @ ''/'' = ''HTTP://10.1.2.3/''" by code_simp+
  with scheme_compared_as_written [of "''HTTP''" "''/''" 10 1 2 3 "''r''" "{}"]
  show ?thesis unfolding url federation_document_def by simp
qed

text \<open>
  A cloud publish passes the authentication gate exactly when the parsed config opts into an
  anonymous gateway with the boolean \<^verbatim>\<open>true\<close> or has an object under one of the three verifier
  keys; it is refused as unparseable exactly when it does not parse.
\<close>

theorem cloud_auth_verdict:
  "(require_cloud_auth yaml toml raw = Inr () \<longleftrightarrow>
     (\<exists>cfg. parse_structured yaml toml raw = Some cfg \<and> auth_ok cfg)) \<and>
   (require_cloud_auth yaml toml raw = Inl Unparseable \<longleftrightarrow> parse_structured yaml toml raw = None)"
proof
  show "require_cloud_auth yaml toml raw = Inr () \<longleftrightarrow>
     (\<exists>cfg. parse_structured yaml toml raw = Some cfg \<and> auth_ok cfg)" by (rule auth.admits_iff)
  show "require_cloud_auth yaml toml raw = Inl Unparseable \<longleftrightarrow> parse_structured yaml toml raw = None"
    by (auto simp: require_cloud_auth_def Let_def split: option.splits if_splits)
qed

end
