(* ===== verification/GuardReport.thy ===== *)
theory GuardReport imports GuardVerdict begin

text \<open>
  What the publish guard of \<^verbatim>\<open>src/src/publish_guard.rs\<close> reports: which kinds of violation a document
  has, kind by kind, and how the verdict depends on the secret keys.
\<close>

section \<open>The kinds of a report\<close>

definition kinds :: "violation list \<Rightarrow> string set" where
  "kinds vs = kind ` set vs"

definition reported :: "publish_guard_error + unit \<Rightarrow> string set" where
  "reported result = (case result of Inl e \<Rightarrow> kinds (violations e) | Inr _ \<Rightarrow> {})"

text \<open>A kind that is reported when its fault is there.\<close>

definition kind_if :: "string \<Rightarrow> bool \<Rightarrow> string set" where
  "kind_if k fault = (if fault then {k} else {})"

lemma kinds_append [simp]: "kinds (vs @ ws) = kinds vs \<union> kinds ws" "kinds [] = {}"
  by (auto simp: kinds_def)

lemma kinds_concat: "kinds (concat vss) = (\<Union>vs \<in> set vss. kinds vs)"
  by (auto simp: kinds_def)

lemma kinds_one: "list_all (\<lambda>v. kind v = k) vs \<Longrightarrow> kinds vs = kind_if k (vs \<noteq> [])"
  by (cases vs) (auto simp: kinds_def kind_if_def list_all_iff)

lemma kind_if_UN: "(\<Union>x \<in> A. kind_if k (P x)) = kind_if k (\<exists>x \<in> A. P x)"
  by (auto simp: kind_if_def)

section \<open>The faults of a document\<close>

text \<open>Each kind of violation with the condition on the document it stands for.\<close>

definition event_setting :: "string list \<Rightarrow> json \<Rightarrow> json option" where
  "event_setting path cfg = pointer ([''mcp'', ''configurations'', ''events''] @ path) cfg"

definition guard_faults :: "string set \<Rightarrow> json \<Rightarrow> (string \<times> bool) list" where
  "guard_faults keys cfg =
     [(''host_env_interpolation'',
         \<exists>leaf \<in> set (leaf_strings cfg). \<exists>name. has_token ''${env.'' CHR ''}'' leaf name),
      (''unregistered_secret'',
         \<exists>leaf \<in> set (leaf_strings cfg). \<exists>name. has_token ''${secret.'' CHR ''}'' leaf name \<and>
           \<not> (is_secret_key name \<and> name \<in> keys)),
      (''malformed_cred_token'',
         \<exists>leaf \<in> set (leaf_strings cfg). \<exists>inner \<in> set (cred_token_inners leaf). \<not> is_well_formed_cred inner),
      (''host_secret_uri'', \<exists>leaf \<in> set (leaf_strings cfg). reads_host_uri leaf),
      (''private_backends_enabled'', enables_private_backends cfg),
      (''private_federation_upstream'', private_federation_upstream cfg),
      (''license_block'', json_get cfg ''license'' \<notin> {None, Some JNull}),
      (''events_trust_floor'',
         \<exists>mode trust. mode \<in> {''webhook'', ''poll'', ''push''} \<and>
           event_setting [mode, ''require_trust''] cfg = Some (JString trust) \<and> trust \<noteq> ''verified''),
      (''events_no_expiry'', event_setting [''webhook'', ''ttl'', ''allow_no_expiry''] cfg = Some (JBool True)),
      (''events_verification_mode'',
         \<exists>modes mode. event_setting [''webhook'', ''verification'', ''modes''] cfg = Some (JArray modes) \<and>
           JString mode \<in> set modes \<and> mode \<noteq> ''challenge''),
      (''events_callback_ports'',
         \<exists>ports. event_setting [''webhook'', ''egress'', ''allowed_ports''] cfg = Some (JArray ports) \<and>
           ports \<noteq> [JNumber (PosInt 443)]),
      (''events_unsigned_inbound'',
         \<exists>types ty. pointer [''mcp'', ''capabilities'', ''events''] cfg = Some (JArray types) \<and> ty \<in> set types \<and>
           pointer [''source'', ''inbound'', ''allow_unsigned''] ty = Some (JBool True))]"

definition fault_kinds :: "string set \<Rightarrow> json \<Rightarrow> string set" where
  "fault_kinds keys cfg = (\<Union>(k, fault) \<in> set (guard_faults keys cfg). kind_if k fault)"

section \<open>The report of a leaf\<close>

lemma kinds_leaf:
  "kinds (check_leaf_value leaf keys []) =
     kind_if ''host_env_interpolation'' (\<exists>name. has_token ''${env.'' CHR ''}'' leaf name) \<union>
     kind_if ''unregistered_secret'' (\<exists>name. has_token ''${secret.'' CHR ''}'' leaf name \<and>
       \<not> (is_secret_key name \<and> name \<in> keys)) \<union>
     kind_if ''malformed_cred_token'' (\<exists>inner \<in> set (cred_token_inners leaf). \<not> is_well_formed_cred inner) \<union>
     kind_if ''host_secret_uri'' (reads_host_uri leaf)"
proof -
  have "kinds (env_violations leaf) =
      kind_if ''host_env_interpolation'' (\<exists>name. has_token ''${env.'' CHR ''}'' leaf name)"
    using env_violations_Nil_iff [of leaf]
    by (subst kinds_one) (auto simp: env_violations_def list_all_iff)
  moreover have "kinds (secret_violations leaf keys) =
      kind_if ''unregistered_secret'' (\<exists>name. has_token ''${secret.'' CHR ''}'' leaf name \<and>
        \<not> (is_secret_key name \<and> name \<in> keys))"
    using secret_violations_Nil_iff [of leaf keys]
    by (subst kinds_one) (auto simp: secret_violations_def list_all_iff)
  moreover have "kinds (cred_violations leaf) =
      kind_if ''malformed_cred_token'' (\<exists>inner \<in> set (cred_token_inners leaf). \<not> is_well_formed_cred inner)"
    by (subst kinds_one) (auto simp: cred_violations_def list_all_iff filter_empty_conv)
  moreover have "kinds (host_uri_violations leaf) = kind_if ''host_secret_uri'' (reads_host_uri leaf)"
    using host_uri_violations_Nil_iff [of leaf]
    by (subst kinds_one) (auto simp: host_uri_violations_def list_all_iff)
  ultimately show ?thesis by (simp add: check_leaf_value_def Un_assoc)
qed

lemma kinds_walk:
  "kinds (walk_leaf_strings cfg (\<lambda>leaf vs. check_leaf_value leaf keys vs) []) =
     (\<Union>leaf \<in> set (leaf_strings cfg). kinds (check_leaf_value leaf keys []))"
  by (simp add: walk_leaf_strings_fold fold_check_leaf_value kinds_concat)

section \<open>The report of the document's blocks\<close>

lemma kinds_ssrf:
  "kinds (check_ssrf cfg vs) = kinds vs \<union> kind_if ''private_backends_enabled'' (enables_private_backends cfg) \<union>
     kind_if ''private_federation_upstream'' (private_federation_upstream cfg)"
proof -
  have "list_all (\<lambda>v. kind v = ''private_federation_upstream'') (federation_violations cfg)"
    by (auto simp: federation_violations_def list_all_iff simp del: pointer.simps split: option.splits if_splits)
  from kinds_one [OF this] have "kinds (federation_violations cfg) =
      kind_if ''private_federation_upstream'' (private_federation_upstream cfg)"
    by (simp add: federation_violations_Nil_iff)
  moreover have "kinds (map (\<lambda>path. \<lparr>kind = ''private_backends_enabled'', snippet = path @ '': true''\<rparr>)
      (collect_private_backends cfg [] [])) = kind_if ''private_backends_enabled'' (enables_private_backends cfg)"
    by (subst kinds_one) (simp_all add: list_all_iff collect_private_backends_Nil_iff)
  ultimately show ?thesis by (simp add: check_ssrf_def Un_assoc)
qed

lemma kinds_license:
  "kinds (check_license_block cfg vs) =
     kinds vs \<union> kind_if ''license_block'' (json_get cfg ''license'' \<notin> {None, Some JNull})"
  by (auto simp: check_license_block_def is_null_def kind_if_def kinds_def split: option.splits)

lemma event_setting_webhook:
  "event_setting (''webhook'' # path) cfg =
     Option.bind (event_setting [''webhook''] cfg) (pointer path)"
  by (simp add: event_setting_def split: option.split)

lemma kinds_trust:
  "kinds (trust_floor_violations cfg) = kind_if ''events_trust_floor''
     (\<exists>mode trust. mode \<in> {''webhook'', ''poll'', ''push''} \<and>
        event_setting [mode, ''require_trust''] cfg = Some (JString trust) \<and> trust \<noteq> ''verified'')"
proof -
  have "list_all (\<lambda>v. kind v = ''events_trust_floor'') (trust_floor_violations cfg)"
    by (auto simp: trust_floor_violations_def list_all_iff simp del: pointer.simps split: option.splits if_splits)
  from kinds_one [OF this] show ?thesis
    unfolding trust_floor_Nil_iff event_setting_def append.simps
    by (rule trans) (rule arg_cong [where f = "kind_if _"], blast)
qed

lemma kinds_if: "kinds (if b then [v] else []) = kind_if (kind v) b"
  by (simp add: kinds_def kind_if_def)

lemma kinds_strings:
  "kinds (case Option.bind node as_array of
       Some vs \<Rightarrow> map (\<lambda>s. \<lparr>kind = k, snippet = f s\<rparr>) (filter P (List.map_filter as_str vs)) | None \<Rightarrow> []) =
     kind_if k (\<exists>vs s. node = Some (JArray vs) \<and> JString s \<in> set vs \<and> P s)"
proof (cases "Option.bind node as_array")
  case None
  then have "node \<noteq> Some (JArray vs)" for vs by auto
  with None show ?thesis by (simp add: kind_if_def)
next
  case (Some vs)
  then have "node = Some (JArray vs)" by (simp add: bind_eq_Some_conv as_array_Some_iff)
  with Some show ?thesis
    by (auto simp: kinds_def kind_if_def map_filter_as_str image_iff)
qed

lemma kinds_list:
  "kinds (case Option.bind node as_array of Some vs \<Rightarrow> if P vs then [v] else [] | None \<Rightarrow> []) =
     kind_if (kind v) (\<exists>vs. node = Some (JArray vs) \<and> P vs)"
proof (cases "Option.bind node as_array")
  case None
  then have "node \<noteq> Some (JArray vs)" for vs by auto
  with None show ?thesis by (simp add: kind_if_def)
next
  case (Some vs)
  then have "node = Some (JArray vs)" by (simp add: bind_eq_Some_conv as_array_Some_iff)
  then show ?thesis by (simp add: kinds_if)
qed

lemma kinds_webhook:
  "kinds (webhook_violations cfg) =
     kind_if ''events_no_expiry'' (event_setting [''webhook'', ''ttl'', ''allow_no_expiry''] cfg = Some (JBool True)) \<union>
     kind_if ''events_verification_mode''
       (\<exists>modes mode. event_setting [''webhook'', ''verification'', ''modes''] cfg = Some (JArray modes) \<and>
          JString mode \<in> set modes \<and> mode \<noteq> ''challenge'') \<union>
     kind_if ''events_callback_ports''
       (\<exists>ports. event_setting [''webhook'', ''egress'', ''allowed_ports''] cfg = Some (JArray ports) \<and>
          ports \<noteq> [JNumber (PosInt 443)])"
proof (cases "event_setting [''webhook''] cfg")
  case None
  then show ?thesis
    by (simp add: webhook_violations_def event_setting_webhook [of "_ # _"] kind_if_def)
      (simp add: event_setting_def)
next
  case (Some webhook)
  then have hook: "pointer [''mcp'', ''configurations'', ''events'', ''webhook''] cfg = Some webhook"
    by (simp add: event_setting_def)
  have at: "event_setting (''webhook'' # path) cfg = pointer path webhook" for path
    using Some by (simp add: event_setting_webhook [of path])
  show ?thesis
    unfolding webhook_violations_def hook option.case at kinds_append kinds_if kinds_strings kinds_list
    by (simp add: Un_assoc del: pointer.simps)
qed

lemma kinds_inbound:
  "kinds (inbound_violations cfg) = kind_if ''events_unsigned_inbound''
     (\<exists>types ty. pointer [''mcp'', ''capabilities'', ''events''] cfg = Some (JArray types) \<and> ty \<in> set types \<and>
        pointer [''source'', ''inbound'', ''allow_unsigned''] ty = Some (JBool True))"
proof -
  have "list_all (\<lambda>v. kind v = ''events_unsigned_inbound'') (inbound_violations cfg)"
    by (auto simp: inbound_violations_def list_all_iff Let_def simp del: pointer.simps split: option.splits if_splits)
  from kinds_one [OF this] show ?thesis by (simp add: inbound_Nil_iff del: pointer.simps)
qed

section \<open>Properties\<close>

text \<open>
  C1: the report of the publish guard. A text is admitted exactly when nothing is reported; a text
  that does not parse is reported as that alone; and of a document exactly the kinds of violation
  are reported that it has, whatever else is wrong with it: environment and unregistered secret tokens,
  malformed credentials and host-reading URIs in its strings, private-backend switches and private
  upstreams, a license block, and each of the managed events settings.
\<close>

theorem guard_report_kinds:
  "(check_published_config_with_secret_keys yaml toml raw keys = Inr () \<longleftrightarrow>
      reported (check_published_config_with_secret_keys yaml toml raw keys) = {}) \<and>
   reported (check_published_config_with_secret_keys yaml toml raw keys) =
     (case parse_structured yaml toml raw of
        None \<Rightarrow> {''unparseable_config''}
      | Some cfg \<Rightarrow> fault_kinds keys cfg)"
proof
  show "check_published_config_with_secret_keys yaml toml raw keys = Inr () \<longleftrightarrow>
      reported (check_published_config_with_secret_keys yaml toml raw keys) = {}"
    by (auto simp: check_published_config_with_secret_keys_def reported_def kinds_def unparseable_def Let_def
        split: option.splits if_splits)
  show "reported (check_published_config_with_secret_keys yaml toml raw keys) =
     (case parse_structured yaml toml raw of
        None \<Rightarrow> {''unparseable_config''} | Some cfg \<Rightarrow> fault_kinds keys cfg)"
  proof (cases "parse_structured yaml toml raw")
    case (Some cfg)
    let ?vs = "check_events cfg (check_license_block cfg (check_ssrf cfg
      (walk_leaf_strings cfg (\<lambda>leaf vs. check_leaf_value leaf keys vs) [])))"
    have "reported (check_published_config_with_secret_keys yaml toml raw keys) = kinds ?vs"
      using Some by (simp add: check_published_config_with_secret_keys_def reported_def Let_def)
    also have "\<dots> = fault_kinds keys cfg"
      unfolding check_events_def kinds_append kinds_license kinds_ssrf kinds_walk kinds_leaf
        UN_Un_distrib kind_if_UN kinds_trust kinds_webhook kinds_inbound fault_kinds_def guard_faults_def
      by (simp only: list.simps UN_insert UN_empty case_prod_conv Un_assoc Un_empty_right)
    finally show ?thesis using Some by simp
  qed (simp add: check_published_config_with_secret_keys_def reported_def unparseable_def kinds_def)
qed

text \<open>The names the secret tokens of a document use.\<close>

definition secret_names :: "json \<Rightarrow> string set" where
  "secret_names cfg =
     {name. \<exists>leaf \<in> set (leaf_strings cfg). has_token ''${secret.'' CHR ''}'' leaf name}"

text \<open>
  C32: The secret keys an organisation has registered decide one thing: a text is admitted under them exactly
  when it is admitted with every key registered and each name its \<^verbatim>\<open>${secret.X}\<close> tokens use is among
  them. So registering a key never makes a config refused, and removing one that no token names never
  does either.
\<close>

theorem guard_needs_keys:
  "check_published_config_with_secret_keys yaml toml raw keys = Inr () \<longleftrightarrow>
     check_published_config_with_secret_keys yaml toml raw UNIV = Inr () \<and>
     (case parse_structured yaml toml raw of Some cfg \<Rightarrow> secret_names cfg \<subseteq> keys | None \<Rightarrow> False)"
  unfolding guard.admits_iff
  by (auto simp: published_ok_def list_all_iff leaf_clean_def secret_names_def split: option.splits)

end
