(* ===== verification/PrivateBlocks.thy ===== *)
theory PrivateBlocks
  imports PublishGuard
begin

text \<open>
  The private addresses of \<^verbatim>\<open>ip_is_private\<close> as CIDR blocks: of the 32 bits of an IPv4 address, and
  of the 128 bits of an IPv6 address, where every IPv4 block counts again behind the prefix of the
  mapped addresses.
\<close>

section \<open>IPv4\<close>

text \<open>The private ranges as CIDR blocks, over the 32-bit value of an address.\<close>

definition v4_value :: "u8 \<Rightarrow> u8 \<Rightarrow> u8 \<Rightarrow> u8 \<Rightarrow> int" where
  "v4_value a b c d = ((uint a * 256 + uint b) * 256 + uint c) * 256 + uint d"

definition private_blocks :: "(int \<times> nat) list" where
  "private_blocks =
     [(v4_value 0 0 0 0, 8), (v4_value 10 0 0 0, 8), (v4_value 127 0 0 0, 8),
      (v4_value 169 254 0 0, 16), (v4_value 172 16 0 0, 12), (v4_value 192 168 0 0, 16),
      (v4_value 255 255 255 255, 32)]"

definition in_block :: "int \<Rightarrow> int \<times> nat \<Rightarrow> bool" where
  "in_block v block = (case block of (base, len) \<Rightarrow> v div 2 ^ (32 - len) = base div 2 ^ (32 - len))"

lemma u8_bounds: "0 \<le> uint (w :: u8)" "uint (w :: u8) < 256"
  using uint_lt2p [of w] by simp_all

lemma u8_eq_iff: "(w :: u8) = v \<longleftrightarrow> uint w = uint v"
  by (rule word_uint_eq_iff)

lemma v4_value_prefixes:
  "v4_value a b c d div 2 ^ 24 = uint a"
  "v4_value a b c d div 2 ^ 20 = uint a * 16 + uint b div 16"
  "v4_value a b c d div 2 ^ 16 = uint a * 256 + uint b"
proof -
  have drop: "(x * 256 + y) div 256 = x" if "0 \<le> y" "y < 256" for x y :: int
    using that by simp
  have split: "v div 2 ^ 24 = v div 256 div 256 div 256" "v div 2 ^ 16 = v div 256 div 256"
    "v div 2 ^ 20 = v div 256 div 256 div 16" for v :: int
    by (simp_all add: zdiv_zmult2_eq [symmetric])
  note simps = split v4_value_def drop [OF u8_bounds]
  show "v4_value a b c d div 2 ^ 24 = uint a" "v4_value a b c d div 2 ^ 16 = uint a * 256 + uint b"
    unfolding simps by simp_all
  have "(uint a * 256 + uint b) div 16 = uint a * 16 + uint b div 16"
    using div_mult_self3 [of 16 "uint a * 16" "uint b"] by (simp add: mult.assoc)
  then show "v4_value a b c d div 2 ^ 20 = uint a * 16 + uint b div 16"
    unfolding simps by simp
qed

lemma private_block_prefixes:
  "list_ex (in_block (v4_value a b c d)) private_blocks \<longleftrightarrow>
     uint a = 0 \<or> uint a = 10 \<or> uint a = 127 \<or> uint a * 256 + uint b = 43518 \<or>
     uint a * 16 + uint b div 16 = 2753 \<or> uint a * 256 + uint b = 49320 \<or>
     v4_value a b c d = v4_value 255 255 255 255"
proof -
  have "in_block (v4_value a b c d) (v4_value x 0 0 0, 8) \<longleftrightarrow> uint a = uint x"
    "in_block (v4_value a b c d) (v4_value x y 0 0, 16) \<longleftrightarrow> uint a * 256 + uint b = uint x * 256 + uint y"
    "in_block (v4_value a b c d) (v4_value x y 0 0, 12) \<longleftrightarrow>
       uint a * 16 + uint b div 16 = uint x * 16 + uint y div 16"
    "in_block (v4_value a b c d) (v, 32) \<longleftrightarrow> v4_value a b c d = v" for x y v
    using v4_value_prefixes [of a b c d] v4_value_prefixes [of x y 0 0] v4_value_prefixes [of x 0 0 0]
    by (simp_all add: in_block_def del: power_numeral)
  then show ?thesis unfolding private_blocks_def by (simp add: disj_commute disj_left_commute)
qed

lemma octet_prefixes:
  fixes a b c d :: int
  assumes "0 \<le> a" "a < 256" "0 \<le> b" "b < 256" "0 \<le> c" "c < 256" "0 \<le> d" "d < 256"
  shows "a * 16 + b div 16 = 2753 \<longleftrightarrow> a = 172 \<and> 16 \<le> b \<and> b \<le> 31"
    and "a * 256 + b = 43518 \<longleftrightarrow> a = 169 \<and> b = 254"
    and "a * 256 + b = 49320 \<longleftrightarrow> a = 192 \<and> b = 168"
    and "((a * 256 + b) * 256 + c) * 256 + d = 4294967295 \<longleftrightarrow> a = 255 \<and> b = 255 \<and> c = 255 \<and> d = 255"
proof -
  have sixteen: "x * 16 + q = 2753 \<longleftrightarrow> x = 172 \<and> q = 1" if "q < 16" "0 \<le> q" for q x :: int
    using that by presburger
  have "b div 16 < 16" "0 \<le> b div 16" using assms by simp_all
  then have "a * 16 + b div 16 = 2753 \<longleftrightarrow> a = 172 \<and> b div 16 = 1"
    using sixteen [of "b div 16" a] by blast
  moreover have "b div 16 = 1 \<longleftrightarrow> 16 \<le> b \<and> b \<le> 31" by presburger
  ultimately show "a * 16 + b div 16 = 2753 \<longleftrightarrow> a = 172 \<and> 16 \<le> b \<and> b \<le> 31" by simp
next
  have pair: "x * 256 + y = X * 256 + Y \<longleftrightarrow> x = X \<and> y = Y"
    if "0 \<le> y" "y < 256" "0 \<le> Y" "Y < 256" for x y X Y :: int
  proof
    assume eq: "x * 256 + y = X * 256 + Y"
    have "x = (x * 256 + y) div 256" "X = (X * 256 + Y) div 256" using that by simp_all
    with eq show "x = X \<and> y = Y" by simp
  qed simp
  show "a * 256 + b = 43518 \<longleftrightarrow> a = 169 \<and> b = 254" "a * 256 + b = 49320 \<longleftrightarrow> a = 192 \<and> b = 168"
    using pair [of b 254 a 169] pair [of b 168 a 192] assms by simp_all
  show "((a * 256 + b) * 256 + c) * 256 + d = 4294967295 \<longleftrightarrow> a = 255 \<and> b = 255 \<and> c = 255 \<and> d = 255"
    using pair [of d 255 "(a * 256 + b) * 256 + c" 16777215] pair [of c 255 "a * 256 + b" 65535]
      pair [of b 255 a 255] assms by simp
qed

lemma ip_is_private_v4_blocks:
  "ip_is_private (V4 a b c d) \<longleftrightarrow> list_ex (in_block (v4_value a b c d)) private_blocks"
proof -
  note cases = octet_prefixes [OF u8_bounds [of a] u8_bounds [of b] u8_bounds [of c] u8_bounds [of d]]
  have top: "v4_value 255 255 255 255 = 4294967295" by (simp add: v4_value_def)
  have u: "ip_is_private (V4 a b c d) \<longleftrightarrow>
      uint a = 10 \<or> uint a = 172 \<and> 16 \<le> uint b \<and> uint b \<le> 31 \<or> uint a = 192 \<and> uint b = 168 \<or>
      uint a = 127 \<or> uint a = 169 \<and> uint b = 254 \<or>
      uint a = 255 \<and> uint b = 255 \<and> uint c = 255 \<and> uint d = 255 \<or> uint a = 0"
    unfolding ip_is_private.simps v4_is_private_def v4_is_loopback_def v4_is_link_local_def
      u8_eq_iff word_le_def by auto
  show ?thesis
    unfolding private_block_prefixes u top unfolding v4_value_def cases by blast
qed

lemma be_bytes_parts [simp]: "high_byte (be_bytes a b) = a" "low_byte (be_bytes a b) = b"
proof -
  note bounds = u8_bounds [of a] u8_bounds [of b]
  have len8: "LENGTH(8) = 8" and len16: "LENGTH(16) = 16" by simp_all
  have u: "uint (be_bytes a b) = uint a * 256 + uint b"
    using bounds unfolding be_bytes_def by (subst word_of_int_inverse [OF refl]) auto
  have "uint (high_byte (be_bytes a b)) = take_bit 8 (drop_bit 8 (take_bit 16 (uint (be_bytes a b))))"
    unfolding high_byte_def by (simp only: unsigned_ucast_eq unsigned_drop_bit_eq len8 len16)
  also have "\<dots> = uint a" using bounds by (simp add: u drop_bit_eq_div take_bit_eq_mod)
  finally show "high_byte (be_bytes a b) = a" by (simp only: u8_eq_iff)
  have "uint (low_byte (be_bytes a b)) = take_bit 8 (uint (be_bytes a b))"
    unfolding low_byte_def by (simp only: unsigned_ucast_eq len8)
  also have "\<dots> = uint b" using bounds by (simp add: u take_bit_eq_mod)
  finally show "low_byte (be_bytes a b) = b" by (simp only: u8_eq_iff)
qed

section \<open>IPv6\<close>

definition v6_value :: "u16 list \<Rightarrow> int" where
  "v6_value segs = foldl (\<lambda>v s. v * 65536 + uint s) 0 segs"

definition in_block6 :: "int \<Rightarrow> int \<times> nat \<Rightarrow> bool" where
  "in_block6 v block = (case block of (base, len) \<Rightarrow> v div 2 ^ (128 - len) = base div 2 ^ (128 - len))"

text \<open>\<^verbatim>\<open>::/128\<close>, \<^verbatim>\<open>::1/128\<close>, \<^verbatim>\<open>fc00::/7\<close> and \<^verbatim>\<open>fe80::/10\<close>; and an IPv4 block behind \<^verbatim>\<open>::ffff:0:0/96\<close>.\<close>

definition private_blocks6 :: "(int \<times> nat) list" where
  "private_blocks6 =
     [(0, 128), (1, 128), (v6_value [0xfc00, 0, 0, 0, 0, 0, 0, 0], 7), (v6_value [0xfe80, 0, 0, 0, 0, 0, 0, 0], 10)]"

definition mapped_block :: "int \<times> nat \<Rightarrow> int \<times> nat" where
  "mapped_block block = (case block of (base, len) \<Rightarrow> (0xffff * 2 ^ 32 + base, 96 + len))"

lemma u16_bounds: "0 \<le> uint (w :: u16)" "uint (w :: u16) < 65536"
  using uint_lt2p [of w] by simp_all

lemma u16_bytes: "uint (high_byte w) * 256 + uint (low_byte w) = uint w"
proof -
  have len8: "LENGTH(8) = 8" and len16: "LENGTH(16) = 16" by simp_all
  have "uint (high_byte w) = take_bit 8 (drop_bit 8 (take_bit 16 (uint w)))"
    unfolding high_byte_def by (simp only: unsigned_ucast_eq unsigned_drop_bit_eq len8 len16)
  also have "\<dots> = uint w div 256"
  proof -
    have "uint w div 256 < 256" "0 \<le> uint w div 256" using u16_bounds [of w] by linarith+
    then show ?thesis using u16_bounds [of w] by (simp add: drop_bit_eq_div take_bit_eq_mod)
  qed
  finally have h: "uint (high_byte w) = uint w div 256" .
  have "uint (low_byte w) = uint w mod 256"
    unfolding low_byte_def by (simp only: unsigned_ucast_eq len8) (simp add: take_bit_eq_mod)
  with h show ?thesis by simp
qed

lemma div_power_range:
  fixes x :: int
  assumes "0 \<le> x" "x < 2 ^ (n + k)"
  shows "0 \<le> x div 2 ^ n" "x div 2 ^ n < 2 ^ k"
proof -
  show "0 \<le> x div 2 ^ n" using assms(1) by (simp add: pos_imp_zdiv_nonneg_iff)
  show "x div 2 ^ n < 2 ^ k"
  proof (rule ccontr)
    assume "\<not> x div 2 ^ n < 2 ^ k"
    then have "2 ^ k * 2 ^ n \<le> x div 2 ^ n * 2 ^ n" by (intro mult_right_mono) simp_all
    also have "\<dots> \<le> x" by (simp add: minus_mod_eq_div_mult [symmetric])
    finally show False using assms(2) by (simp add: power_add mult.commute)
  qed
qed

lemma and_high_bits:
  fixes x :: int
  assumes "0 \<le> x" "x < 2 ^ (n + k)"
  shows "x AND push_bit n (mask k) = x div 2 ^ n * 2 ^ n"
proof -
  have "x AND push_bit n (mask k) = push_bit n (take_bit k (drop_bit n x))"
    by (rule bit_eqI) (auto simp: bit_simps)
  with div_power_range [OF assms] show ?thesis
    by (simp add: push_bit_eq_mult drop_bit_eq_div take_bit_eq_mod)
qed

lemma segment_prefix:
  "(w :: u16) AND 0xfe00 = 0xfc00 \<longleftrightarrow> uint w div 512 = 126"
  "(w :: u16) AND 0xffc0 = 0xfe80 \<longleftrightarrow> uint w div 64 = 1018"
proof -
  have m: "(0xfe00 :: int) = push_bit 9 (mask 7)" "(0xffc0 :: int) = push_bit 6 (mask 10)"
    by (simp_all add: push_bit_eq_mult mask_eq_exp_minus_1)
  have b: "0 \<le> uint w" "uint w < 2 ^ (9 + 7)" "uint w < 2 ^ (6 + 10)" using u16_bounds [of w] by simp_all
  have "uint (w AND 0xfe00) = uint w div 2 ^ 9 * 2 ^ 9" "uint (w AND 0xffc0) = uint w div 2 ^ 6 * 2 ^ 6"
    using and_high_bits [OF b(1,2)] and_high_bits [OF b(1,3)] by (simp_all add: unsigned_and_eq flip: m)
  then show "w AND 0xfe00 = 0xfc00 \<longleftrightarrow> uint w div 512 = 126" "w AND 0xffc0 = 0xfe80 \<longleftrightarrow> uint w div 64 = 1018"
    by (simp_all add: word_uint_eq_iff)
qed

lemma v6_value_snoc: "v6_value (xs @ [x]) = v6_value xs * 65536 + uint x"
  by (simp add: v6_value_def)

lemma digits_eq_iff:
  fixes x y X Y k :: int
  assumes "0 \<le> y" "y < k" "0 \<le> Y" "Y < k"
  shows "x * k + y = X * k + Y \<longleftrightarrow> x = X \<and> y = Y"
proof
  assume eq: "x * k + y = X * k + Y"
  have "x = (x * k + y) div k" "X = (X * k + Y) div k" using assms by simp_all
  with eq show "x = X \<and> y = Y" by simp
qed simp

lemma v6_value_inj: "length xs = length ys \<Longrightarrow> v6_value xs = v6_value ys \<longleftrightarrow> xs = ys"
proof (induction xs arbitrary: ys rule: rev_induct)
  case (snoc x xs)
  then obtain zs y where ys: "ys = zs @ [y]" by (cases ys rule: rev_cases) auto
  show ?case
    using snoc unfolding ys v6_value_snoc digits_eq_iff [OF u16_bounds u16_bounds] by (simp add: word_uint_eq_iff)
qed simp

lemma v6_value_prefix: "v6_value (xs @ ys) div 2 ^ (16 * length ys) = v6_value xs"
proof (induction ys rule: rev_induct)
  case (snoc y ys)
  have "v6_value (xs @ ys @ [y]) div 2 ^ (16 * length (ys @ [y])) =
      v6_value ((xs @ ys) @ [y]) div 65536 div 2 ^ (16 * length ys)"
    by (simp add: zdiv_zmult2_eq power_add)
  also have "v6_value ((xs @ ys) @ [y]) div 65536 = v6_value (xs @ ys)"
    unfolding v6_value_snoc using u16_bounds [of y] by simp
  finally show ?case using snoc by simp
qed simp

lemma v6_split:
  "v6_value [s0, s1, s2, s3, s4, s5, ab, cd] =
     v6_value [s0, s1, s2, s3, s4, s5] * 2 ^ 32 +
     v4_value (high_byte ab) (low_byte ab) (high_byte cd) (low_byte cd)"
proof -
  have "v6_value [s0, s1, s2, s3, s4, s5, ab, cd] = (v6_value [s0, s1, s2, s3, s4, s5] * 65536 + uint ab) * 65536 + uint cd"
    using v6_value_snoc [of "[s0, s1, s2, s3, s4, s5, ab]" cd] v6_value_snoc [of "[s0, s1, s2, s3, s4, s5]" ab] by simp
  then show ?thesis
    unfolding v4_value_def u16_bytes [symmetric, of ab] u16_bytes [symmetric, of cd] by (simp add: algebra_simps)
qed

lemma v4_value_bounds: "0 \<le> v4_value a b c d" "v4_value a b c d < 2 ^ 32"
  unfolding v4_value_def using u8_bounds [of a] u8_bounds [of b] u8_bounds [of c] u8_bounds [of d] by simp_all

lemma in_mapped_block:
  assumes "len \<le> 32" "0 \<le> l" "l < 2 ^ 32" "0 \<le> base" "base < 2 ^ 32"
  shows "in_block6 (h * 2 ^ 32 + l) (mapped_block (base, len)) \<longleftrightarrow> h = 0xffff \<and> in_block l (base, len)"
proof -
  have two: "(2 :: int) ^ 32 = 2 ^ len * 2 ^ (32 - len)"
    using assms(1) by (simp flip: power_add)
  have div: "(g * 2 ^ 32 + k) div 2 ^ (32 - len) = g * 2 ^ len + k div 2 ^ (32 - len)" for g k :: int
    unfolding two mult.assoc [symmetric] by simp
  have small: "0 \<le> k div 2 ^ (32 - len)" "k div 2 ^ (32 - len) < 2 ^ len" if "0 \<le> k" "k < 2 ^ 32" for k :: int
    using div_power_range [of k "32 - len" len] that assms(1) by simp_all
  have len: "128 - (96 + len) = 32 - len" by simp
  have "h * 2 ^ len + l div 2 ^ (32 - len) = 65535 * 2 ^ len + base div 2 ^ (32 - len) \<longleftrightarrow>
      h = 65535 \<and> l div 2 ^ (32 - len) = base div 2 ^ (32 - len)"
    by (rule digits_eq_iff) (rule small assms)+
  then show ?thesis
    unfolding in_block6_def mapped_block_def in_block_def split len div .
qed

lemma ip_is_private_v6_blocks:
  "ip_is_private (V6 [s0, s1, s2, s3, s4, s5, ab, cd]) \<longleftrightarrow>
     list_ex (in_block6 (v6_value [s0, s1, s2, s3, s4, s5, ab, cd])) (private_blocks6 @ map mapped_block private_blocks)"
proof -
  let ?segs = "[s0, s1, s2, s3, s4, s5, ab, cd]" and ?v = "v6_value [s0, s1, s2, s3, s4, s5, ab, cd]"
  let ?l = "v4_value (high_byte ab) (low_byte ab) (high_byte cd) (low_byte cd)"
  have "?v = 0 \<longleftrightarrow> v6_is_unspecified ?segs" "?v = 1 \<longleftrightarrow> v6_is_loopback ?segs"
    using v6_value_inj [of ?segs "[0, 0, 0, 0, 0, 0, 0, 0]"] v6_value_inj [of ?segs "[0, 0, 0, 0, 0, 0, 0, 1]"]
    by (simp_all add: v6_is_unspecified_def v6_is_loopback_def v6_value_def)
  moreover have "?v div 2 ^ 121 = uint s0 div 512" "?v div 2 ^ 118 = uint s0 div 64"
    using v6_value_prefix [of "[s0]" "[s1, s2, s3, s4, s5, ab, cd]"] zdiv_zmult2_eq [of "2 ^ 9" ?v "2 ^ 112"]
      zdiv_zmult2_eq [of "2 ^ 6" ?v "2 ^ 112"]
    by (simp_all add: v6_value_def)
  moreover have "list_ex (in_block6 ?v) (map mapped_block private_blocks) \<longleftrightarrow>
      v6_value [s0, s1, s2, s3, s4, s5] = 0xffff \<and> list_ex (in_block ?l) private_blocks"
  proof -
    have "list_all (\<lambda>(base, len). len \<le> 32 \<and> 0 \<le> base \<and> base < 2 ^ 32) private_blocks"
      by (simp add: private_blocks_def v4_value_def)
    then have "in_block6 ?v (mapped_block x) \<longleftrightarrow> v6_value [s0, s1, s2, s3, s4, s5] = 0xffff \<and> in_block ?l x"
      if "x \<in> set private_blocks" for x
      unfolding v6_split using that in_mapped_block [OF _ v4_value_bounds]
      by (cases x) (auto simp: list_all_iff simp del: power_numeral)
    then show ?thesis by (auto simp: list_ex_iff)
  qed
  moreover have "v6_value [s0, s1, s2, s3, s4, s5] = 0xffff \<longleftrightarrow> [s0, s1, s2, s3, s4, s5] = [0, 0, 0, 0, 0, 0xffff]"
    using v6_value_inj [of "[s0, s1, s2, s3, s4, s5]" "[0, 0, 0, 0, 0, 0xffff]"] by (simp add: v6_value_def)
  moreover have "0xfc00 * 2 ^ 112 = v6_value [0xfc00, 0, 0, 0, 0, 0, 0, 0]"
    "0xfe80 * 2 ^ 112 = v6_value [0xfe80, 0, 0, 0, 0, 0, 0, 0]"
    by (simp_all add: v6_value_def)
  ultimately show ?thesis
    by (auto simp: private_blocks6_def in_block6_def segment_prefix ip_is_private_v4_blocks [symmetric]
        simp del: ip_is_private.simps(1))
qed

section \<open>Properties\<close>

text \<open>
  C31: the address classification is membership in CIDR blocks. An IPv4 address is private exactly
  in one of seven (this network, the three private blocks, loopback, link-local and the broadcast
  address); an IPv6 address exactly in one of eleven (unspecified, loopback, unique local,
  link-local, and each of the seven behind the prefix of the mapped addresses).
\<close>

theorem ip_is_private_blocks:
  "(ip_is_private (V4 a b c d) \<longleftrightarrow> list_ex (in_block (v4_value a b c d)) private_blocks) \<and>
   (ip_is_private (V6 [s0, s1, s2, s3, s4, s5, s6, s7]) \<longleftrightarrow>
      list_ex (in_block6 (v6_value [s0, s1, s2, s3, s4, s5, s6, s7]))
        (private_blocks6 @ map mapped_block private_blocks))"
  by (intro conjI ip_is_private_v4_blocks ip_is_private_v6_blocks)

end
