(* ===== verification/TargetValidate.thy ===== *)
theory TargetValidate imports Gate begin

text \<open>
  \<^verbatim>\<open>src/src/target_validate.rs\<close>: a config validates against the capability manifest of the
  blessed gateway release. The YAML, TOML and JSON-schema libraries are parameters:
  \<^verbatim>\<open>validator_for\<close> returns the text of the compile error, or the validator as the function
  from a value to the instance path and text of each of its errors.
\<close>

definition FIRST_PARTY_PLUGIN_PREFIX :: string where
  "FIRST_PARTY_PLUGIN_PREFIX = ''ghcr.io/mcpg-dev/plugins/''"

datatype plugin_policy = FirstPartyOnly | AllowCustom

definition is_first_party_plugin_ref :: "string \<Rightarrow> bool" where
  "is_first_party_plugin_ref reference =
     prefix FIRST_PARTY_PLUGIN_PREFIX (trim_start_matches ''oci://'' reference)"

record baked_plugin =
  bp_id :: string

record gateway_capabilities =
  manifest_version :: u32
  gateway_version_text :: string
  plugin_protocol_version :: string
  plugin_abi_layout :: string
  config_schema :: json
  baked_plugins :: "baked_plugin list"

definition MAX_UNDERSTOOD_MANIFEST :: u32 where
  "MAX_UNDERSTOOD_MANIFEST = 1"

record target_violation =
  tv_kind :: string
  detail :: string

record target_validation_error =
  tv_violations :: "target_violation list"

fun show_target_violations :: "nat \<Rightarrow> target_violation list \<Rightarrow> string" where
  "show_target_violations i [] = []"
| "show_target_violations i (v # vs) =
     (if i > 0 then ''; '' else []) @ detail v @ '' ['' @ tv_kind v @ '']''
     @ show_target_violations (Suc i) vs"

definition show_target_error :: "target_validation_error \<Rightarrow> string" where
  "show_target_error e =
     ''config rejected against the platform release ('' @ show_dec (int (length (tv_violations e)))
     @ '' violation(s)): '' @ show_target_violations 0 (tv_violations e)"

section \<open>Plugin sources\<close>

datatype plugin_source = Oci string | Path string

definition plugin_entries :: "json \<Rightarrow> (nat \<times> plugin_source) list" where
  "plugin_entries value =
     (case Option.bind (json_get value ''plugins'') as_array of
        None \<Rightarrow> []
      | Some list \<Rightarrow>
          List.map_filter (\<lambda>(idx, entry).
            (case json_get entry ''source'' of
               None \<Rightarrow> None
             | Some source \<Rightarrow>
                 (case Option.bind (json_get source ''oci'') as_str of
                    Some oci \<Rightarrow> Some (idx, Oci oci)
                  | None \<Rightarrow>
                      (case Option.bind (json_get source ''path'') as_str of
                         Some path \<Rightarrow> Some (idx, Path path)
                       | None \<Rightarrow> None)))) (List.enumerate 0 list))"

definition target_parse_structured ::
    "(string \<Rightarrow> json option) \<Rightarrow> (string \<Rightarrow> json option) \<Rightarrow> string \<Rightarrow> json option" where
  "target_parse_structured yaml toml raw =
     (case Option.bind (yaml raw) (\<lambda>v. if is_object v then Some v else None) of
        Some v \<Rightarrow> Some v
      | None \<Rightarrow> Option.bind (toml raw) (\<lambda>v. if is_object v then Some v else None))"

definition oci_plugin_sources ::
    "(string \<Rightarrow> json option) \<Rightarrow> (string \<Rightarrow> json option) \<Rightarrow> string \<Rightarrow> (nat \<times> string) list" where
  "oci_plugin_sources yaml toml raw =
     (case target_parse_structured yaml toml raw of
        Some value \<Rightarrow>
          List.map_filter (\<lambda>(idx, source).
            (case source of Oci reference \<Rightarrow> Some (idx, reference) | Path _ \<Rightarrow> None))
            (plugin_entries value)
      | None \<Rightarrow> [])"

section \<open>The validation\<close>

type_synonym validator = "json \<Rightarrow> (string \<times> string) list"

definition schema_violations ::
    "(json \<Rightarrow> string + validator) \<Rightarrow> gateway_capabilities \<Rightarrow> json \<Rightarrow> target_violation list" where
  "schema_violations validator_for caps value =
     (case validator_for (config_schema caps) of
        Inr iter_errors \<Rightarrow>
          map (\<lambda>(instance_path, err). \<lparr>tv_kind = ''schema_mismatch'', detail = instance_path @ '': '' @ err\<rparr>)
            (iter_errors value)
      | Inl e \<Rightarrow>
          [\<lparr>tv_kind = ''manifest_not_understood'',
            detail = ''the release'' @ [CHR 0x27]
              @ ''s config schema does not compile: '' @ e\<rparr>])"

definition path_known :: "gateway_capabilities \<Rightarrow> string \<Rightarrow> bool" where
  "path_known caps path =
     list_ex (\<lambda>p. contains_str (''/'' @ bp_id p @ ''/'') path \<or> suffix (bp_id p) path)
       (baked_plugins caps)"

definition source_violations ::
    "gateway_capabilities \<Rightarrow> plugin_policy \<Rightarrow> nat \<times> plugin_source \<Rightarrow> target_violation list" where
  "source_violations caps policy indexed =
     (case indexed of (idx, source) \<Rightarrow>
       (let at = ''plugins['' @ show_dec (int idx) @ '']'' in
        case source of
          Oci reference \<Rightarrow>
            if policy = FirstPartyOnly \<and> \<not> is_first_party_plugin_ref reference
            then [\<lparr>tv_kind = ''plugin_not_first_party'',
                   detail = at @ '': '' @ quoted reference @ '' is not a first-party plugin (''
                     @ quoted (FIRST_PARTY_PLUGIN_PREFIX @ ellipsis) @ '') '' @ em_dash
                     @ '' referencing your own plugins requires an enterprise subscription''\<rparr>]
            else []
        | Path path \<Rightarrow>
            if baked_plugins caps = []
            then [\<lparr>tv_kind = ''plugin_source_not_supported'',
                   detail = at @ '': '' @ quoted path @ '' is a file in the gateway image, and images carry no plugins ''
                     @ em_dash @ '' name the plugin with '' @ quoted ''source.oci'' @ '' (e.g. ''
                     @ quoted (FIRST_PARTY_PLUGIN_PREFIX @ ''<short-name>'')
                     @ '') and the runtime will fetch, verify and cache it''\<rparr>]
            else if \<not> path_known caps path
            then [\<lparr>tv_kind = ''plugin_not_in_release'',
                   detail = at @ '': '' @ quoted path @ '' is not baked into the release image (''
                     @ show_dec (int (length (baked_plugins caps))) @ '' plugin(s) are)''\<rparr>]
            else []))"

definition validate_against_gateway ::
    "(json \<Rightarrow> string + validator) \<Rightarrow> (string \<Rightarrow> json option) \<Rightarrow> (string \<Rightarrow> json option) \<Rightarrow> string
       \<Rightarrow> gateway_capabilities \<Rightarrow> plugin_policy \<Rightarrow> target_validation_error + unit" where
  "validate_against_gateway validator_for yaml toml raw caps policy =
     (if manifest_version caps > MAX_UNDERSTOOD_MANIFEST
      then Inl \<lparr>tv_violations =
             [\<lparr>tv_kind = ''manifest_not_understood'',
               detail = ''the release'' @ [CHR 0x27]
                 @ ''s capability manifest is version '' @ show_dec (uint (manifest_version caps))
                 @ '' and this control plane understands up to ''
                 @ show_dec (uint MAX_UNDERSTOOD_MANIFEST) @ '' '' @ em_dash
                 @ '' refusing to validate rather than guess''\<rparr>]\<rparr>
      else (case target_parse_structured yaml toml raw of
        None \<Rightarrow> Inl \<lparr>tv_violations =
             [\<lparr>tv_kind = ''config_unparseable'',
               detail = ''the config parses as neither YAML nor TOML''\<rparr>]\<rparr>
      | Some value \<Rightarrow>
          (let violations = schema_violations validator_for caps value
                 @ concat (map (source_violations caps policy) (plugin_entries value))
           in if violations = [] then Inr () else Inl \<lparr>tv_violations = violations\<rparr>)))"

section \<open>The verdict\<close>

text \<open>A source the release and the policy admit.\<close>

fun source_ok :: "gateway_capabilities \<Rightarrow> plugin_policy \<Rightarrow> plugin_source \<Rightarrow> bool" where
  "source_ok caps policy (Oci reference) =
     (policy = AllowCustom \<or> is_first_party_plugin_ref reference)"
| "source_ok caps policy (Path path) = path_known caps path"

definition target_ok ::
    "(json \<Rightarrow> string + validator) \<Rightarrow> gateway_capabilities \<Rightarrow> plugin_policy \<Rightarrow> json \<Rightarrow> bool" where
  "target_ok validator_for caps policy value =
     (manifest_version caps \<le> MAX_UNDERSTOOD_MANIFEST
      \<and> (\<exists>iter_errors. validator_for (config_schema caps) = Inr iter_errors \<and> iter_errors value = [])
      \<and> list_all (\<lambda>(idx, source). source_ok caps policy source) (plugin_entries value))"

lemma source_violations_Nil_iff:
  "source_violations caps policy (idx, source) = [] \<longleftrightarrow> source_ok caps policy source"
proof (cases source)
  case (Path path)
  have "baked_plugins caps = [] \<Longrightarrow> \<not> path_known caps path" by (simp add: path_known_def)
  with Path show ?thesis by (simp add: source_violations_def Let_def)
qed (cases policy; simp add: source_violations_def)

lemma schema_violations_Nil_iff:
  "schema_violations validator_for caps value = [] \<longleftrightarrow>
     (\<exists>iter_errors. validator_for (config_schema caps) = Inr iter_errors \<and> iter_errors value = [])"
  by (simp add: schema_violations_def split: sum.split)

interpretation target: reporting_gate "target_parse_structured yaml toml"
  "\<lambda>raw. validate_against_gateway validator_for yaml toml raw caps policy"
  "target_ok validator_for caps policy" tv_violations
  for yaml toml validator_for caps policy
proof
  fix raw cfg e
  show "target_parse_structured yaml toml raw = None \<Longrightarrow>
      isl (validate_against_gateway validator_for yaml toml raw caps policy)"
    by (simp add: validate_against_gateway_def)
  have all: "(\<forall>x \<in> set xs. source_violations caps policy x = []) \<longleftrightarrow>
      list_all (\<lambda>(idx, source). source_ok caps policy source) xs" for xs
    by (auto simp: list_all_iff source_violations_Nil_iff)
  show "target_parse_structured yaml toml raw = Some cfg \<Longrightarrow>
      (validate_against_gateway validator_for yaml toml raw caps policy = Inr ()) =
      target_ok validator_for caps policy cfg"
    by (auto simp: validate_against_gateway_def target_ok_def Let_def schema_violations_Nil_iff all)
  show "validate_against_gateway validator_for yaml toml raw caps policy = Inl e \<Longrightarrow>
      tv_violations e \<noteq> []"
    by (auto simp: validate_against_gateway_def Let_def split: option.splits if_splits)
qed

section \<open>Properties\<close>

text \<open>
  C9: A config is accepted for a release exactly when the release's manifest version is
  understood, the text parses, its schema compiles and reports no error on the document, and
  every plugin source is admitted: an OCI reference is first-party unless the policy allows
  custom ones, and a path names a plugin of the image.
\<close>

theorem target_accepts_iff:
  "validate_against_gateway validator_for yaml toml raw caps policy = Inr () \<longleftrightarrow>
     (\<exists>value. target_parse_structured yaml toml raw = Some value \<and>
        target_ok validator_for caps policy value)"
  by (rule target.admits_iff)

text \<open>
  Under the first-party policy every OCI source of an accepted config, as listed for the
  layout check, is first-party.
\<close>

theorem accepted_sources_first_party:
  assumes "validate_against_gateway validator_for yaml toml raw caps FirstPartyOnly = Inr ()"
    and "(idx, reference) \<in> set (oci_plugin_sources yaml toml raw)"
  shows "is_first_party_plugin_ref reference"
proof -
  obtain cfg where v: "target_parse_structured yaml toml raw = Some cfg"
    "target_ok validator_for caps FirstPartyOnly cfg"
    using assms(1) unfolding target.admits_iff by blast
  with assms(2) have "(idx, Oci reference) \<in> set (plugin_entries cfg)"
    by (auto simp: oci_plugin_sources_def in_set_map_filter split: plugin_source.splits)
  with v(2) show ?thesis by (auto simp: target_ok_def list_all_iff)
qed

definition no_plugins_release :: gateway_capabilities where
  "no_plugins_release = \<lparr>manifest_version = 1, gateway_version_text = ''0.1.0'',
     plugin_protocol_version = ''1.0'', plugin_abi_layout = [], config_schema = JObject [],
     baked_plugins = []\<rparr>"

theorem accepted_sources_first_party_witness:
  "is_first_party_plugin_ref ''oci://ghcr.io/mcpg-dev/plugins/x:1''"
proof -
  let ?r = "''oci://ghcr.io/mcpg-dev/plugins/x:1''"
  let ?cfg = "JObject [(''plugins'', JArray [JObject [(''source'', JObject [(''oci'', JString ?r)])]])]"
  have "validate_against_gateway (\<lambda>_. Inr (\<lambda>_. [])) (\<lambda>_. Some ?cfg) (\<lambda>_. None) ''r''
      no_plugins_release FirstPartyOnly = Inr ()"
    and "(0, ?r) \<in> set (oci_plugin_sources (\<lambda>_. Some ?cfg) (\<lambda>_. None) ''r'')"
    by code_simp+
  then show ?thesis by (rule accepted_sources_first_party)
qed

text \<open>
  A baked plugin is matched by the end of the path with no separator before it, so a path
  that names another file is taken for one the image carries.
\<close>

theorem path_matched_without_separator:
  "path_known (no_plugins_release\<lparr>baked_plugins := [\<lparr>bp_id = ''oidc''\<rparr>]\<rparr>) ''/opt/not-oidc''"
  by code_simp

end
