(* ===== verification/Entitlements.thy ===== *)
theory Entitlements imports PublishGuard TargetValidate begin

text \<open>
  The license half of \<^verbatim>\<open>src/src/publish_guard.rs\<close>: what a plan's claims withhold from a
  published config. The license crate is library code: the record \<^verbatim>\<open>license_api\<close> holds the
  functions and constants of it that the guard uses, over an abstract type of claims, and every
  check takes it as an argument. \<^verbatim>\<open>to_string\<close> is the JSON printer, a parameter too.
\<close>

datatype license_error = FeatureNotLicensed string | OtherLicenseError

record 'claims license_api =
  has_feature :: "'claims \<Rightarrow> string \<Rightarrow> bool"
  plan :: "'claims \<Rightarrow> string"
  quota_plugins :: "'claims \<Rightarrow> u64"
  event_types_for :: "'claims \<Rightarrow> string \<Rightarrow> u64"
  plugin_load_violation :: "'claims \<Rightarrow> string \<Rightarrow> license_error option"
  admits_platform_coordinator :: "'claims \<Rightarrow> string \<Rightarrow> bool"
  plan_allows_custom_plugins :: "string \<Rightarrow> bool"
  FEATURE_DPOP :: string
  FEATURE_EVENTS_WEBHOOKS :: string
  FEATURE_INTERACTIVE_LOGIN :: string
  FEATURE_RICH_AUTHORIZATION :: string
  FEATURE_CUSTOM_PLUGINS :: string
  PLATFORM_COORDINATOR_PLUGIN :: string

section \<open>Licensed surfaces\<close>

definition SERVER :: string where
  "SERVER = ''governance.access.authorization_server''"

definition login_surfaces :: "'c license_api \<Rightarrow> json \<Rightarrow> (string \<times> string) list" where
  "login_surfaces lic server =
     (case Option.bind (json_get server ''trusted_idps'') as_array of
        None \<Rightarrow> []
      | Some idps \<Rightarrow>
          concat (map (\<lambda>(index, idp).
            if is_present_object (json_get idp ''login'')
            then [(FEATURE_INTERACTIVE_LOGIN lic,
                   (case Option.bind (json_get idp ''issuer'') as_str of
                      Some issuer \<Rightarrow> SERVER @ ''.trusted_idps['' @ quoted (truncate_str issuer) @ ''].login''
                    | None \<Rightarrow> SERVER @ ''.trusted_idps['' @ show_dec (int index) @ ''].login''))]
            else []) (List.enumerate 0 idps)))"

definition licensed_config_surfaces :: "'c license_api \<Rightarrow> json \<Rightarrow> (string \<times> string) list" where
  "licensed_config_surfaces lic cfg =
     (case pointer [''mcp'', ''configurations'', ''events''] cfg of
        Some events \<Rightarrow>
          if json_get events ''enabled'' = Some (JBool True)
             \<and> pointer [''webhook'', ''enabled''] events \<noteq> Some (JBool False)
          then [(FEATURE_EVENTS_WEBHOOKS lic, ''mcp.configurations.events.webhook'')] else []
      | None \<Rightarrow> [])
     @ (case pointer [''governance'', ''access'', ''authorization_server''] cfg of
          None \<Rightarrow> []
        | Some server \<Rightarrow>
            login_surfaces lic server
            @ (if is_present_object (json_get server ''interactive'')
               then [(FEATURE_INTERACTIVE_LOGIN lic, SERVER @ ''.interactive'')] else [])
            @ (if pointer [''dpop'', ''enabled''] server = Some (JBool True)
               then [(FEATURE_DPOP lic, SERVER @ ''.dpop'')] else [])
            @ (case Option.bind (pointer [''authorization_details'', ''types''] server) as_array of
                 Some types \<Rightarrow>
                   if types \<noteq> [] then [(FEATURE_RICH_AUTHORIZATION lic, SERVER @ ''.authorization_details'')]
                   else []
               | None \<Rightarrow> []))"

definition not_granted :: "string \<Rightarrow> string \<Rightarrow> string \<Rightarrow> string" where
  "not_granted path feature plan_name =
     path @ '' needs the '' @ quoted feature @ '' license feature, which plan '' @ quoted plan_name
     @ '' does not grant''"

section \<open>Custom plugins\<close>

definition allows_custom_plugins :: "'c license_api \<Rightarrow> 'c \<Rightarrow> bool" where
  "allows_custom_plugins lic claims =
     (has_feature lic claims (FEATURE_CUSTOM_PLUGINS lic)
      \<or> plan_allows_custom_plugins lic (plan lic claims))"

definition MANAGED_SIGNATURE_POLICY :: string where
  "MANAGED_SIGNATURE_POLICY = ''enforce''"

definition REGISTRY_KEYS_ANY_PLAN :: "string list" where
  "REGISTRY_KEYS_ANY_PLAN =
     [''cache_dir'', ''revocation_list_path'', ''require_integrity_anchor'', ''default_signature_policy'']"

definition sets_something :: "json \<Rightarrow> bool" where
  "sets_something v =
     (case v of JNull \<Rightarrow> False | JArray items \<Rightarrow> items \<noteq> [] | JObject m \<Rightarrow> m \<noteq> [] | _ \<Rightarrow> True)"

definition shown_policy :: "(json \<Rightarrow> string) \<Rightarrow> json \<Rightarrow> string" where
  "shown_policy to_string policy = (case as_str policy of Some s \<Rightarrow> s | None \<Rightarrow> to_string policy)"

text \<open>A policy that is set and is not the managed one, as both readers of a policy filter it.\<close>

definition foreign_policy :: "json option \<Rightarrow> json option" where
  "foreign_policy node =
     (case node of
        Some v \<Rightarrow> if sets_something v \<and> as_str v \<noteq> Some MANAGED_SIGNATURE_POLICY then Some v else None
      | None \<Rightarrow> None)"

definition registry_surfaces :: "json \<Rightarrow> string list" where
  "registry_surfaces cfg =
     (case Option.bind (pointer [''gateway'', ''plugin_registry''] cfg) as_object of
        None \<Rightarrow> []
      | Some registry \<Rightarrow>
          map (\<lambda>(key, v). ''gateway.plugin_registry.'' @ key)
            (filter (\<lambda>(key, v). key \<notin> set REGISTRY_KEYS_ANY_PLAN \<and> sets_something v) registry))"

definition entry_at :: "nat \<Rightarrow> string" where
  "entry_at index = ''plugins['' @ show_dec (int index) @ '']''"

definition entry_surfaces :: "(json \<Rightarrow> string) \<Rightarrow> nat \<times> json \<Rightarrow> string list" where
  "entry_surfaces to_string indexed =
     (case indexed of (index, entry) \<Rightarrow>
        (case Option.bind (pointer [''source'', ''oci''] entry) as_str of
           Some oci \<Rightarrow>
             if \<not> is_first_party_plugin_ref oci
             then [entry_at index @ ''.source.oci '' @ quoted (truncate_str oci)] else []
         | None \<Rightarrow> [])
        @ (case pointer [''signature'', ''trusted_keys''] entry of
             Some v \<Rightarrow> if sets_something v then [entry_at index @ ''.signature.trusted_keys''] else []
           | None \<Rightarrow> [])
        @ (case foreign_policy (pointer [''signature'', ''policy''] entry) of
             Some policy \<Rightarrow>
               [entry_at index @ ''.signature.policy '' @ quoted (truncate_str (shown_policy to_string policy))]
           | None \<Rightarrow> []))"

definition plugin_list :: "json \<Rightarrow> json list" where
  "plugin_list cfg = (case Option.bind (json_get cfg ''plugins'') as_array of Some es \<Rightarrow> es | None \<Rightarrow> [])"

definition custom_plugin_surfaces :: "(json \<Rightarrow> string) \<Rightarrow> json \<Rightarrow> string list" where
  "custom_plugin_surfaces to_string cfg =
     registry_surfaces cfg
     @ concat (map (entry_surfaces to_string) (List.enumerate 0 (plugin_list cfg)))"

section \<open>Plugins the platform injects\<close>

definition PLATFORM_INJECTED_PLUGINS :: "'c license_api \<Rightarrow> string list" where
  "PLATFORM_INJECTED_PLUGINS lic = [PLATFORM_COORDINATOR_PLUGIN lic]"

definition is_platform_injected_plugin :: "'c license_api \<Rightarrow> string \<Rightarrow> bool" where
  "is_platform_injected_plugin lic plugin = (plugin \<in> set (PLATFORM_INJECTED_PLUGINS lic))"

definition loads_platform_injected_plugin :: "'c license_api \<Rightarrow> json \<Rightarrow> bool" where
  "loads_platform_injected_plugin lic entry =
     (case (case Option.bind (json_get entry ''ref'') as_str of
              Some r \<Rightarrow> Some r
            | None \<Rightarrow> Option.bind (json_get entry ''id'') as_str) of
        Some manifest_id \<Rightarrow> is_platform_injected_plugin lic manifest_id
      | None \<Rightarrow> False)"

section \<open>Entitlements of single plugins\<close>

definition check_plugin ::
    "'c license_api \<Rightarrow> 'c \<Rightarrow> string \<Rightarrow> string \<Rightarrow> violation list \<Rightarrow> violation list" where
  "check_plugin lic claims at0 plugin vs =
     (let at = at0 @ '' '' @ quoted (truncate_str plugin) in
      case plugin_load_violation lic claims plugin of
        None \<Rightarrow> vs
      | Some (FeatureNotLicensed feature) \<Rightarrow>
          vs @ [\<lparr>kind = ''feature_not_licensed'', snippet = not_granted at feature (plan lic claims)\<rparr>]
      | Some _ \<Rightarrow>
          vs @ [\<lparr>kind = ''plugin_not_entitled'',
                 snippet = at @ '' is not among the plugins plan '' @ quoted (plan lic claims) @ '' entitles''\<rparr>])"

text \<open>The names an entry is checked under: its id, and its ref when that differs.\<close>

definition named_plugins :: "nat \<times> json \<Rightarrow> (string \<times> string option) list" where
  "named_plugins indexed =
     (case indexed of (index, entry) \<Rightarrow>
       (let id = Option.bind (json_get entry ''id'') as_str;
            reference = Option.bind (Option.bind (json_get entry ''ref'') as_str)
                          (\<lambda>r. if Some r \<noteq> id then Some r else None)
        in [(entry_at index, id), (entry_at index @ ''.ref'', reference)]))"

definition check_named_plugin ::
    "'c license_api \<Rightarrow> 'c \<Rightarrow> string \<times> string option \<Rightarrow> violation list \<Rightarrow> violation list" where
  "check_named_plugin lic claims named vs =
     (case named of
        (at, Some plugin) \<Rightarrow>
          if admits_platform_coordinator lic claims plugin then vs
          else check_plugin lic claims at plugin vs
      | (at, None) \<Rightarrow> vs)"

definition check_plugin_entitlements ::
    "'c license_api \<Rightarrow> json \<Rightarrow> 'c \<Rightarrow> violation list \<Rightarrow> violation list" where
  "check_plugin_entitlements lic cfg claims vs =
     fold (\<lambda>indexed vs. fold (check_named_plugin lic claims) (named_plugins indexed) vs)
       (List.enumerate 0 (plugin_list cfg)) vs"

section \<open>The gates\<close>

definition check_config_entitlements ::
    "'c license_api \<Rightarrow> (json \<Rightarrow> string) \<Rightarrow> (string \<Rightarrow> json option) \<Rightarrow> (string \<Rightarrow> json option)
       \<Rightarrow> string \<Rightarrow> 'c \<Rightarrow> publish_guard_error + unit" where
  "check_config_entitlements lic to_string yaml toml raw claims =
     (case parse_structured yaml toml raw of
        None \<Rightarrow> Inl unparseable
      | Some cfg \<Rightarrow>
          (let vs = map (\<lambda>(feature, path).
                 \<lparr>kind = ''feature_not_licensed'', snippet = not_granted path feature (plan lic claims)\<rparr>)
               (filter (\<lambda>(feature, _). \<not> has_feature lic claims feature) (licensed_config_surfaces lic cfg));
               vs = check_plugin_entitlements lic cfg claims vs;
               vs = (if \<not> allows_custom_plugins lic claims
                     then vs @ map (\<lambda>path. \<lparr>kind = ''feature_not_licensed'',
                            snippet = not_granted path (FEATURE_CUSTOM_PLUGINS lic) (plan lic claims)\<rparr>)
                          (custom_plugin_surfaces to_string cfg)
                     else vs)
           in if vs = [] then Inr () else Inl \<lparr>violations = vs\<rparr>))"

definition check_plugin_quota ::
    "'c license_api \<Rightarrow> (string \<Rightarrow> json option) \<Rightarrow> (string \<Rightarrow> json option) \<Rightarrow> string \<Rightarrow> 'c
       \<Rightarrow> publish_guard_error + unit" where
  "check_plugin_quota lic yaml toml raw claims =
     (case parse_structured yaml toml raw of
        None \<Rightarrow> Inl unparseable
      | Some cfg \<Rightarrow>
          (let limit = quota_plugins lic claims;
               listed = (case Option.bind (json_get cfg ''plugins'') as_array of
                           Some entries \<Rightarrow>
                             length (filter (\<lambda>e. \<not> loads_platform_injected_plugin lic e) entries)
                         | None \<Rightarrow> 0)
           in if limit = 0 \<or> listed \<le> unat limit then Inr ()
              else Inl \<lparr>violations = [\<lparr>kind = ''plugin_quota_exceeded'',
                     snippet = ''plugins lists '' @ show_dec (int listed) @ '' entries and plan ''
                       @ quoted (plan lic claims) @ '' includes '' @ show_dec (uint limit)\<rparr>]\<rparr>))"

definition check_event_type_quota ::
    "'c license_api \<Rightarrow> (string \<Rightarrow> json option) \<Rightarrow> (string \<Rightarrow> json option) \<Rightarrow> string \<Rightarrow> 'c
       \<Rightarrow> publish_guard_error + unit" where
  "check_event_type_quota lic yaml toml raw claims =
     (case parse_structured yaml toml raw of
        None \<Rightarrow> Inl unparseable
      | Some cfg \<Rightarrow>
          (let limit = event_types_for lic claims (plan lic claims);
               declared = (case Option.bind (pointer [''mcp'', ''capabilities'', ''events''] cfg) as_array of
                             Some types \<Rightarrow> length types | None \<Rightarrow> 0)
           in if limit = 0 \<or> declared \<le> unat limit then Inr ()
              else Inl \<lparr>violations = [\<lparr>kind = ''event_type_quota_exceeded'',
                     snippet = ''mcp.capabilities.events declares '' @ show_dec (int declared)
                       @ '' event types and plan '' @ quoted (plan lic claims) @ '' serves ''
                       @ show_dec (uint limit)\<rparr>]\<rparr>))"

definition cluster_warning :: string where
  "cluster_warning =
     quoted ''cluster'' @ '' is ignored: on the managed service the platform owns clustering and ''
     @ ''supplies the coordinator of an instance with more than one replica''"

definition managed_publish_warnings ::
    "(json \<Rightarrow> string) \<Rightarrow> (string \<Rightarrow> json option) \<Rightarrow> (string \<Rightarrow> json option) \<Rightarrow> string \<Rightarrow> string list" where
  "managed_publish_warnings to_string yaml toml raw =
     (case parse_structured yaml toml raw of
        None \<Rightarrow> []
      | Some cfg \<Rightarrow>
          (case json_get cfg ''cluster'' of
             Some v \<Rightarrow> if sets_something v then [cluster_warning] else []
           | None \<Rightarrow> [])
          @ (case foreign_policy (pointer [''gateway'', ''plugin_registry'', ''default_signature_policy''] cfg) of
               Some policy \<Rightarrow>
                 [[CHR 0x60] @ ''gateway.plugin_registry.default_signature_policy: ''
                  @ truncate_str (shown_policy to_string policy) @ [CHR 0x60]
                  @ '' is ignored: managed gateways verify plugin signatures (''
                  @ quoted MANAGED_SIGNATURE_POLICY @ '')'']
             | None \<Rightarrow> []))"

section \<open>Verdicts\<close>

text \<open>A plugin name the claims refuse to load.\<close>

definition name_refused :: "'c license_api \<Rightarrow> 'c \<Rightarrow> string \<times> string option \<Rightarrow> bool" where
  "name_refused lic claims named =
     (\<exists>plugin. snd named = Some plugin \<and> \<not> admits_platform_coordinator lic claims plugin
        \<and> plugin_load_violation lic claims plugin \<noteq> None)"

lemma check_named_plugin_grows:
  "(\<exists>ys. check_named_plugin lic claims named vs = vs @ ys) \<and>
   (check_named_plugin lic claims named vs = [] \<longleftrightarrow> vs = [] \<and> \<not> name_refused lic claims named)"
  by (auto simp: check_named_plugin_def check_plugin_def name_refused_def Let_def
        split: prod.split option.split license_error.split)

lemma check_plugin_entitlements_Nil_iff:
  "check_plugin_entitlements lic cfg claims vs = [] \<longleftrightarrow>
     vs = [] \<and> \<not> list_ex (\<lambda>i. list_ex (name_refused lic claims) (named_plugins i))
       (List.enumerate 0 (plugin_list cfg))"
  unfolding check_plugin_entitlements_def
  by (rule fold_grows [THEN conjunct2]) (rule fold_grows, rule check_named_plugin_grows)

text \<open>The id and the ref of an entry, as texts.\<close>

definition entry_names :: "json \<Rightarrow> string set" where
  "entry_names entry =
     {plugin. json_get entry ''id'' = Some (JString plugin) \<or> json_get entry ''ref'' = Some (JString plugin)}"

lemma named_plugins_refused:
  "list_ex (name_refused lic claims) (named_plugins (i, entry)) \<longleftrightarrow>
     (\<exists>plugin \<in> entry_names entry. \<not> admits_platform_coordinator lic claims plugin
        \<and> plugin_load_violation lic claims plugin \<noteq> None)"
proof -
  define id where "id = Option.bind (json_get entry ''id'') as_str"
  define ref where "ref = Option.bind (json_get entry ''ref'') as_str"
  have names: "entry_names entry = {p. id = Some p \<or> ref = Some p}"
    by (auto simp: entry_names_def id_def ref_def bind_eq_Some_conv as_str_Some_iff)
  have "named_plugins (i, entry) =
      [(entry_at i, id), (entry_at i @ ''.ref'', Option.bind ref (\<lambda>r. if Some r \<noteq> id then Some r else None))]"
    by (simp only: named_plugins_def Let_def prod.case id_def ref_def)
  then show ?thesis
    unfolding names by (cases id; cases ref) (auto simp: name_refused_def)
qed

definition plugins_entitled :: "'c license_api \<Rightarrow> 'c \<Rightarrow> json \<Rightarrow> bool" where
  "plugins_entitled lic claims cfg =
     (\<forall>entry \<in> set (plugin_list cfg). \<forall>plugin \<in> entry_names entry.
        admits_platform_coordinator lic claims plugin \<or> plugin_load_violation lic claims plugin = None)"

lemma enumerate_ex:
  assumes "\<And>i x. P (i, x) \<longleftrightarrow> Q x"
  shows "list_ex P (List.enumerate n xs) \<longleftrightarrow> (\<exists>x \<in> set xs. Q x)"
  using assms by (induction xs arbitrary: n) auto

lemma check_plugin_entitlements_verdict:
  "check_plugin_entitlements lic cfg claims [] = [] \<longleftrightarrow> plugins_entitled lic claims cfg"
  using enumerate_ex [of "\<lambda>x. list_ex (name_refused lic claims) (named_plugins x)", OF named_plugins_refused,
      of 0 "plugin_list cfg"]
  unfolding check_plugin_entitlements_Nil_iff plugins_entitled_def by auto

text \<open>A config that reaches no plugin the platform did not publish.\<close>

definition entry_first_party :: "json \<Rightarrow> bool" where
  "entry_first_party entry =
     ((\<forall>oci. pointer [''source'', ''oci''] entry = Some (JString oci) \<longrightarrow> is_first_party_plugin_ref oci)
      \<and> (\<forall>v. pointer [''signature'', ''trusted_keys''] entry = Some v \<longrightarrow> \<not> sets_something v)
      \<and> (\<forall>v. pointer [''signature'', ''policy''] entry = Some v \<longrightarrow>
            sets_something v \<longrightarrow> v = JString MANAGED_SIGNATURE_POLICY))"

definition no_custom_plugins :: "json \<Rightarrow> bool" where
  "no_custom_plugins cfg =
     ((\<forall>registry. pointer [''gateway'', ''plugin_registry''] cfg = Some (JObject registry) \<longrightarrow>
         (\<forall>(key, v) \<in> set registry. key \<in> set REGISTRY_KEYS_ANY_PLAN \<or> \<not> sets_something v))
      \<and> (\<forall>entry \<in> set (plugin_list cfg). entry_first_party entry))"

lemma entry_surfaces_Nil_iff:
  "entry_surfaces to_string (i, entry) = [] \<longleftrightarrow> entry_first_party entry"
proof -
  have "(case Option.bind node as_str of Some s \<Rightarrow> if P s then [f s] else [] | None \<Rightarrow> []) = []
      \<longleftrightarrow> (\<forall>s. node = Some (JString s) \<longrightarrow> \<not> P s)" for node P and f :: "string \<Rightarrow> string"
  proof (cases node)
    case (Some v)
    then show ?thesis by (cases v) auto
  qed simp
  then show ?thesis
    by (auto simp: entry_surfaces_def entry_first_party_def foreign_policy_def as_str_Some_iff
          simp del: pointer.simps split: option.split)
qed

lemma custom_plugin_surfaces_Nil_iff:
  "custom_plugin_surfaces to_string cfg = [] \<longleftrightarrow> no_custom_plugins cfg"
proof -
  have "registry_surfaces cfg = [] \<longleftrightarrow>
      (\<forall>registry. pointer [''gateway'', ''plugin_registry''] cfg = Some (JObject registry) \<longrightarrow>
         (\<forall>(key, v) \<in> set registry. key \<in> set REGISTRY_KEYS_ANY_PLAN \<or> \<not> sets_something v))"
  proof (cases "pointer [''gateway'', ''plugin_registry''] cfg")
    case (Some v)
    then show ?thesis by (cases v) (auto simp: registry_surfaces_def filter_empty_conv simp del: pointer.simps)
  qed (simp add: registry_surfaces_def del: pointer.simps)
  moreover have "concat (map (entry_surfaces to_string) (List.enumerate 0 (plugin_list cfg))) = [] \<longleftrightarrow>
      \<not> list_ex (\<lambda>x. entry_surfaces to_string x \<noteq> []) (List.enumerate 0 (plugin_list cfg))"
    by (auto simp: list_ex_iff)
  moreover have "\<dots> \<longleftrightarrow> (\<forall>entry \<in> set (plugin_list cfg). entry_first_party entry)"
    using enumerate_ex [of "\<lambda>x. entry_surfaces to_string x \<noteq> []" "\<lambda>e. \<not> entry_first_party e"]
    by (simp add: entry_surfaces_Nil_iff)
  ultimately show ?thesis by (simp add: custom_plugin_surfaces_def no_custom_plugins_def)
qed

definition entitled :: "'c license_api \<Rightarrow> 'c \<Rightarrow> json \<Rightarrow> bool" where
  "entitled lic claims cfg =
     ((\<forall>(feature, path) \<in> set (licensed_config_surfaces lic cfg). has_feature lic claims feature)
      \<and> plugins_entitled lic claims cfg
      \<and> (allows_custom_plugins lic claims \<or> no_custom_plugins cfg))"

definition within_quota :: "u64 \<Rightarrow> nat \<Rightarrow> bool" where
  "within_quota limit n = (limit = 0 \<or> n \<le> unat limit)"

interpretation entitlement: reporting_gate "parse_structured yaml toml"
  "\<lambda>raw. check_config_entitlements lic to_string yaml toml raw claims" "entitled lic claims" violations
  for yaml toml lic to_string claims
proof
  fix raw cfg e
  show "parse_structured yaml toml raw = None \<Longrightarrow>
      isl (check_config_entitlements lic to_string yaml toml raw claims)"
    by (simp add: check_config_entitlements_def)
  have surf: "filter (\<lambda>(feature, _). \<not> has_feature lic claims feature) (licensed_config_surfaces lic cfg) = []
      \<longleftrightarrow> (\<forall>(feature, path) \<in> set (licensed_config_surfaces lic cfg). has_feature lic claims feature)"
    by (auto simp: filter_empty_conv)
  show "parse_structured yaml toml raw = Some cfg \<Longrightarrow>
      (check_config_entitlements lic to_string yaml toml raw claims = Inr ()) = entitled lic claims cfg"
    using check_plugin_entitlements_Nil_iff [of lic cfg claims]
      check_plugin_entitlements_verdict [of lic cfg claims]
    by (simp add: check_config_entitlements_def entitled_def Let_def surf
          custom_plugin_surfaces_Nil_iff)
  show "check_config_entitlements lic to_string yaml toml raw claims = Inl e \<Longrightarrow> violations e \<noteq> []"
    by (auto simp: check_config_entitlements_def Let_def unparseable_def split: option.splits if_splits)
qed

interpretation plugin_quota: reporting_gate "parse_structured yaml toml"
  "\<lambda>raw. check_plugin_quota lic yaml toml raw claims"
  "\<lambda>cfg. within_quota (quota_plugins lic claims)
     (length (filter (\<lambda>e. \<not> loads_platform_injected_plugin lic e) (plugin_list cfg)))" violations
  for yaml toml lic claims
  by unfold_locales
    (auto simp: check_plugin_quota_def within_quota_def plugin_list_def unparseable_def Let_def
       split: option.splits if_splits)

interpretation event_quota: reporting_gate "parse_structured yaml toml"
  "\<lambda>raw. check_event_type_quota lic yaml toml raw claims"
  "\<lambda>cfg. within_quota (event_types_for lic claims (plan lic claims))
     (case pointer [''mcp'', ''capabilities'', ''events''] cfg of Some (JArray types) \<Rightarrow> length types | _ \<Rightarrow> 0)"
  violations for yaml toml lic claims
proof
  fix raw cfg e
  have n: "(case Option.bind node as_array of Some types \<Rightarrow> length types | None \<Rightarrow> 0) =
      (case node of Some (JArray types) \<Rightarrow> length types | _ \<Rightarrow> 0)" for node
    by (cases node) (auto split: json.split)
  show "parse_structured yaml toml raw = None \<Longrightarrow> isl (check_event_type_quota lic yaml toml raw claims)"
    by (simp add: check_event_type_quota_def)
  show "parse_structured yaml toml raw = Some cfg \<Longrightarrow>
      (check_event_type_quota lic yaml toml raw claims = Inr ()) =
      within_quota (event_types_for lic claims (plan lic claims))
        (case pointer [''mcp'', ''capabilities'', ''events''] cfg of Some (JArray types) \<Rightarrow> length types | _ \<Rightarrow> 0)"
    by (simp add: check_event_type_quota_def within_quota_def Let_def n del: pointer.simps)
  show "check_event_type_quota lic yaml toml raw claims = Inl e \<Longrightarrow> violations e \<noteq> []"
    by (auto simp: check_event_type_quota_def Let_def unparseable_def simp del: pointer.simps
          split: option.splits if_splits)
qed

section \<open>Properties\<close>

text \<open>
  C5: The entitlement gate admits a text exactly when it parses, the claims hold the feature of
  every licensed surface, every id and ref of a plugin entry is one the claims may load or the
  platform's coordinator as the license admits it, and, unless custom plugins are allowed, the
  config reaches no plugin, key or registry that is not first-party.
\<close>

theorem entitlements_admit_iff:
  "check_config_entitlements lic to_string yaml toml raw claims = Inr () \<longleftrightarrow>
     (\<exists>cfg. parse_structured yaml toml raw = Some cfg \<and> entitled lic claims cfg)"
  by (rule entitlement.admits_iff)

text \<open>
  The two quota gates: a text that parses passes exactly when the limit is zero (unlimited) or
  the count does not exceed it, where the plugin count leaves out the entries that load a
  platform-injected plugin. A text that does not parse is refused by both.
\<close>

theorem quotas_admit_iff:
  "(check_plugin_quota lic yaml toml raw claims = Inr () \<longleftrightarrow>
     (\<exists>cfg. parse_structured yaml toml raw = Some cfg \<and>
        within_quota (quota_plugins lic claims)
          (length (filter (\<lambda>e. \<not> loads_platform_injected_plugin lic e) (plugin_list cfg))))) \<and>
   (check_event_type_quota lic yaml toml raw claims = Inr () \<longleftrightarrow>
     (\<exists>cfg. parse_structured yaml toml raw = Some cfg \<and>
        within_quota (event_types_for lic claims (plan lic claims))
          (case pointer [''mcp'', ''capabilities'', ''events''] cfg of
             Some (JArray types) \<Rightarrow> length types | _ \<Rightarrow> 0)))"
  by (rule conjI [OF plugin_quota.admits_iff event_quota.admits_iff])

text \<open>
  An entry is left out of the quota by the plugin it loads: its ref when it has one, whatever
  its id is, and its id only without a ref.
\<close>

theorem injected_by_manifest_id:
  "loads_platform_injected_plugin lic entry \<longleftrightarrow>
     json_get entry ''ref'' = Some (JString (PLATFORM_COORDINATOR_PLUGIN lic)) \<or>
     ((\<nexists>r. json_get entry ''ref'' = Some (JString r)) \<and>
      json_get entry ''id'' = Some (JString (PLATFORM_COORDINATOR_PLUGIN lic)))"
proof -
  have str: "Option.bind node as_str = Some p \<longleftrightarrow> node = Some (JString p)" for node p
    by (auto simp: bind_eq_Some_conv as_str_Some_iff)
  have no: "(\<nexists>r. node = Some (JString r)) \<longleftrightarrow> Option.bind node as_str = None" for node
    using str [of node] by (cases "Option.bind node as_str") auto
  define ref where "ref = Option.bind (json_get entry ''ref'') as_str"
  define id where "id = Option.bind (json_get entry ''id'') as_str"
  have "loads_platform_injected_plugin lic entry \<longleftrightarrow>
      (case (case ref of Some r \<Rightarrow> Some r | None \<Rightarrow> id) of
         Some m \<Rightarrow> m = PLATFORM_COORDINATOR_PLUGIN lic | None \<Rightarrow> False)"
    unfolding loads_platform_injected_plugin_def ref_def id_def is_platform_injected_plugin_def
      PLATFORM_INJECTED_PLUGINS_def by (auto split: option.split)
  moreover have "\<dots> \<longleftrightarrow> ref = Some (PLATFORM_COORDINATOR_PLUGIN lic) \<or>
      (ref = None \<and> id = Some (PLATFORM_COORDINATOR_PLUGIN lic))"
    by (auto split: option.split)
  ultimately show ?thesis unfolding ref_def id_def str no by simp
qed

text \<open>
  A publish answers with no warning exactly when the config does not parse, or sets neither a
  cluster block nor a default signature policy other than the managed one.
\<close>

theorem no_warnings_iff:
  "managed_publish_warnings to_string yaml toml raw = [] \<longleftrightarrow>
     \<not> (\<exists>cfg. parse_structured yaml toml raw = Some cfg \<and>
        (\<exists>v. sets_something v \<and>
           (json_get cfg ''cluster'' = Some v \<or>
            pointer [''gateway'', ''plugin_registry'', ''default_signature_policy''] cfg = Some v
              \<and> v \<noteq> JString MANAGED_SIGNATURE_POLICY)))"
  by (auto simp: managed_publish_warnings_def foreign_policy_def as_str_Some_iff
        simp del: pointer.simps split: option.split)

end
