(* ===== verification/F64.thy ===== *)
theory F64 imports Complex_Main "HOL-Library.Log_Nat" begin

text \<open>
  The finite, non-negative \<^verbatim>\<open>f64\<close> values the rate limiter computes with, as the rationals they
  stand for: every operation is the exact one followed by \<^verbatim>\<open>f64_round\<close>, rounding to 53
  significant bits, ties to even. There is no bound on the exponent: every number the limiter
  rounds is zero or lies between \<^verbatim>\<open>2 ^ - 60\<close> and \<^verbatim>\<open>2 ^ 131\<close> (theory \<^verbatim>\<open>RateRange\<close>), so neither subnormal
  numbers nor overflow occur.
\<close>

definition round_half_even :: "rat \<Rightarrow> int" where
  "round_half_even y =
     (let f = floor y; d = y - of_int f
      in if d < 1 / 2 \<or> (d = 1 / 2 \<and> even f) then f else f + 1)"

text \<open>The binary exponent of a positive value.\<close>

definition f64_exponent :: "rat \<Rightarrow> int" where
  "f64_exponent x =
     (case quotient_of x of (a, b) \<Rightarrow>
       (let e = bitlen a - bitlen b in if 2 powi e \<le> x then e else e - 1))"

definition f64_round_pos :: "rat \<Rightarrow> rat" where
  "f64_round_pos x =
     (let ulp = 2 powi (f64_exponent x - 52) in of_int (round_half_even (x / ulp)) * ulp)"

definition f64_round :: "rat \<Rightarrow> rat" where
  "f64_round x =
     (if x = 0 then 0 else if x > 0 then f64_round_pos x else - f64_round_pos (- x))"

section \<open>What rounding promises\<close>

locale float_rounding =
  fixes rnd :: "rat \<Rightarrow> rat" and u :: rat and exact_below :: int
  assumes rel_error: "0 \<le> x \<Longrightarrow> \<bar>rnd x - x\<bar> \<le> x * u"
    and exact_int: "0 \<le> n \<Longrightarrow> n < exact_below \<Longrightarrow> rnd (of_int n) = of_int n"
    and idem: "0 \<le> x \<Longrightarrow> rnd (rnd x) = rnd x"
    and u_range: "0 \<le> u" "u < 1"
begin

lemma rnd_upper: "0 \<le> x \<Longrightarrow> rnd x \<le> x * (1 + u)"
  using rel_error [of x] by (simp add: distrib_left)

lemma rnd_lower: "0 \<le> x \<Longrightarrow> x * (1 - u) \<le> rnd x"
  using rel_error [of x] by (simp add: right_diff_distrib)

lemma rnd_nonneg: "0 \<le> x \<Longrightarrow> 0 \<le> rnd x"
proof -
  assume x: "0 \<le> x"
  have "x * u \<le> x * 1" using u_range x by (intro mult_left_mono) auto
  with rel_error [OF x] show ?thesis by simp
qed

lemma rnd_pos:
  assumes "0 < x"
  shows "0 < rnd x"
proof -
  have "x * u < x * 1" using u_range assms by (intro mult_strict_left_mono) auto
  moreover have "x - x * u \<le> rnd x" using rel_error [of x] assms by linarith
  ultimately show ?thesis by linarith
qed

lemma rnd_lower_le: "0 \<le> x \<Longrightarrow> y \<le> x \<Longrightarrow> y * (1 - u) \<le> rnd x"
  using rnd_lower [of x] mult_right_mono [of y x "1 - u"] u_range by linarith

lemma rnd_upper_le: "0 \<le> x \<Longrightarrow> x \<le> y \<Longrightarrow> rnd x \<le> y * (1 + u)"
  using rnd_upper [of x] mult_right_mono [of x y "1 + u"] u_range by linarith

end

section \<open>The concrete rounding\<close>

lemma round_half_even_error: "\<bar>of_int (round_half_even y) - y\<bar> \<le> 1 / 2"
  using floor_correct [of y] by (auto simp: round_half_even_def Let_def)

lemma round_half_even_int: "round_half_even (of_int n) = n"
  by (simp add: round_half_even_def)

lemma bitlen_powi:
  assumes "0 < a"
  shows "2 powi (bitlen a - 1) \<le> (of_int a :: rat)" "(of_int a :: rat) < 2 powi bitlen a"
proof -
  have "0 < bitlen a" using assms bitlen_eq_zero_iff [of a] bitlen_nonneg [of a] by linarith
  moreover have "(2 :: rat) powi n = of_int (2 ^ nat n)" if "0 \<le> n" for n
    using that by (simp add: power_int_def)
  moreover have "2 ^ nat (bitlen a - 1) \<le> a" "a < 2 ^ nat (bitlen a)"
    using bitlen_bounds [OF assms] by auto
  ultimately show "2 powi (bitlen a - 1) \<le> (of_int a :: rat)" "(of_int a :: rat) < 2 powi bitlen a"
    by (simp_all del: of_int_power)
qed

lemma f64_exponent_bounds:
  assumes "0 < x"
  shows "2 powi f64_exponent x \<le> x" "x < 2 powi (f64_exponent x + 1)"
proof -
  obtain a b where q: "quotient_of x = (a, b)" by (cases "quotient_of x")
  have b: "0 < b" by (rule quotient_of_denom_pos [OF q])
  have x: "x = of_int a / of_int b" by (rule quotient_of_div [OF q])
  with assms b have a: "0 < a" by (simp add: zero_less_divide_iff)
  note A = bitlen_powi [OF a] and B = bitlen_powi [OF b]
  let ?e = "bitlen a - bitlen b"
  have bp: "(0 :: rat) < of_int b" using b by simp
  have low: "2 powi (?e - 1) * of_int b \<le> (of_int a :: rat)"
  proof -
    have "2 powi (?e - 1) * (of_int b :: rat) \<le> 2 powi (?e - 1) * 2 powi bitlen b"
      using B(2) by (intro mult_left_mono) auto
    also have "\<dots> = 2 powi (bitlen a - 1)" by (simp flip: power_int_add)
    finally show ?thesis using A(1) by simp
  qed
  have high: "(of_int a :: rat) < 2 powi (?e + 1) * of_int b"
  proof -
    have "(2 :: rat) powi bitlen a = 2 powi (?e + 1) * 2 powi (bitlen b - 1)" by (simp flip: power_int_add)
    also have "\<dots> \<le> 2 powi (?e + 1) * of_int b" using B(1) by (intro mult_left_mono) auto
    finally show ?thesis using A(2) by simp
  qed
  have e: "f64_exponent x = (if 2 powi ?e \<le> x then ?e else ?e - 1)"
    by (simp add: f64_exponent_def q Let_def)
  show "2 powi f64_exponent x \<le> x"
    using low bp unfolding e by (auto simp: x pos_le_divide_eq)
  show "x < 2 powi (f64_exponent x + 1)"
  proof (cases "2 powi ?e \<le> x")
    case True
    then show ?thesis using high bp unfolding e by (simp add: x pos_divide_less_eq)
  next
    case False
    then show ?thesis unfolding e by simp
  qed
qed

lemma f64_round_pos_error:
  assumes "0 < x"
  shows "\<bar>f64_round_pos x - x\<bar> \<le> x / 2 ^ 53"
proof -
  define ulp :: rat where "ulp = 2 powi (f64_exponent x - 52)"
  have ulp: "0 < ulp" by (simp add: ulp_def)
  have "2 powi f64_exponent x = ulp * 2 ^ 52"
    unfolding ulp_def by (simp add: power_int_diff)
  then have small: "ulp * 2 ^ 52 \<le> x" using f64_exponent_bounds(1) [OF assms] by simp
  have "f64_round_pos x - x = (of_int (round_half_even (x / ulp)) - x / ulp) * ulp"
    using ulp by (simp add: f64_round_pos_def ulp_def [symmetric] Let_def left_diff_distrib)
  then have "\<bar>f64_round_pos x - x\<bar> = \<bar>of_int (round_half_even (x / ulp)) - x / ulp\<bar> * ulp"
    using ulp by (simp add: abs_mult)
  also have "\<dots> \<le> 1 / 2 * ulp"
    using ulp by (intro mult_right_mono round_half_even_error) simp
  also have "\<dots> \<le> x / 2 ^ 53" using small by simp
  finally show ?thesis .
qed

lemma f64_round_int:
  assumes "0 \<le> n" "n < 2 ^ 53"
  shows "f64_round (of_int n) = of_int n"
proof (cases "n = 0")
  case False
  with assms have pos: "(0 :: rat) < of_int n" by simp
  let ?e = "f64_exponent (of_int n)"
  have "2 powi ?e \<le> (of_int n :: rat)" by (rule f64_exponent_bounds(1) [OF pos])
  also have "\<dots> < of_int (2 ^ 53)" using assms(2) by (simp only: of_int_less_iff)
  also have "\<dots> = 2 powi 53" by simp
  finally have lt: "2 powi ?e < (2 :: rat) powi 53" .
  have e: "?e \<le> 52"
  proof (rule ccontr)
    assume "\<not> ?e \<le> 52"
    then have "(2 :: rat) powi 53 \<le> 2 powi ?e" by (intro power_int_increasing) auto
    with lt show False by simp
  qed
  have "(of_int n :: rat) / 2 powi (?e - 52) = of_int n * 2 powi (52 - ?e)"
    by (simp add: power_int_diff)
  also have "\<dots> = of_int (n * 2 ^ nat (52 - ?e))" using e by (simp add: power_int_def)
  finally have quot: "(of_int n :: rat) / 2 powi (?e - 52) = of_int (n * 2 ^ nat (52 - ?e))" .
  have "f64_round (of_int n) = of_int (n * 2 ^ nat (52 - ?e)) * 2 powi (?e - 52)"
    using pos by (simp only: f64_round_def f64_round_pos_def Let_def quot round_half_even_int) simp
  also have "\<dots> = of_int n" unfolding quot [symmetric] by simp
  finally show ?thesis .
qed (simp add: f64_round_def)

lemma round_half_even_cases: "round_half_even y = floor y \<or> round_half_even y = floor y + 1"
  by (simp add: round_half_even_def Let_def)

lemma f64_exponent_unique:
  assumes "2 powi e \<le> x" "x < 2 powi (e + 1)"
  shows "f64_exponent x = e"
proof -
  have x: "0 < x" by (rule less_le_trans [OF _ assms(1)]) simp
  have le: "a \<le> b" if "2 powi a \<le> x" "x < 2 powi (b + 1)" for a b
  proof (rule ccontr)
    assume "\<not> a \<le> b"
    then have "(2 :: rat) powi (b + 1) \<le> 2 powi a" by (intro power_int_increasing) auto
    with that show False by simp
  qed
  show ?thesis using le f64_exponent_bounds [OF x] assms by (intro order.antisym) blast+
qed

text \<open>A number with at most 53 bits of mantissa is kept.\<close>

lemma f64_round_pos_exact:
  assumes "2 ^ 52 \<le> m" "m < 2 ^ 53"
  shows "f64_round_pos (of_int m * 2 powi k) = of_int m * 2 powi k"
proof -
  have "2 powi (k + 52) = 2 ^ 52 * (2 :: rat) powi k" "2 powi (k + 53) = 2 ^ 53 * (2 :: rat) powi k"
    by (simp_all add: power_int_add)
  moreover have "(2 ^ 52 :: rat) \<le> of_int m" "of_int m < (2 ^ 53 :: rat)"
    using assms of_int_le_iff [of "2 ^ 52" m] of_int_less_iff [of m "2 ^ 53"] by simp_all
  ultimately have "f64_exponent (of_int m * 2 powi k) = k + 52"
    by (intro f64_exponent_unique) (simp_all add: add.assoc)
  then show ?thesis by (simp add: f64_round_pos_def round_half_even_int)
qed

lemma f64_round_pos_mantissa:
  assumes "0 < x"
  shows "\<exists>m k. 2 ^ 52 \<le> m \<and> m < 2 ^ 53 \<and> f64_round_pos x = of_int m * 2 powi k"
proof -
  define k where "k = f64_exponent x - 52"
  define m where "m = round_half_even (x / 2 powi k)"
  have r: "f64_round_pos x = of_int m * 2 powi k" by (simp add: f64_round_pos_def m_def k_def Let_def)
  have e: "2 powi f64_exponent x = 2 ^ 52 * (2 :: rat) powi k"
    "2 powi (f64_exponent x + 1) = 2 ^ 53 * (2 :: rat) powi k"
    by (simp_all add: k_def power_int_diff power_int_add)
  have "2 ^ 52 \<le> x / 2 powi k" "x / 2 powi k < 2 ^ 53"
    using f64_exponent_bounds [OF assms] unfolding e by (simp_all add: pos_le_divide_eq pos_divide_less_eq)
  then have "2 ^ 52 \<le> floor (x / 2 powi k)" "floor (x / 2 powi k) < 2 ^ 53"
    by (simp_all add: le_floor_iff floor_less_iff)
  moreover have "m = floor (x / 2 powi k) \<or> m = floor (x / 2 powi k) + 1"
    unfolding m_def by (rule round_half_even_cases)
  ultimately have m: "2 ^ 52 \<le> m" "m \<le> 2 ^ 53" by linarith+
  show ?thesis
  proof (cases "m = 2 ^ 53")
    case True
    have two: "2 ^ 53 * (2 :: rat) powi k = 2 ^ 52 * 2 powi (k + 1)" by (simp add: power_int_add)
    have "f64_round_pos x = of_int (2 ^ 52) * 2 powi (k + 1)"
      unfolding r True of_int_power of_int_numeral by (rule two)
    moreover have "(2 :: int) ^ 52 < 2 ^ 53" by simp
    ultimately show ?thesis by blast
  next
    case False
    with m have "m < 2 ^ 53" by linarith
    with m(1) r show ?thesis by blast
  qed
qed

lemma f64_round_idem: "0 \<le> x \<Longrightarrow> f64_round (f64_round x) = f64_round x"
proof (cases "x = 0")
  case False
  assume "0 \<le> x"
  with False obtain m k where m: "2 ^ 52 \<le> m" "m < 2 ^ 53" "f64_round_pos x = of_int m * 2 powi k"
    using f64_round_pos_mantissa [of x] by auto
  have "0 < (of_int m :: rat) * 2 powi k" using m(1) by (intro mult_pos_pos) simp_all
  with False \<open>0 \<le> x\<close> show ?thesis
    by (simp add: f64_round_def m(3) f64_round_pos_exact [OF m(1,2)])
qed (simp add: f64_round_def)

interpretation f64: float_rounding f64_round "1 / 2 ^ 53" "2 ^ 53"
proof
  fix x :: rat
  show "0 \<le> x \<Longrightarrow> \<bar>f64_round x - x\<bar> \<le> x * (1 / 2 ^ 53)"
    using f64_round_pos_error [of x] by (auto simp: f64_round_def)
qed (use f64_round_int f64_round_idem in auto)

end
