(* ===== verification/Wire.thy ===== *)
theory Wire imports Json F64 "HOL-Library.Monad_Syntax" "HOL-Library.List_Lexorder" begin

text \<open>
  The encodings serde's derive gives the wire types, as functions to and from \<^verbatim>\<open>serde_json\<close>
  values, with the attributes the types use: a required field, \<^verbatim>\<open>default\<close>,
  \<^verbatim>\<open>skip_serializing_if\<close>, \<^verbatim>\<open>tag\<close>, \<^verbatim>\<open>rename_all = "snake_case"\<close>. Decoders read every form
  serde reads: a struct from an object, or from the array of its fields in their order; a unit variant
  from its name, or from an object that maps its name to null. A timestamp is its RFC 3339 text,
  and reading one is the parameter \<^verbatim>\<open>read_time\<close>, which returns the text chrono prints for what
  it parsed.
\<close>

section \<open>The contract of a codec\<close>

locale wire_codec =
  fixes enc :: "'a \<Rightarrow> json" and dec :: "json \<Rightarrow> 'a option" and ok :: "'a \<Rightarrow> bool"
  assumes roundtrip: "ok x \<Longrightarrow> dec (enc x) = Some x"
begin

lemma enc_inj: "ok x \<Longrightarrow> ok y \<Longrightarrow> enc x = enc y \<Longrightarrow> x = y"
  by (metis option.inject roundtrip)

lemma list_roundtrip: "list_all ok xs \<Longrightarrow> those (map dec (map enc xs)) = Some xs"
  by (induction xs) (simp_all add: roundtrip)

lemma assoc_roundtrip:
  "list_all (\<lambda>(k, v). ok v) m \<Longrightarrow>
     those (map (\<lambda>(k, v). map_option (Pair k) (dec v)) (map (\<lambda>(k, v). (k, enc v)) m)) = Some m"
  by (induction m) (auto simp: roundtrip)

end

text \<open>A codec that never writes null, so that an optional value stays apart from an absent one.\<close>

locale wire_value = wire_codec +
  assumes enc_not_null: "enc x \<noteq> JNull"

section \<open>Scalars\<close>

fun dec_string :: "json \<Rightarrow> string option" where
  "dec_string v = as_str v"

fun dec_bool :: "json \<Rightarrow> bool option" where
  "dec_bool v = as_bool v"

definition enc_u64 :: "u64 \<Rightarrow> json" where
  "enc_u64 n = JNumber (PosInt n)"

fun dec_u64 :: "json \<Rightarrow> u64 option" where
  "dec_u64 (JNumber (PosInt n)) = Some n"
| "dec_u64 _ = None"

type_synonym i64 = "64 word"

definition enc_i64 :: "i64 \<Rightarrow> json" where
  "enc_i64 n = JNumber (if 0 \<le> sint n then PosInt n else NegInt n)"

fun dec_i64 :: "json \<Rightarrow> i64 option" where
  "dec_i64 (JNumber (PosInt n)) = (if uint n < 2 ^ 63 then Some n else None)"
| "dec_i64 (JNumber (NegInt n)) = Some n"
| "dec_i64 _ = None"

text \<open>An \<^verbatim>\<open>f64\<close> is its 64 bits; what is not finite is written as null.\<close>

type_synonym f64_bits = "64 word"

definition f64_finite :: "f64_bits \<Rightarrow> bool" where
  "f64_finite w = (take_bit 11 (drop_bit 52 w) \<noteq> 2047)"

definition f64_of_int :: "int \<Rightarrow> f64_bits" where
  "f64_of_int n =
     (if n = 0 then 0
      else
        (let x = f64_round (of_int \<bar>n\<bar>);
             e = f64_exponent x;
             sign = (if n < 0 then 2 ^ 63 else 0)
         in word_of_int (sign + (e + 1023) * 2 ^ 52 + floor ((x / 2 powi e - 1) * 2 ^ 52))))"

definition enc_f64 :: "f64_bits \<Rightarrow> json" where
  "enc_f64 w = (if f64_finite w then JNumber (Float w) else JNull)"

fun dec_f64 :: "json \<Rightarrow> f64_bits option" where
  "dec_f64 (JNumber (Float w)) = Some w"
| "dec_f64 (JNumber (PosInt n)) = Some (f64_of_int (uint n))"
| "dec_f64 (JNumber (NegInt n)) = Some (f64_of_int (sint n))"
| "dec_f64 _ = None"

definition dec_time :: "(string \<Rightarrow> string option) \<Rightarrow> json \<Rightarrow> string option" where
  "dec_time read_time v = Option.bind (as_str v) read_time"

text \<open>A text chrono prints: reading it gives it back.\<close>

definition canonical :: "(string \<Rightarrow> string option) \<Rightarrow> string \<Rightarrow> bool" where
  "canonical read_time t = (read_time t = Some t)"

section \<open>Lists, maps, options and fields\<close>

definition enc_list :: "('a \<Rightarrow> json) \<Rightarrow> 'a list \<Rightarrow> json" where
  "enc_list enc xs = JArray (map enc xs)"

fun dec_list :: "(json \<Rightarrow> 'a option) \<Rightarrow> json \<Rightarrow> 'a list option" where
  "dec_list dec (JArray vs) = those (map dec vs)"
| "dec_list dec _ = None"

text \<open>A \<^verbatim>\<open>BTreeMap\<close> is its entries in key order; an object holds each key once.\<close>

definition enc_map :: "('a \<Rightarrow> json) \<Rightarrow> (string \<times> 'a) list \<Rightarrow> json" where
  "enc_map enc m = JObject (map (\<lambda>(k, v). (k, enc v)) m)"

fun dec_map :: "(json \<Rightarrow> 'a option) \<Rightarrow> json \<Rightarrow> (string \<times> 'a) list option" where
  "dec_map dec (JObject m) =
     map_option (sort_key fst) (those (map (\<lambda>(k, v). map_option (Pair k) (dec v)) m))"
| "dec_map dec _ = None"

definition wf_map :: "(string \<times> 'a) list \<Rightarrow> bool" where
  "wf_map m = (sorted (map fst m) \<and> distinct (map fst m))"

definition enc_option :: "('a \<Rightarrow> json) \<Rightarrow> 'a option \<Rightarrow> json" where
  "enc_option enc x = (case x of None \<Rightarrow> JNull | Some y \<Rightarrow> enc y)"

fun dec_option :: "(json \<Rightarrow> 'a option) \<Rightarrow> json \<Rightarrow> 'a option option" where
  "dec_option dec JNull = Some None"
| "dec_option dec v = map_option Some (dec v)"

definition field :: "string \<Rightarrow> (json \<Rightarrow> 'a option) \<Rightarrow> json \<Rightarrow> 'a option" where
  "field k dec v = Option.bind (json_get v k) dec"

definition field_default :: "string \<Rightarrow> (json \<Rightarrow> 'a option) \<Rightarrow> 'a \<Rightarrow> json \<Rightarrow> 'a option" where
  "field_default k dec d v = (case json_get v k of None \<Rightarrow> Some d | Some w \<Rightarrow> dec w)"

text \<open>An \<^verbatim>\<open>Option\<close> field is absent, null or a value, with or without \<^verbatim>\<open>default\<close>.\<close>

definition field_option :: "string \<Rightarrow> (json \<Rightarrow> 'a option) \<Rightarrow> json \<Rightarrow> 'a option option" where
  "field_option k dec v = field_default k (dec_option dec) None v"

text \<open>
  The object a struct is read from. In an array the fields stand in the order they are declared, and
  only fields with \<^verbatim>\<open>default\<close> may be missing, at the end.
\<close>

fun as_struct :: "(string \<times> bool) list \<Rightarrow> json \<Rightarrow> json option" where
  "as_struct fields (JObject m) = Some (JObject m)"
| "as_struct fields (JArray vs) =
     (if length vs \<le> length fields \<and> list_all snd (drop (length vs) fields)
      then Some (JObject (zip (map fst fields) vs)) else None)"
| "as_struct fields _ = None"

text \<open>A struct variant with the name of its variant outside is read from an object alone.\<close>

definition is_struct :: "json \<Rightarrow> unit option" where
  "is_struct v = (if is_object v then Some () else None)"

text \<open>An internally tagged enum: the tag, and what is left for the variant.\<close>

fun untag :: "string \<Rightarrow> json \<Rightarrow> (string \<times> json) option" where
  "untag tag (JObject m) = do {
     v \<leftarrow> map_of m tag;
     t \<leftarrow> as_str v;
     Some (t, JObject (filter (\<lambda>(k, _). k \<noteq> tag) m))
   }"
| "untag tag (JArray (v # vs)) = map_option (\<lambda>t. (t, JArray vs)) (as_str v)"
| "untag tag _ = None"

text \<open>A unit variant ignores the fields of an object, but not the elements of an array.\<close>

fun unit_content :: "json \<Rightarrow> unit option" where
  "unit_content (JObject m) = Some ()"
| "unit_content (JArray vs) = (if vs = [] then Some () else None)"
| "unit_content _ = None"

section \<open>Names of variants\<close>

definition is_upper :: "char \<Rightarrow> bool" where
  "is_upper c = (CHR ''A'' \<le> c \<and> c \<le> CHR ''Z'')"

text \<open>\<^verbatim>\<open>rename_all = "snake_case"\<close> on a variant: an underscore before each capital but the first.\<close>

definition snake_case :: "string \<Rightarrow> string" where
  "snake_case name =
     concat (map (\<lambda>(i, c). (if i > 0 \<and> is_upper c then ''_'' else []) @ [to_ascii_lower c])
       (List.enumerate 0 name))"

definition enc_variant :: "('a \<Rightarrow> string) \<Rightarrow> 'a \<Rightarrow> json" where
  "enc_variant wire_name x = JString (wire_name x)"

fun variant_name :: "json \<Rightarrow> string option" where
  "variant_name (JString s) = Some s"
| "variant_name (JObject [(s, JNull)]) = Some s"
| "variant_name _ = None"

definition dec_variant :: "('a \<Rightarrow> string) \<Rightarrow> 'a list \<Rightarrow> json \<Rightarrow> 'a option" where
  "dec_variant wire_name variants v =
     Option.bind (variant_name v) (\<lambda>s. find (\<lambda>x. wire_name x = s) variants)"

section \<open>The codecs keep the contract\<close>

named_theorems codec_simps \<open>rules that decode an encoded struct field by field\<close>

interpretation string_codec: wire_value JString dec_string "\<lambda>_. True"
  by unfold_locales simp_all

interpretation bool_codec: wire_value JBool dec_bool "\<lambda>_. True"
  by unfold_locales simp_all

interpretation u64_codec: wire_value enc_u64 dec_u64 "\<lambda>_. True"
  by unfold_locales (simp_all add: enc_u64_def)

lemma sint_nonneg_uint: "0 \<le> sint (n :: i64) \<Longrightarrow> uint n < 2 ^ 63"
proof -
  assume "0 \<le> sint n"
  then have "\<not> bit (uint n) 63" by (simp add: sint_uint)
  then have "take_bit (Suc 63) (uint n) = take_bit 63 (uint n)"
    by (simp only: take_bit_Suc_from_most) simp
  moreover have "take_bit (Suc 63) (uint n) = uint n"
    using uint_lt2p [of n] by (intro take_bit_int_eq_self) simp_all
  ultimately show ?thesis using take_bit_int_less_exp [of 63 "uint n"] by simp
qed

interpretation i64_codec: wire_value enc_i64 dec_i64 "\<lambda>_. True"
proof
  fix n :: i64
  have "uint n < 2 ^ 63" if "0 \<le> sint n" using that by (rule sint_nonneg_uint)
  then show "dec_i64 (enc_i64 n) = Some n" by (simp add: enc_i64_def)
qed (simp add: enc_i64_def)

interpretation f64_codec: wire_codec enc_f64 dec_f64 f64_finite
  by unfold_locales (simp add: enc_f64_def)

interpretation time_codec: wire_value JString "dec_time read_time" "canonical read_time" for read_time
  by unfold_locales (simp_all add: dec_time_def canonical_def)

text \<open>Lists, maps and options of a codec's values, for any codec.\<close>

context wire_codec begin

lemma dec_enc_list: "list_all ok xs \<Longrightarrow> dec_list dec (enc_list enc xs) = Some xs"
  unfolding enc_list_def dec_list.simps by (rule list_roundtrip)

lemma dec_enc_map: "wf_map m \<Longrightarrow> list_all (\<lambda>(k, v). ok v) m \<Longrightarrow> dec_map dec (enc_map enc m) = Some m"
  unfolding enc_map_def dec_map.simps
  by (subst assoc_roundtrip) (simp_all add: wf_map_def sort_key_id_if_sorted)

end

context wire_value begin

lemma dec_enc_option: "pred_option ok x \<Longrightarrow> dec_option dec (enc_option enc x) = Some x"
proof (cases x)
  case (Some y)
  moreover assume "pred_option ok x"
  ultimately show ?thesis using roundtrip [of y] enc_not_null [of y] by (cases "enc y") (auto simp: enc_option_def)
qed (simp add: enc_option_def)

end

lemma field_simps [codec_simps]:
  "field k dec (JObject m) = Option.bind (map_of m k) dec"
  "field_default k dec d (JObject m) = (case map_of m k of None \<Rightarrow> Some d | Some w \<Rightarrow> dec w)"
  "field_option k dec (JObject m) = (case map_of m k of None \<Rightarrow> Some None | Some w \<Rightarrow> dec_option dec w)"
  "is_struct (JObject m) = Some ()"
  by (simp_all add: field_def field_default_def field_option_def is_struct_def)

lemma map_of_filter_key: "k \<noteq> tag \<Longrightarrow> map_of (filter (\<lambda>(k, _). k \<noteq> tag) m) k = map_of m k"
  by (induction m) auto

lemma trivially_ok [codec_simps]:
  "list_all (\<lambda>_. True) xs" "list_all (\<lambda>(k, v). True) m" "pred_option (\<lambda>_. True) x"
  by (simp_all add: list_all_iff split_def pred_option_def)

section \<open>Unit variants\<close>

text \<open>An enum of unit variants: all of them, under names that differ.\<close>

locale variant_names =
  fixes wire_name :: "'a \<Rightarrow> string" and variants :: "'a list"
  assumes complete: "x \<in> set variants" and distinct_names: "distinct (map wire_name variants)"
begin

lemma find_variant: "find (\<lambda>y. wire_name y = wire_name x) variants = Some x"
proof -
  have "inj_on wire_name (set variants)" using distinct_names by (simp add: distinct_map)
  then have eq: "wire_name y = wire_name x \<longleftrightarrow> y = x" for y
    using complete by (auto simp: inj_on_def)
  have "x \<in> set xs \<Longrightarrow> find (\<lambda>y. y = x) xs = Some x" for xs by (induction xs) auto
  with complete show ?thesis by (simp add: eq)
qed

lemma find_name: "find (\<lambda>y. wire_name y = s) variants = Some x \<longleftrightarrow> wire_name x = s"
  using find_variant [of x] by (auto simp: find_Some_iff)

end

sublocale variant_names \<subseteq> wire_value "enc_variant wire_name" "dec_variant wire_name variants" "\<lambda>_. True"
  by unfold_locales (simp_all add: enc_variant_def dec_variant_def find_variant)

end
