(* ===== verification/Capabilities.thy ===== *)
theory Capabilities imports TargetValidate Wire begin

text \<open>
  \<^verbatim>\<open>src/src/target_validate.rs\<close>: how the capability manifest of a release is read, by the
  \<^verbatim>\<open>Deserialize\<close> its types derive. The control plane never writes one.
\<close>

definition dec_u32 :: "json \<Rightarrow> u32 option" where
  "dec_u32 v = Option.bind (dec_u64 v) (\<lambda>n. if uint n < 2 ^ 32 then Some (ucast n) else None)"

definition dec_baked_plugin :: "json \<Rightarrow> baked_plugin option" where
  "dec_baked_plugin v = do {
     v \<leftarrow> as_struct [(''id'', False)] v;
     id \<leftarrow> field ''id'' dec_string v;
     Some \<lparr>bp_id = id\<rparr>
   }"

definition dec_gateway_capabilities :: "json \<Rightarrow> gateway_capabilities option" where
  "dec_gateway_capabilities v = do {
     v \<leftarrow> as_struct [(''manifest_version'', False), (''gateway_version'', True),
       (''plugin_protocol_version'', False), (''plugin_abi_layout'', True), (''config_schema'', False),
       (''baked_plugins'', True)] v;
     manifest_version \<leftarrow> field ''manifest_version'' dec_u32 v;
     gateway_version \<leftarrow> field_default ''gateway_version'' dec_string [] v;
     plugin_protocol_version \<leftarrow> field ''plugin_protocol_version'' dec_string v;
     plugin_abi_layout \<leftarrow> field_default ''plugin_abi_layout'' dec_string [] v;
     config_schema \<leftarrow> field ''config_schema'' Some v;
     baked_plugins \<leftarrow> field_default ''baked_plugins'' (dec_list dec_baked_plugin) [] v;
     Some \<lparr>manifest_version = manifest_version, gateway_version_text = gateway_version,
       plugin_protocol_version = plugin_protocol_version, plugin_abi_layout = plugin_abi_layout,
       config_schema = config_schema, baked_plugins = baked_plugins\<rparr>
   }"

section \<open>Manifests of other releases\<close>

lemma dec_capabilities_baked:
  assumes "dec_gateway_capabilities (JObject m) = Some caps" "map_of m ''baked_plugins'' = None"
  shows "baked_plugins caps = []"
  using assms by (auto simp: dec_gateway_capabilities_def field_default_def Option.bind_eq_Some_conv)

text \<open>The fields a manifest is read from; it may have others.\<close>

definition manifest_fields :: "string list" where
  "manifest_fields = [''manifest_version'', ''gateway_version'', ''plugin_protocol_version'',
     ''plugin_abi_layout'', ''config_schema'', ''baked_plugins'']"

text \<open>
  A field the control plane does not know changes nothing: two manifests that agree on the known
  fields decode alike. So a release may add to its manifest without raising its version.
\<close>

theorem manifest_unknown_fields:
  assumes "\<forall>k \<in> set manifest_fields. map_of m k = map_of m' k"
  shows "dec_gateway_capabilities (JObject m) = dec_gateway_capabilities (JObject m')"
  using assms
  by (simp add: manifest_fields_def dec_gateway_capabilities_def field_def field_default_def)

theorem manifest_unknown_fields_witness:
  "dec_gateway_capabilities (JObject [(''signed_by'', JNull), (''manifest_version'', JNumber (PosInt 1)),
      (''plugin_protocol_version'', JString ''1.0''), (''config_schema'', JBool True)]) =
   dec_gateway_capabilities (JObject [(''manifest_version'', JNumber (PosInt 1)),
      (''plugin_protocol_version'', JString ''1.0''), (''config_schema'', JBool True)])"
  by (rule manifest_unknown_fields) (simp add: manifest_fields_def)

text \<open>
  A release whose manifest lists no plugins carries none: a config validates against it only if no
  plugin of the config is a file of the image, whatever the policy and whatever else the manifest says.
\<close>

theorem plugin_free_release:
  assumes "dec_gateway_capabilities (JObject m) = Some caps" "map_of m ''baked_plugins'' = None"
    and "validate_against_gateway validator_for yaml toml raw caps policy = Inr ()"
  shows "\<exists>cfg. target_parse_structured yaml toml raw = Some cfg \<and>
    (\<forall>(idx, source) \<in> set (plugin_entries cfg). \<exists>reference. source = Oci reference)"
proof -
  obtain cfg where cfg: "target_parse_structured yaml toml raw = Some cfg"
      "target_ok validator_for caps policy cfg"
    using assms(3) unfolding target.admits_iff by blast
  have "source_ok caps policy source \<Longrightarrow> \<exists>reference. source = Oci reference" for source
    using dec_capabilities_baked [OF assms(1,2)] by (cases source) (simp_all add: path_known_def)
  with cfg show ?thesis by (fastforce simp: target_ok_def list_all_iff)
qed

definition plain_fields :: "(string \<times> json) list" where
  "plain_fields = [(''manifest_version'', JNumber (PosInt 1)),
     (''plugin_protocol_version'', JString ''1.0''), (''config_schema'', JBool True)]"

theorem plugin_free_release_witness:
  "\<exists>cfg. target_parse_structured (\<lambda>_. Some (JObject [])) (\<lambda>_. None) ''r'' = Some cfg \<and>
    (\<forall>(idx, source) \<in> set (plugin_entries cfg). \<exists>reference. source = Oci reference)"
proof (rule plugin_free_release)
  show "dec_gateway_capabilities (JObject plain_fields) = Some \<lparr>manifest_version = 1, gateway_version_text = [],
      plugin_protocol_version = ''1.0'', plugin_abi_layout = [], config_schema = JBool True, baked_plugins = []\<rparr>"
    by (simp add: plain_fields_def dec_gateway_capabilities_def field_def field_default_def dec_u32_def)
  show "map_of plain_fields ''baked_plugins'' = None" by (simp add: plain_fields_def)
  show "validate_against_gateway (\<lambda>_. Inr (\<lambda>_. [])) (\<lambda>_. Some (JObject [])) (\<lambda>_. None) ''r''
      \<lparr>manifest_version = 1, gateway_version_text = [], plugin_protocol_version = ''1.0'',
        plugin_abi_layout = [], config_schema = JBool True, baked_plugins = []\<rparr> FirstPartyOnly = Inr ()"
    by (simp add: validate_against_gateway_def target_parse_structured_def MAX_UNDERSTOOD_MANIFEST_def
        schema_violations_def plugin_entries_def)
qed

end
