(* ===== verification/PluginLayout.thy ===== *)
theory PluginLayout imports TargetValidate begin

text \<open>
  \<^verbatim>\<open>src/src/plugin_layout.rs\<close>: the artefacts a gateway would try for an OCI source, and the
  judgement of what a registry read of them found.
\<close>

definition CONFIG_MEDIA_TYPE :: string where
  "CONFIG_MEDIA_TYPE = ''application/vnd.mcpg.plugin.config.v1+json''"

definition PLATFORM_SUFFIX_TOKENS :: "string list" where
  "PLATFORM_SUFFIX_TOKENS =
     [''linux-amd64'', ''linux-arm64'', ''linux-musl-amd64'', ''linux-musl-arm64'', ''darwin-amd64'',
      ''darwin-arm64'', ''windows-amd64'', ''windows-arm64'', ''wasi-wasm'']"

definition PORTABLE :: string where
  "PORTABLE = ''wasi-wasm''"

definition DEFAULT_PLATFORM :: string where
  "DEFAULT_PLATFORM = ''linux-amd64''"

definition is_native_platform :: "string \<Rightarrow> bool" where
  "is_native_platform platform =
     (platform \<noteq> PORTABLE \<and> platform \<in> set PLATFORM_SUFFIX_TOKENS)"

definition has_platform_suffix :: "string \<Rightarrow> bool" where
  "has_platform_suffix tag =
     list_ex (\<lambda>s. tag = s \<or> suffix (''-'' @ s) tag) PLATFORM_SUFFIX_TOKENS"

definition protocol_major :: "string \<Rightarrow> string" where
  "protocol_major version = hd (split_on CHR ''.'' version)"

definition strip_oci :: "string \<Rightarrow> string" where
  "strip_oci reference =
     (case strip_prefix ''oci://'' reference of
        Some r \<Rightarrow> r
      | None \<Rightarrow> (case strip_prefix ''oci:'' reference of Some r \<Rightarrow> r | None \<Rightarrow> reference))"

definition candidates :: "string \<Rightarrow> string \<Rightarrow> string \<Rightarrow> string list" where
  "candidates reference platform major =
     (let r = strip_oci reference in
      if contains_str ''@'' r then [r]
      else
        (let seg_start = (case rfind_char CHR ''/'' r of None \<Rightarrow> 0 | Some i \<Rightarrow> i + 1) in
         case find_char CHR '':'' (drop seg_start r) of
           None \<Rightarrow> [r @ '':protocol-'' @ major @ ''-'' @ platform,
                    r @ '':protocol-'' @ major @ ''-'' @ PORTABLE]
         | Some colon \<Rightarrow>
             if has_platform_suffix (drop (seg_start + colon + 1) r) then [r]
             else [r @ ''-'' @ platform, r @ ''-'' @ PORTABLE]))"

record artefact_ref =
  ar_host :: string
  ar_repository :: string
  ar_reference :: string

definition artefact_parse :: "string \<Rightarrow> artefact_ref option" where
  "artefact_parse artefact =
     (case split_once CHR ''/'' artefact of
        None \<Rightarrow> None
      | Some (host, rest) \<Rightarrow>
          (case (case split_once CHR ''@'' rest of
                   Some s \<Rightarrow> Some s
                 | None \<Rightarrow> rsplit_once CHR '':'' rest) of
             None \<Rightarrow> None
           | Some (repository, reference) \<Rightarrow>
               if host = [] \<or> repository = [] \<or> reference = [] then None
               else Some \<lparr>ar_host = host, ar_repository = repository, ar_reference = reference\<rparr>))"

definition show_artefact_tag :: "artefact_ref \<Rightarrow> string" where
  "show_artefact_tag a = ar_host a @ ''/'' @ ar_repository a @ '':'' @ ar_reference a"

definition show_artefact_digest :: "artefact_ref \<Rightarrow> string" where
  "show_artefact_digest a = ar_host a @ ''/'' @ ar_repository a @ ''@'' @ ar_reference a"

section \<open>The assessment\<close>

datatype packaged_layout = Recorded string | NotRecorded | Missing | Unreadable string

record probed_plugin =
  pp_index :: nat
  pp_reference :: string
  pp_artefact :: "string option"
  pp_found :: packaged_layout

record layout_assessment =
  la_violations :: "target_violation list"
  la_warnings :: "string list"
  la_outcomes :: "string list"

record target_release =
  tr_gateway_version :: string
  tr_abi_layout :: string
  tr_platform :: string

definition plugin_at :: "nat \<Rightarrow> string" where
  "plugin_at i = ''plugins['' @ show_dec (int i) @ '']''"

definition artefact_of :: "probed_plugin \<Rightarrow> string" where
  "artefact_of p = (case pp_artefact p of Some a \<Rightarrow> a | None \<Rightarrow> pp_reference p)"

definition layout_mismatch :: "target_release \<Rightarrow> probed_plugin \<Rightarrow> string \<Rightarrow> target_violation" where
  "layout_mismatch release p layout =
     \<lparr>tv_kind = ''plugin_abi_layout_mismatch'',
      detail = plugin_at (pp_index p) @ '': '' @ quoted (artefact_of p)
        @ '' was packaged for ABI layout '' @ layout @ '', and gateway ''
        @ tr_gateway_version release @ '' has '' @ tr_abi_layout release
        @ '': the gateway refuses it at load. Pin a release of the plugin packaged for gateway ''
        @ tr_gateway_version release\<rparr>"

definition artefact_missing :: "target_release \<Rightarrow> probed_plugin \<Rightarrow> target_violation" where
  "artefact_missing release p =
     \<lparr>tv_kind = ''plugin_artifact_missing'',
      detail = plugin_at (pp_index p) @ '': '' @ quoted (pp_reference p) @ '' has no artefact for ''
        @ tr_platform release @ '' or '' @ PORTABLE @ '': the gateway fails at boot''\<rparr>"

definition unreadable_warning :: "target_release \<Rightarrow> probed_plugin \<Rightarrow> string \<Rightarrow> string" where
  "unreadable_warning release p reason =
     plugin_at (pp_index p) @ '': '' @ quoted (pp_reference p) @ '' could not be checked against gateway ''
     @ tr_gateway_version release @ [CHR 0x27] @ ''s ABI layout ('' @ reason
     @ ''); the gateway checks it at load''"

text \<open>One turn of the loop: the assessment so far and the plugins that record no layout.\<close>

definition assess_step ::
    "target_release \<Rightarrow> probed_plugin \<Rightarrow> layout_assessment \<times> string list \<Rightarrow> layout_assessment \<times> string list" where
  "assess_step release p st =
     (case st of (out, not_recorded) \<Rightarrow>
       (case pp_found p of
          Recorded layout \<Rightarrow>
            if layout = tr_abi_layout release
            then (out\<lparr>la_outcomes := la_outcomes out @ [''ok'']\<rparr>, not_recorded)
            else (out\<lparr>la_outcomes := la_outcomes out @ [''mismatch''],
                      la_violations := la_violations out @ [layout_mismatch release p layout]\<rparr>,
                  not_recorded)
        | Missing \<Rightarrow>
            (out\<lparr>la_outcomes := la_outcomes out @ [''missing''],
                 la_violations := la_violations out @ [artefact_missing release p]\<rparr>, not_recorded)
        | NotRecorded \<Rightarrow>
            (out\<lparr>la_outcomes := la_outcomes out @ [''not_recorded'']\<rparr>,
             not_recorded @ [plugin_at (pp_index p) @ '' '' @ quoted (artefact_of p)])
        | Unreadable reason \<Rightarrow>
            (out\<lparr>la_outcomes := la_outcomes out @ [''unreadable''],
                 la_warnings := la_warnings out @ [unreadable_warning release p reason]\<rparr>,
             not_recorded)))"

definition not_recorded_warning :: "target_release \<Rightarrow> string list \<Rightarrow> string" where
  "not_recorded_warning release not_recorded =
     show_dec (int (length not_recorded))
     @ '' plugin(s) were packaged before ABI layout fingerprints, so only the gateway'' @ [CHR 0x27]
     @ ''s load tells whether gateway '' @ tr_gateway_version release @ '' accepts them: ''
     @ join_with '', '' not_recorded"

definition custom_warning :: "target_release \<Rightarrow> (nat \<times> string) list \<Rightarrow> string" where
  "custom_warning release custom =
     show_dec (int (length custom))
     @ '' plugin(s) from another registry are not checked against gateway ''
     @ tr_gateway_version release @ [CHR 0x27] @ ''s ABI layout before load: ''
     @ join_with '', '' (map (\<lambda>(i, r). plugin_at i @ '' '' @ quoted r) custom)"

definition assess ::
    "target_release \<Rightarrow> probed_plugin list \<Rightarrow> (nat \<times> string) list \<Rightarrow> layout_assessment" where
  "assess release probed custom =
     (case fold (assess_step release) probed
        (\<lparr>la_violations = [], la_warnings = [], la_outcomes = []\<rparr>, []) of
        (out, not_recorded) \<Rightarrow>
          (let out = (if not_recorded \<noteq> []
                      then out\<lparr>la_warnings := la_warnings out @ [not_recorded_warning release not_recorded]\<rparr>
                      else out)
           in if custom \<noteq> []
              then out\<lparr>la_outcomes := la_outcomes out @ replicate (length custom) ''custom'',
                       la_warnings := la_warnings out @ [custom_warning release custom]\<rparr>
              else out))"

definition split_sources ::
    "(nat \<times> string) list \<Rightarrow> (nat \<times> string) list \<times> (nat \<times> string) list" where
  "split_sources sources = partition (\<lambda>(_, r). is_first_party_plugin_ref r) sources"

section \<open>The assessment, source by source\<close>

definition outcome_of :: "target_release \<Rightarrow> probed_plugin \<Rightarrow> string" where
  "outcome_of release p =
     (case pp_found p of
        Recorded layout \<Rightarrow> if layout = tr_abi_layout release then ''ok'' else ''mismatch''
      | Missing \<Rightarrow> ''missing'' | NotRecorded \<Rightarrow> ''not_recorded'' | Unreadable _ \<Rightarrow> ''unreadable'')"

text \<open>What holds a publish, and what only the load can judge, of one probed source.\<close>

definition violation_of :: "target_release \<Rightarrow> probed_plugin \<Rightarrow> target_violation option" where
  "violation_of release p =
     (case pp_found p of
        Recorded layout \<Rightarrow> if layout = tr_abi_layout release then None else Some (layout_mismatch release p layout)
      | Missing \<Rightarrow> Some (artefact_missing release p)
      | _ \<Rightarrow> None)"

definition unread_of :: "target_release \<Rightarrow> probed_plugin \<Rightarrow> string option" where
  "unread_of release p =
     (case pp_found p of Unreadable reason \<Rightarrow> Some (unreadable_warning release p reason) | _ \<Rightarrow> None)"

definition unrecorded_of :: "probed_plugin \<Rightarrow> string option" where
  "unrecorded_of p =
     (if pp_found p = NotRecorded then Some (plugin_at (pp_index p) @ '' '' @ quoted (artefact_of p)) else None)"

lemma assess_loop:
  "fold (assess_step release) probed (out, not_recorded) =
     (out\<lparr>la_violations := la_violations out @ List.map_filter (violation_of release) probed,
        la_warnings := la_warnings out @ List.map_filter (unread_of release) probed,
        la_outcomes := la_outcomes out @ map (outcome_of release) probed\<rparr>,
      not_recorded @ List.map_filter unrecorded_of probed)"
proof (induction probed arbitrary: out not_recorded)
  case (Cons p probed)
  show ?case
    by (cases "pp_found p")
      (simp_all add: Cons.IH assess_step_def [of release p] violation_of_def [of release p]
        unread_of_def [of release p] unrecorded_of_def [of p] outcome_of_def [of release p])
qed simp

definition holds_publish :: "target_release \<Rightarrow> probed_plugin \<Rightarrow> bool" where
  "holds_publish release p =
     (pp_found p = Missing \<or> (\<exists>layout. pp_found p = Recorded layout \<and> layout \<noteq> tr_abi_layout release))"

lemma violation_of_None_iff: "violation_of release p = None \<longleftrightarrow> \<not> holds_publish release p"
  by (cases "pp_found p") (simp_all add: violation_of_def holds_publish_def)

section \<open>Candidates\<close>

text \<open>The last segment of a reference and its tag, as \<^verbatim>\<open>candidates\<close> reads them.\<close>

lemma rfind_char_SomeD:
  assumes "rfind_char x s = Some i"
  shows "s = take i s @ x # drop (Suc i) s \<and> x \<notin> set (drop (Suc i) s) \<and> i < length s"
proof -
  have "x \<in> set s" using assms rfind_char_None_iff [of x s] by fastforce
  then obtain a b where s: "s = a @ x # b" "x \<notin> set b" using split_last_occurrence by fast
  with assms have "i = length a" by (simp add: rfind_char_append)
  with s show ?thesis by simp
qed

definition last_segment :: "string \<Rightarrow> string" where
  "last_segment r = drop (case rfind_char CHR ''/'' r of None \<Rightarrow> 0 | Some i \<Rightarrow> i + 1) r"

lemma last_segment_append:
  assumes "CHR ''/'' \<notin> set t"
  shows "last_segment (r @ t) = last_segment r @ t"
proof (cases "rfind_char CHR ''/'' r")
  case None
  with assms have "rfind_char CHR ''/'' (r @ t) = None" by (simp add: rfind_char_None_iff)
  with None show ?thesis by (simp add: last_segment_def)
next
  case (Some i)
  note d = rfind_char_SomeD [OF Some]
  have eq: "r @ t = take i r @ CHR ''/'' # (drop (Suc i) r @ t)"
    using d by (metis append_Cons append_assoc)
  have "rfind_char CHR ''/'' (r @ t) = Some (length (take i r))"
    unfolding eq using d assms by (intro rfind_char_append) simp
  then have "rfind_char CHR ''/'' (r @ t) = Some i" using d by simp
  with Some d show ?thesis by (simp add: last_segment_def)
qed

lemma candidates_cases:
  "candidates reference platform major =
     (let r = strip_oci reference in
      if CHR ''@'' \<in> set r then [r]
      else case split_once CHR '':'' (last_segment r) of
             None \<Rightarrow> [r @ '':protocol-'' @ major @ ''-'' @ platform,
                      r @ '':protocol-'' @ major @ ''-'' @ PORTABLE]
           | Some (_, tag) \<Rightarrow>
               if has_platform_suffix tag then [r] else [r @ ''-'' @ platform, r @ ''-'' @ PORTABLE])"
proof -
  have at: "contains_str ''@'' r \<longleftrightarrow> CHR ''@'' \<in> set r" for r
    by (auto simp: contains_str_iff in_set_conv_decomp)
  have drop: "drop (i + k + 1) r = drop (Suc k) (drop i r)" for i k and r :: string
    by (simp add: add.commute)
  show ?thesis
    unfolding candidates_def Let_def at drop last_segment_def [symmetric]
    by (auto simp: split_once_def split: option.split)
qed

lemma candidates_prefix:
  "c \<in> set (candidates reference platform major) \<Longrightarrow> prefix (strip_oci reference) c"
  by (auto simp: candidates_cases Let_def split: if_splits option.splits)

lemma has_platform_suffix_append:
  "platform \<in> set PLATFORM_SUFFIX_TOKENS \<Longrightarrow> has_platform_suffix (t @ ''-'' @ platform)"
  by (auto simp: has_platform_suffix_def list_ex_iff suffix_def)

lemma platform_chars:
  "platform \<in> set PLATFORM_SUFFIX_TOKENS \<Longrightarrow> CHR ''/'' \<notin> set platform \<and> CHR ''@'' \<notin> set platform"
proof -
  have "list_all (\<lambda>p. CHR ''/'' \<notin> set p \<and> CHR ''@'' \<notin> set p) PLATFORM_SUFFIX_TOKENS" by code_simp
  then show "platform \<in> set PLATFORM_SUFFIX_TOKENS \<Longrightarrow> CHR ''/'' \<notin> set platform \<and> CHR ''@'' \<notin> set platform"
    by (auto simp: list_all_iff)
qed

lemma PORTABLE_token: "PORTABLE \<in> set PLATFORM_SUFFIX_TOKENS"
  by code_simp

text \<open>A reference is final when its artefact is the reference itself.\<close>

definition final_reference :: "string \<Rightarrow> bool" where
  "final_reference r =
     (CHR ''@'' \<in> set r \<or> (\<exists>name tag. split_once CHR '':'' (last_segment r) = Some (name, tag) \<and> has_platform_suffix tag))"

lemma final_candidates: "strip_oci r = r \<Longrightarrow> final_reference r \<Longrightarrow> candidates r platform major = [r]"
  by (auto simp: candidates_cases final_reference_def Let_def)

lemma candidate_final:
  assumes c: "c \<in> set (candidates reference platform major)"
    and platform: "platform \<in> set PLATFORM_SUFFIX_TOKENS" and major: "CHR ''/'' \<notin> set major"
  shows "final_reference c"
proof -
  define r where "r = strip_oci reference"
  note cs = c [unfolded candidates_cases Let_def r_def [symmetric]]
  show ?thesis
  proof (cases "CHR ''@'' \<in> set r")
    case True
    with cs show ?thesis by (simp add: final_reference_def)
  next
    case no_at: False
    show ?thesis
    proof (cases "split_once CHR '':'' (last_segment r)")
      case None
      with cs no_at obtain p where p: "p \<in> set PLATFORM_SUFFIX_TOKENS" "c = r @ '':protocol-'' @ major @ ''-'' @ p"
        using platform PORTABLE_token by auto
      then have "last_segment c = last_segment r @ '':protocol-'' @ major @ ''-'' @ p"
        using major platform_chars by (simp add: last_segment_append)
      with None have "split_once CHR '':'' (last_segment c) = Some (last_segment r, (''protocol-'' @ major) @ ''-'' @ p)"
        by (simp add: split_once_append split_once_None_iff)
      with has_platform_suffix_append [OF p(1)] show ?thesis unfolding final_reference_def by blast
    next
      case (Some nt)
      obtain name tag where nt: "nt = (name, tag)" by (cases nt)
      show ?thesis
      proof (cases "has_platform_suffix tag")
        case True
        with cs no_at Some nt show ?thesis by (simp add: final_reference_def)
      next
        case False
        with cs no_at Some nt obtain p where p: "p \<in> set PLATFORM_SUFFIX_TOKENS" "c = r @ ''-'' @ p"
          using platform PORTABLE_token by auto
        then have "last_segment c = last_segment r @ ''-'' @ p"
          using platform_chars by (simp add: last_segment_append)
        with Some nt have "split_once CHR '':'' (last_segment c) = Some (name, tag @ ''-'' @ p)"
          by (auto simp: split_once_Some_iff)
        with has_platform_suffix_append [OF p(1)] show ?thesis unfolding final_reference_def by blast
      qed
    qed
  qed
qed

section \<open>Properties\<close>

text \<open>
  C25: Resolving stops: an artefact that was named for a source, on one of the known platforms and for
  a protocol major without a slash, names itself and nothing else when it is resolved again, then on
  any platform and for any protocol, unless it still begins with \<^verbatim>\<open>oci:\<close>.
\<close>

theorem candidates_final:
  assumes "c \<in> set (candidates reference platform major)" "platform \<in> set PLATFORM_SUFFIX_TOKENS"
    "CHR ''/'' \<notin> set major" "\<not> prefix ''oci:'' c"
  shows "candidates c platform' major' = [c]"
proof (rule final_candidates)
  show "final_reference c" using assms(1-3) by (rule candidate_final)
  have "\<not> prefix ''oci://'' c" using assms(4) prefix_order.trans [of "''oci:''" "''oci://''" c] by auto
  with assms(4) show "strip_oci c = c" by (simp add: strip_oci_def strip_prefix_def)
qed

theorem candidates_final_witness:
  "candidates ''ghcr.io/a/b:1-linux-amd64'' ''wasi-wasm'' ''2'' = [''ghcr.io/a/b:1-linux-amd64'']"
proof (rule candidates_final)
  show "''ghcr.io/a/b:1-linux-amd64'' \<in> set (candidates ''oci://ghcr.io/a/b:1'' DEFAULT_PLATFORM ''1'')"
    and "DEFAULT_PLATFORM \<in> set PLATFORM_SUFFIX_TOKENS"
    by code_simp+
qed simp_all

text \<open>
  The artefacts the layout check reads for a first-party source are first-party themselves: on
  the registry and below the repositories of the platform, with at most one scheme on the source.
\<close>

lemma first_party_artefact:
  assumes "is_first_party_plugin_ref reference" "\<not> prefix ''oci://oci://'' reference"
    and "c \<in> set (candidates reference platform major)" "artefact_parse c = Some a"
  shows "ar_host a = ''ghcr.io'' \<and> prefix ''mcpg-dev/plugins/'' (ar_repository a)"
proof -
  have "prefix FIRST_PARTY_PLUGIN_PREFIX (strip_oci reference)"
  proof (cases "prefix ''oci://'' reference")
    case True
    then obtain s where s: "reference = ''oci://'' @ s" by (auto simp: prefix_def)
    with assms(2) have "\<not> prefix ''oci://'' s" by auto
    then have "trim_start_matches ''oci://'' reference = s"
      unfolding s by (subst trim_start_matches_append) (auto intro: trim_start_matches_id)
    with assms(1) s show ?thesis by (simp add: is_first_party_plugin_ref_def strip_oci_def strip_prefix_def)
  next
    case False
    with assms(1) have p: "prefix FIRST_PARTY_PLUGIN_PREFIX reference"
      by (simp add: is_first_party_plugin_ref_def trim_start_matches_id)
    then have "\<not> prefix ''oci:'' reference" by (auto simp: FIRST_PARTY_PLUGIN_PREFIX_def prefix_def)
    with False p show ?thesis by (simp add: strip_oci_def strip_prefix_def)
  qed
  with candidates_prefix [OF assms(3)] have "prefix FIRST_PARTY_PLUGIN_PREFIX c"
    using prefix_order.trans by blast
  then obtain base x where c: "c = ''ghcr.io'' @ CHR ''/'' # (base @ x)" and base: "base = ''mcpg-dev/plugins/''"
    by (auto simp: FIRST_PARTY_PLUGIN_PREFIX_def prefix_def)
  have no: "CHR ''@'' \<notin> set base" "CHR '':'' \<notin> set base" by (simp_all add: base)
  have in_front: "us @ x = y # w \<Longrightarrow> y \<notin> set us \<Longrightarrow> us = []" for us w and y :: char
    by (cases us) auto
  have split: "base @ x = u @ y # w \<Longrightarrow> y \<notin> set base \<Longrightarrow> prefix base u" for u w y
    using in_front by (auto simp: append_eq_append_conv2)
  obtain u w where uw: "(case split_once CHR ''@'' (base @ x) of
      Some s \<Rightarrow> Some s | None \<Rightarrow> rsplit_once CHR '':'' (base @ x)) = Some (u, w)"
    and a: "ar_host a = ''ghcr.io'' \<and> ar_repository a = u"
    using assms(4) split_once_append [of "CHR ''/''" "''ghcr.io''" "base @ x"]
    unfolding artefact_parse_def c by (auto split: option.splits if_splits prod.splits)
  have "prefix base u"
    using uw no by (auto simp: split_once_Some_iff rsplit_once_Some_iff split: option.splits intro: split)
  with a base show ?thesis by simp
qed

text \<open>
  With the scheme written twice a source counts as first-party, yet the artefacts read for it
  are looked up on a registry named after the scheme: the two readers strip the scheme differently.
\<close>

theorem repeated_oci_scheme:
  "is_first_party_plugin_ref ''oci://oci://ghcr.io/mcpg-dev/plugins/oidc:1'' \<and>
   map_option ar_host (artefact_parse (hd (candidates ''oci://oci://ghcr.io/mcpg-dev/plugins/oidc:1'' ''linux-amd64'' ''1'')))
     = Some ''oci:''"
  by code_simp

lemma artefact_fields:
  "\<lparr>ar_host = h, ar_repository = u, ar_reference = w\<rparr> = a \<Longrightarrow> u = ar_repository a \<and> w = ar_reference a"
  by auto

lemma parse_tag_iff:
  assumes "ar_host a \<noteq> []" "ar_repository a \<noteq> []" "ar_reference a \<noteq> []" "CHR ''/'' \<notin> set (ar_host a)"
  shows "artefact_parse (show_artefact_tag a) = Some a \<longleftrightarrow>
    (case split_once CHR ''@'' (ar_repository a @ CHR '':'' # ar_reference a) of
       Some s \<Rightarrow> s = (ar_repository a, ar_reference a)
     | None \<Rightarrow> rsplit_once CHR '':'' (ar_repository a @ CHR '':'' # ar_reference a) =
         Some (ar_repository a, ar_reference a))"
proof -
  define rest where "rest = ar_repository a @ CHR '':'' # ar_reference a"
  have "split_once CHR ''/'' (show_artefact_tag a) = Some (ar_host a, rest)"
    using assms(4) by (simp add: show_artefact_tag_def rest_def split_once_append)
  then show ?thesis
    unfolding rest_def [symmetric] using assms(1-3)
    by (auto simp: artefact_parse_def dest: artefact_fields split: option.split)
qed

text \<open>
  An artefact reads back to its host, its repository and its tag or digest, for the ones a
  registry can name: no slash in the host, no at sign in the repository or a tag, no colon in a
  tag.
\<close>

theorem artefact_roundtrip:
  assumes "ar_host a \<noteq> []" "ar_repository a \<noteq> []" "ar_reference a \<noteq> []"
    "CHR ''/'' \<notin> set (ar_host a)" "CHR ''@'' \<notin> set (ar_repository a)"
  shows "artefact_parse (show_artefact_digest a) = Some a \<and>
    (artefact_parse (show_artefact_tag a) = Some a \<longleftrightarrow>
       CHR ''@'' \<notin> set (ar_reference a) \<and> CHR '':'' \<notin> set (ar_reference a))"
proof
  have slash: "split_once CHR ''/'' (ar_host a @ CHR ''/'' # s) = Some (ar_host a, s)" for s
    using assms(4) by (rule split_once_append)
  have "split_once CHR ''@'' (ar_repository a @ CHR ''@'' # ar_reference a) = Some (ar_repository a, ar_reference a)"
    using assms(5) by (rule split_once_append)
  with slash assms(1-3) show "artefact_parse (show_artefact_digest a) = Some a"
    by (simp add: artefact_parse_def show_artefact_digest_def)
  show "artefact_parse (show_artefact_tag a) = Some a \<longleftrightarrow>
      CHR ''@'' \<notin> set (ar_reference a) \<and> CHR '':'' \<notin> set (ar_reference a)"
  proof (cases "CHR ''@'' \<in> set (ar_reference a)")
    case True
    then obtain x y where "ar_reference a = x @ CHR ''@'' # y" "CHR ''@'' \<notin> set x"
      by (meson split_list_first)
    then have "split_once CHR ''@'' (ar_repository a @ CHR '':'' # ar_reference a) =
        Some (ar_repository a @ CHR '':'' # x, y)"
      using assms(5) split_once_append [of "CHR ''@''" "ar_repository a @ CHR '':'' # x" y] by simp
    then show ?thesis using True by (simp add: parse_tag_iff [OF assms(1-4)])
  next
    case False
    then have "split_once CHR ''@'' (ar_repository a @ CHR '':'' # ar_reference a) = None"
      using assms(5) by (simp add: split_once_None_iff)
    then show ?thesis using False
      by (auto simp: parse_tag_iff [OF assms(1-4)] rsplit_once_append rsplit_once_Some_iff)
  qed
qed

theorem artefact_roundtrip_witness:
  "artefact_parse ''ghcr.io/a/b:1'' = Some \<lparr>ar_host = ''ghcr.io'', ar_repository = ''a/b'', ar_reference = ''1''\<rparr>"
  using artefact_roundtrip [of "\<lparr>ar_host = ''ghcr.io'', ar_repository = ''a/b'', ar_reference = ''1''\<rparr>"]
  by (simp add: show_artefact_tag_def)

text \<open>
  C26: The assessment is what each source says of itself: the loop over the probed sources gives, in
  their order, one outcome each, the violation of each that holds the publish, the warning of each
  that could not be read, one warning that names all that record no layout, and one that names all
  custom sources. So it lets a publish pass exactly when no artefact is missing or of another layout.
\<close>

theorem assess_complete:
  "assess release probed custom =
     \<lparr>la_violations = List.map_filter (violation_of release) probed,
      la_warnings = List.map_filter (unread_of release) probed
        @ (case List.map_filter unrecorded_of probed of [] \<Rightarrow> [] | names \<Rightarrow> [not_recorded_warning release names])
        @ (if custom = [] then [] else [custom_warning release custom]),
      la_outcomes = map (outcome_of release) probed @ replicate (length custom) ''custom''\<rparr> \<and>
   (la_violations (assess release probed custom) = [] \<longleftrightarrow> \<not> list_ex (holds_publish release) probed)"
proof -
  have "List.map_filter (violation_of release) probed = [] \<longleftrightarrow> \<not> list_ex (holds_publish release) probed"
    by (induction probed) (auto simp: violation_of_None_iff [symmetric] split: option.splits)
  then show ?thesis
    by (simp add: assess_def assess_loop Let_def split: list.split)
qed

end
