(* ===== verification/RateLimit.thy ===== *)
theory RateLimit imports F64 Net "HOL-Library.AList" begin

text \<open>
  \<^verbatim>\<open>src/src/ratelimit.rs\<close>: the per-IP token bucket. An \<^verbatim>\<open>Instant\<close> is a number of nanoseconds from
  a fixed origin, a \<^verbatim>\<open>Duration\<close> a number of nanoseconds, an \<^verbatim>\<open>f64\<close> a rational kept rounded by
  \<^verbatim>\<open>f64_round\<close>. The locked hash map is an association list with distinct keys, whose order
  nothing depends on; a check is one step here, and its statements are in \<^verbatim>\<open>RateLocks\<close>.
\<close>

definition MAX_TRACKED_IPS :: nat where
  "MAX_TRACKED_IPS = 100000"

definition IDLE_EVICT :: nat where
  "IDLE_EVICT = 600 * 1000000000"

record bucket =
  tokens :: rat
  last_at :: nat

record rate_limiter =
  buckets :: "(ip_addr \<times> bucket) list"
  capacity :: rat
  refill_per_sec :: rat
  trust_proxy :: bool

definition rl_new :: "u32 \<Rightarrow> u32 \<Rightarrow> bool \<Rightarrow> rate_limiter" where
  "rl_new per_min burst trust =
     \<lparr>buckets = [], capacity = of_int (uint (max burst 1)),
      refill_per_sec = f64_round (of_int (uint per_min) / 60), trust_proxy = trust\<rparr>"

definition rl_enabled :: "rate_limiter \<Rightarrow> bool" where
  "rl_enabled rl = (refill_per_sec rl > 0)"

definition client_ip :: "rate_limiter \<Rightarrow> string option \<Rightarrow> ip_addr option \<Rightarrow> ip_addr" where
  "client_ip rl xff peer =
     (case (if trust_proxy rl
            then Option.bind xff (\<lambda>xff. parse_ip (trim_ws (hd (split_on CHR '','' xff))))
            else None) of
        Some ip \<Rightarrow> ip
      | None \<Rightarrow> (case peer of Some ip \<Rightarrow> ip | None \<Rightarrow> V4 0 0 0 0))"

text \<open>\<^verbatim>\<open>Duration::as_secs_f64\<close>: whole seconds plus the nanoseconds over a billion.\<close>

definition as_secs_f64 :: "nat \<Rightarrow> rat" where
  "as_secs_f64 ns =
     f64_round (f64_round (of_nat (ns div 1000000000))
       + f64_round (of_nat (ns mod 1000000000) / 1000000000))"

definition saturating_duration_since :: "nat \<Rightarrow> nat \<Rightarrow> nat" where
  "saturating_duration_since now earlier = now - earlier"

definition retain_fresh :: "nat \<Rightarrow> (ip_addr \<times> bucket) list \<Rightarrow> (ip_addr \<times> bucket) list" where
  "retain_fresh now m =
     filter (\<lambda>(_, b). saturating_duration_since now (last_at b) < IDLE_EVICT) m"

definition check_at :: "rate_limiter \<Rightarrow> ip_addr \<Rightarrow> nat \<Rightarrow> bool \<times> rate_limiter" where
  "check_at rl ip now =
     (if \<not> rl_enabled rl then (True, rl)
      else
        (let m = (if length (buckets rl) > MAX_TRACKED_IPS then retain_fresh now (buckets rl)
                  else buckets rl);
             b = (case map_of m ip of
                    Some b \<Rightarrow> b | None \<Rightarrow> \<lparr>tokens = capacity rl, last_at = now\<rparr>);
             elapsed = as_secs_f64 (saturating_duration_since now (last_at b));
             t = min (f64_round (tokens b + f64_round (elapsed * refill_per_sec rl))) (capacity rl)
         in if t \<ge> 1
            then (True, rl\<lparr>buckets := AList.update ip \<lparr>tokens = f64_round (t - 1), last_at = now\<rparr> m\<rparr>)
            else (False, rl\<lparr>buckets := AList.update ip \<lparr>tokens = t, last_at = now\<rparr> m\<rparr>)))"

text \<open>\<^verbatim>\<open>check\<close> reads the clock; here the instant it reads is an argument.\<close>

definition rl_check :: "rate_limiter \<Rightarrow> ip_addr \<Rightarrow> nat \<Rightarrow> bool \<times> rate_limiter" where
  "rl_check rl ip clock = check_at rl ip clock"

text \<open>A sequence of checks, in the order they take the lock: the verdicts and the final state.\<close>

fun run_checks :: "rate_limiter \<Rightarrow> (ip_addr \<times> nat) list \<Rightarrow> bool list \<times> rate_limiter" where
  "run_checks rl [] = ([], rl)"
| "run_checks rl ((ip, now) # evs) =
     (case check_at rl ip now of (ok, rl') \<Rightarrow>
       (case run_checks rl' evs of (oks, rl'') \<Rightarrow> (ok # oks, rl'')))"

section \<open>What one check does\<close>

lemma check_at_config [simp]:
  "capacity (snd (check_at rl ip now)) = capacity rl"
  "refill_per_sec (snd (check_at rl ip now)) = refill_per_sec rl"
  "trust_proxy (snd (check_at rl ip now)) = trust_proxy rl"
  by (simp_all add: check_at_def Let_def)

definition lookup :: "rate_limiter \<Rightarrow> ip_addr \<Rightarrow> bucket option" where
  "lookup rl ip = map_of (buckets rl) ip"

text \<open>The buckets a check at \<^verbatim>\<open>now\<close> sees: those eviction leaves.\<close>

definition surviving :: "rate_limiter \<Rightarrow> nat \<Rightarrow> ip_addr \<Rightarrow> bucket option" where
  "surviving rl now ip =
     map_of (if length (buckets rl) > MAX_TRACKED_IPS then retain_fresh now (buckets rl)
             else buckets rl) ip"

definition distinct_buckets :: "rate_limiter \<Rightarrow> bool" where
  "distinct_buckets rl = distinct (map fst (buckets rl))"

lemma distinct_retain: "distinct (map fst m) \<Longrightarrow> distinct (map fst (retain_fresh now m))"
  by (simp add: retain_fresh_def distinct_map_filter)

lemma map_of_retain:
  "distinct (map fst m) \<Longrightarrow> map_of (retain_fresh now m) ip =
     (case map_of m ip of Some b \<Rightarrow> if saturating_duration_since now (last_at b) < IDLE_EVICT then Some b else None
      | None \<Rightarrow> None)"
  by (induction m)
    (auto simp: retain_fresh_def map_of_eq_None_iff image_iff split: option.splits)

lemma surviving_cases:
  assumes "distinct_buckets rl"
  shows "surviving rl now ip = lookup rl ip \<or>
    (\<exists>b. lookup rl ip = Some b \<and> surviving rl now ip = None \<and>
       IDLE_EVICT \<le> saturating_duration_since now (last_at b))"
  using assms by (auto simp: surviving_def lookup_def distinct_buckets_def map_of_retain split: option.split)

text \<open>The bucket a check charges, refilled, and what it stores.\<close>

definition refilled :: "rate_limiter \<Rightarrow> nat \<Rightarrow> bucket option \<Rightarrow> rat" where
  "refilled rl now found =
     (let b = (case found of Some b \<Rightarrow> b | None \<Rightarrow> \<lparr>tokens = capacity rl, last_at = now\<rparr>) in
      min (f64_round (tokens b + f64_round
        (as_secs_f64 (saturating_duration_since now (last_at b)) * refill_per_sec rl))) (capacity rl))"

lemma check_at_verdict:
  "rl_enabled rl \<Longrightarrow> fst (check_at rl ip now) \<longleftrightarrow> 1 \<le> refilled rl now (surviving rl now ip)"
  by (auto simp: check_at_def refilled_def surviving_def Let_def)

lemma check_at_lookup:
  "rl_enabled rl \<Longrightarrow> lookup (snd (check_at rl ip now)) ip' =
     (if ip' = ip
      then Some \<lparr>tokens = (let t = refilled rl now (surviving rl now ip)
                            in if 1 \<le> t then f64_round (t - 1) else t), last_at = now\<rparr>
      else surviving rl now ip')"
  by (auto simp: check_at_def refilled_def surviving_def lookup_def Let_def update_conv)

lemma check_at_distinct:
  "distinct_buckets rl \<Longrightarrow> distinct_buckets (snd (check_at rl ip now))"
  by (auto simp: check_at_def distinct_buckets_def Let_def distinct_update distinct_retain)

lemma check_at_disabled: "\<not> rl_enabled rl \<Longrightarrow> check_at rl ip now = (True, rl)"
  by (simp add: check_at_def)

section \<open>The invariant of the buckets\<close>

definition wf_limiter :: "rate_limiter \<Rightarrow> bool" where
  "wf_limiter rl =
     (distinct_buckets rl \<and> 0 \<le> refill_per_sec rl
      \<and> (\<exists>cap. 1 \<le> cap \<and> cap < 2 ^ 32 \<and> capacity rl = of_int cap)
      \<and> (\<forall>(ip, b) \<in> set (buckets rl). 0 \<le> tokens b \<and> tokens b \<le> capacity rl))"

lemma rl_new_wf: "wf_limiter (rl_new per_min burst trust)"
proof -
  have one: "uint (1 :: u32) = 1" by simp
  have "1 \<le> uint (max burst 1)" "uint (max burst 1) < 2 ^ 32"
    using uint_lt2p [of "max burst 1"] by (auto simp: max_def word_le_def)
  moreover have "0 \<le> f64_round (of_int (uint per_min) / 60)"
    by (rule f64.rnd_nonneg, rule divide_nonneg_nonneg, rule of_int_0_le_iff [THEN iffD2],
        rule uint_ge_0, simp)
  ultimately show ?thesis
    by (auto simp: wf_limiter_def rl_new_def distinct_buckets_def)
qed

lemma wf_limiter_capacity:
  assumes "wf_limiter rl"
  shows "1 \<le> capacity rl" "capacity rl \<le> 2 ^ 32" "0 \<le> refill_per_sec rl"
proof -
  from assms obtain cap where c: "1 \<le> cap" "cap < 2 ^ 32" "capacity rl = of_int cap"
    by (auto simp: wf_limiter_def)
  have "(of_int cap :: rat) \<le> of_int (2 ^ 32)" using c(2) by (simp only: of_int_le_iff)
  with c show "1 \<le> capacity rl" "capacity rl \<le> 2 ^ 32" by simp_all
  show "0 \<le> refill_per_sec rl" using assms by (simp add: wf_limiter_def)
qed

lemma seconds_split:
  "(of_nat ns :: rat) / 10 ^ 9 = of_nat (ns div 1000000000) + of_nat (ns mod 1000000000) / 1000000000"
proof -
  have "1000000000 * of_nat (ns div 1000000000) + of_nat (ns mod 1000000000) = (of_nat ns :: rat)"
    using arg_cong [where f = "of_nat :: nat \<Rightarrow> rat", OF mult_div_mod_eq [of 1000000000 ns]]
    unfolding of_nat_add of_nat_mult by simp
  then show ?thesis by (simp add: field_simps)
qed

lemma as_secs_nonneg: "0 \<le> as_secs_f64 ns"
  by (simp add: as_secs_f64_def f64.rnd_nonneg)

lemma wf_lookup:
  "wf_limiter rl \<Longrightarrow> lookup rl ip = Some b \<Longrightarrow> 0 \<le> tokens b \<and> tokens b \<le> capacity rl"
  by (auto simp: wf_limiter_def lookup_def dest: map_of_SomeD)

lemma wf_surviving:
  "wf_limiter rl \<Longrightarrow> surviving rl now ip = Some b \<Longrightarrow> 0 \<le> tokens b \<and> tokens b \<le> capacity rl"
  using surviving_cases [of rl now ip] wf_lookup [of rl ip b] by (auto simp: wf_limiter_def)

lemma refilled_bounds:
  assumes "wf_limiter rl"
  shows "0 \<le> refilled rl now (surviving rl now ip)" "refilled rl now (surviving rl now ip) \<le> capacity rl"
proof -
  note wf = wf_limiter_capacity [OF assms]
  show "refilled rl now (surviving rl now ip) \<le> capacity rl"
    by (simp add: refilled_def Let_def)
  have d: "0 \<le> f64_round (as_secs_f64 ns * refill_per_sec rl)" for ns
    using wf(3) as_secs_nonneg [of ns] by (intro f64.rnd_nonneg) simp
  have "0 \<le> f64_round (t + f64_round (as_secs_f64 ns * refill_per_sec rl))" if "0 \<le> t" for t ns
    by (rule f64.rnd_nonneg, rule add_nonneg_nonneg, rule that, rule d)
  with wf(1) wf_surviving [OF assms, of now ip] show "0 \<le> refilled rl now (surviving rl now ip)"
    by (auto simp: refilled_def Let_def split: option.split)
qed

text \<open>Taking a token never leaves more than was there: the difference is at most the capacity.\<close>

lemma round_take:
  assumes "1 \<le> t" "t \<le> cap" "cap \<le> 2 ^ 32"
  shows "0 \<le> f64_round (t - 1)" "f64_round (t - 1) \<le> t - 1 + 1 / 2 ^ 21" "f64_round (t - 1) \<le> cap"
proof -
  show "0 \<le> f64_round (t - 1)" using assms(1) by (intro f64.rnd_nonneg) simp
  have "f64_round (t - 1) \<le> (t - 1) * (1 + 1 / 2 ^ 53)" using assms(1) by (intro f64.rnd_upper) simp
  also have "\<dots> = t - 1 + (t - 1) / 2 ^ 53" by (simp add: field_simps)
  also have "(t - 1) / 2 ^ 53 \<le> 2 ^ 32 / 2 ^ 53" using assms by (intro divide_right_mono) auto
  finally show le: "f64_round (t - 1) \<le> t - 1 + 1 / 2 ^ 21" by simp
  with assms(2) show "f64_round (t - 1) \<le> cap" by simp
qed

lemma check_at_stored_bounds:
  fixes now ip
  assumes "wf_limiter rl"
  defines "t \<equiv> refilled rl now (surviving rl now ip)"
  shows "0 \<le> (if 1 \<le> t then f64_round (t - 1) else t)" "(if 1 \<le> t then f64_round (t - 1) else t) \<le> capacity rl"
  using refilled_bounds [OF assms(1), of now ip] round_take [of t "capacity rl"]
    wf_limiter_capacity(2) [OF assms(1)] unfolding t_def by auto

lemma check_at_wf:
  assumes "wf_limiter rl"
  shows "wf_limiter (snd (check_at rl ip now))"
proof (cases "rl_enabled rl")
  case True
  have "0 \<le> tokens b \<and> tokens b \<le> capacity rl"
    if "(ip', b) \<in> set (buckets (snd (check_at rl ip now)))" for ip' b
  proof -
    have d: "distinct_buckets (snd (check_at rl ip now))"
      using assms by (intro check_at_distinct) (simp add: wf_limiter_def)
    with that have "lookup (snd (check_at rl ip now)) ip' = Some b"
      by (simp add: lookup_def distinct_buckets_def)
    then show ?thesis
      using check_at_stored_bounds [OF assms, of now ip] wf_surviving [OF assms, of now ip' b]
      unfolding check_at_lookup [OF True] by (auto simp: Let_def split: if_splits)
  qed
  with assms check_at_distinct [of rl ip now] show ?thesis by (auto simp: wf_limiter_def)
qed (use assms in \<open>simp add: check_at_disabled\<close>)

lemma run_checks_wf: "wf_limiter rl \<Longrightarrow> wf_limiter (snd (run_checks rl evs))"
  by (induction rl evs rule: run_checks.induct)
    (auto split: prod.splits dest: check_at_wf, metis check_at_wf snd_conv)

section \<open>A burst at one instant\<close>

lemma f64_round_of_int: "0 \<le> k \<Longrightarrow> k < 2 ^ 53 \<Longrightarrow> f64_round (of_int k) = of_int k"
  by (rule f64.exact_int)

lemma burst_step:
  assumes "rl_enabled rl" "capacity rl = of_int cap" "0 \<le> k" "k \<le> cap" "cap < 2 ^ 32"
    and "buckets rl = [(ip, \<lparr>tokens = of_int k, last_at = t\<rparr>)] \<or> buckets rl = [] \<and> k = cap"
  shows "check_at rl ip t = (1 \<le> k, rl\<lparr>buckets :=
    [(ip, \<lparr>tokens = of_int (if 1 \<le> k then k - 1 else k), last_at = t\<rparr>)]\<rparr>)"
proof -
  have zero: "as_secs_f64 0 = 0" by (simp add: as_secs_f64_def f64_round_def)
  have z: "f64_round 0 = 0" by (simp add: f64_round_def)
  have k: "f64_round (of_int k) = of_int k" using assms by (intro f64_round_of_int) auto
  have k1: "1 \<le> k \<Longrightarrow> f64_round (of_int k - 1) = of_int k - 1"
    using f64_round_of_int [of "k - 1"] assms by simp
  have m: "min (of_int k) (of_int cap) = (of_int k :: rat)" using assms(4) by (simp add: min_def)
  have found: "(case map_of (buckets rl) ip of Some b \<Rightarrow> b
      | None \<Rightarrow> \<lparr>tokens = capacity rl, last_at = t\<rparr>) = \<lparr>tokens = of_int k, last_at = t\<rparr>"
    using assms(2,6) by auto
  have upd: "AList.update ip b (buckets rl) = [(ip, b)]" for b using assms(6) by auto
  have len: "\<not> length (buckets rl) > MAX_TRACKED_IPS" using assms(6) by (auto simp: MAX_TRACKED_IPS_def)
  show ?thesis
    unfolding check_at_def Let_def if_not_P [OF len] found upd
    using assms(1,2) by (simp add: saturating_duration_since_def zero z k k1 m)
qed

lemma burst_run:
  assumes "rl_enabled rl" "capacity rl = of_int cap" "0 \<le> k" "k \<le> cap" "cap < 2 ^ 32"
    and "buckets rl = [(ip, \<lparr>tokens = of_int k, last_at = t\<rparr>)] \<or> buckets rl = [] \<and> k = cap"
  shows "fst (run_checks rl (replicate n (ip, t))) = map (\<lambda>i. int i < k) [0..<n]"
  using assms
proof (induction n arbitrary: rl k)
  case (Suc n)
  let ?k = "if 1 \<le> k then k - 1 else k"
  let ?rl = "rl\<lparr>buckets := [(ip, \<lparr>tokens = of_int ?k, last_at = t\<rparr>)]\<rparr>"
  have "fst (run_checks ?rl (replicate n (ip, t))) = map (\<lambda>i. int i < ?k) [0..<n]"
    using Suc.prems by (intro Suc.IH) (auto simp: rl_enabled_def)
  moreover have "(\<lambda>i. int i < ?k) = (\<lambda>i. int (Suc i) < k)" using Suc.prems(3) by auto
  ultimately show ?case
    using Suc.prems(3) burst_step [OF Suc.prems]
    by (simp add: map_upt_Suc split: prod.split del: upt_Suc) auto
qed simp

section \<open>Properties\<close>

lemma rl_new_enabled: "rl_enabled (rl_new per_min burst trust) \<longleftrightarrow> 0 < per_min"
proof (cases "per_min = 0")
  case False
  then have "(0 :: rat) < of_int (uint per_min)"
    by (intro of_int_0_less_iff [THEN iffD2]) (simp add: uint_0_iff less_le)
  then have "0 < f64_round (of_int (uint per_min) / 60)" by (intro f64.rnd_pos) simp
  with False show ?thesis by (simp add: rl_enabled_def rl_new_def word_neq_0_conv)
qed (simp add: rl_enabled_def rl_new_def f64_round_def)

lemma rl_new_fields:
  "refill_per_sec (rl_new per_min burst trust) = f64_round (of_int (uint per_min) / 60)"
  "capacity (rl_new per_min burst trust) = of_int (uint (max burst 1))"
  "buckets (rl_new per_min burst trust) = []" "trust_proxy (rl_new per_min burst trust) = trust"
  by (simp_all add: rl_new_def)

text \<open>
  At one instant a new client is allowed exactly its burst: the first requests up to the
  capacity pass and every later one is refused.
\<close>

theorem burst_exact:
  assumes "0 < per_min"
  shows "fst (run_checks (rl_new per_min burst trust) (replicate n (ip, t)))
    = map (\<lambda>i. i < unat (max burst 1)) [0..<n]"
proof -
  have "fst (run_checks (rl_new per_min burst trust) (replicate n (ip, t)))
    = map (\<lambda>i. int i < uint (max burst 1)) [0..<n]"
    using assms uint_lt2p [of "max burst 1"]
    by (intro burst_run) (simp_all add: rl_new_enabled rl_new_fields del: of_int_uint)
  moreover have "int i < uint (max burst 1) \<longleftrightarrow> i < unat (max burst 1)" for i
    by (simp only: uint_nat of_nat_less_iff)
  ultimately show ?thesis by (simp only:)
qed

theorem burst_exact_witness:
  "fst (run_checks (rl_new 60 2 False) (replicate 4 (V4 10 0 0 1, 7))) = [True, True, False, False]"
proof -
  have "unat (max 2 1 :: u32) = 2" by code_simp
  with burst_exact [of 60 2 False 4 "V4 10 0 0 1" 7] show ?thesis by (simp add: upt_rec)
qed

text \<open>
  C18: Every reachable limiter keeps one bucket per client, with between zero and the capacity
  tokens in it.
\<close>

theorem limiter_invariant:
  "wf_limiter (snd (run_checks (rl_new per_min burst trust) evs))"
  by (rule run_checks_wf [OF rl_new_wf])

text \<open>
  Below the tracking limit clients do not affect each other: a check of one leaves the verdict
  of a later check of another as it was.
\<close>

theorem clients_isolated:
  assumes "length (buckets rl) < MAX_TRACKED_IPS" "ip' \<noteq> ip"
  shows "fst (check_at (snd (check_at rl ip now)) ip' now') = fst (check_at rl ip' now')"
proof (cases "rl_enabled rl")
  case True
  have len: "length (AList.update k v m) \<le> Suc (length m)" for k v and m :: "(ip_addr \<times> bucket) list"
    by (induction m) auto
  have "length (buckets (snd (check_at rl ip now))) \<le> MAX_TRACKED_IPS"
    using assms(1) le_trans [OF len] by (auto simp: check_at_def Let_def)
  then have "surviving (snd (check_at rl ip now)) now' ip' = lookup (snd (check_at rl ip now)) ip'"
    by (simp add: surviving_def lookup_def)
  also have "\<dots> = surviving rl now' ip'"
    using assms by (simp add: check_at_lookup [OF True] surviving_def)
  finally have surv: "surviving (snd (check_at rl ip now)) now' ip' = surviving rl now' ip'" .
  have refill: "refilled (snd (check_at rl ip now)) now' x = refilled rl now' x" for x
    by (cases x) (simp_all add: refilled_def)
  show ?thesis
    using True by (subst (1 2) check_at_verdict) (simp_all add: rl_enabled_def refill surv)
qed (simp add: check_at_disabled)

theorem clients_isolated_witness:
  "fst (check_at (snd (check_at (rl_new 60 1 False) (V4 10 0 0 1) 5)) (V4 10 0 0 2) 6)
     = fst (check_at (rl_new 60 1 False) (V4 10 0 0 2) 6)"
  by (rule clients_isolated) (simp_all add: rl_new_fields MAX_TRACKED_IPS_def)

text \<open>
  The limiter is a no-op exactly when the rate is zero: it is enabled for any other rate, and
  disabled it admits every check and tracks nothing.
\<close>

theorem zero_rate_disables:
  "(rl_enabled (rl_new per_min burst trust) \<longleftrightarrow> 0 < per_min) \<and>
   run_checks (rl_new 0 burst trust) evs = (replicate (length evs) True, rl_new 0 burst trust)"
proof (intro conjI rl_new_enabled)
  have "\<not> rl_enabled (rl_new 0 burst trust)" by (simp add: rl_new_enabled)
  then show "run_checks (rl_new 0 burst trust) evs = (replicate (length evs) True, rl_new 0 burst trust)"
    by (induction evs) (auto simp: check_at_disabled)
qed

text \<open>
  C19: Without proxy trust the forwarded header is ignored; with it, a first hop that is a dotted
  quad is the client, whatever follows the comma and whatever the transport peer.
\<close>

theorem client_ip_trust:
  assumes "rest = [] \<or> hd rest = CHR '',''"
  shows "client_ip (rl_new per_min burst False) xff peer = (case peer of Some ip \<Rightarrow> ip | None \<Rightarrow> V4 0 0 0 0) \<and>
    client_ip (rl_new per_min burst True) (Some (show_v4 a b c d @ rest)) peer = V4 a b c d"
proof
  show "client_ip (rl_new per_min burst False) xff peer = (case peer of Some ip \<Rightarrow> ip | None \<Rightarrow> V4 0 0 0 0)"
    by (simp add: client_ip_def rl_new_fields)
  have c: "x \<in> set (show_v4 a b c d) \<Longrightarrow> is_ascii_digit x \<or> x = CHR ''.''" for x by (rule show_v4_chars)
  have "takeWhile (\<lambda>x. x \<noteq> CHR '','') (show_v4 a b c d @ rest) = show_v4 a b c d"
  proof -
    have "\<forall>x \<in> set (show_v4 a b c d). x \<noteq> CHR '',''" using c by (force simp: is_ascii_digit_def)
    moreover have "takeWhile (\<lambda>x. x \<noteq> CHR '','') rest = []" using assms by (cases rest) auto
    ultimately show ?thesis by simp
  qed
  then have hop: "hd (split_on CHR '','' (show_v4 a b c d @ rest)) = show_v4 a b c d"
    by (simp add: split_on_hd)
  have "ascii_graphic x" if "x \<in> set (show_v4 a b c d)" for x
    using c [OF that] is_ascii_digit_graphic by (auto simp: ascii_graphic_def)
  then have "trim_ws (show_v4 a b c d) = show_v4 a b c d" by (intro trim_ws_id) simp
  then show "client_ip (rl_new per_min burst True) (Some (show_v4 a b c d @ rest)) peer = V4 a b c d"
    by (simp add: client_ip_def rl_new_fields hop)
qed

theorem client_ip_trust_witness:
  "client_ip (rl_new 60 1 True) (Some ''203.0.113.7, 10.0.0.1'') None = V4 203 0 113 7"
proof -
  have "show_v4 203 0 113 7 @ '', 10.0.0.1'' = ''203.0.113.7, 10.0.0.1''" by code_simp
  with client_ip_trust [of "'', 10.0.0.1''" 60 1 None None 203 0 113 7] show ?thesis by simp
qed

text \<open>
  An instant that goes backwards is stored as the bucket's last one, and the time up to the
  next check is credited again. The instant is read before the lock is taken, so two threads can
  pass their checks in this order: three requests of one client pass within a second under a limit
  of one per second with a burst of one.
\<close>

theorem backward_instant_credited_twice:
  "fst (run_checks (rl_new 60 1 False)
     [(V4 10 0 0 1, 0), (V4 10 0 0 1, 1000000000), (V4 10 0 0 1, 0), (V4 10 0 0 1, 1000000000)])
   = [True, True, False, True]"
proof -
  have f: "f64_round 0 = 0" "f64_round 1 = 1" "f64_round 2 = 2"
    using f64_round_of_int [of 0] f64_round_of_int [of 1] f64_round_of_int [of 2] by simp_all
  have "rl_new 60 1 False = \<lparr>buckets = [], capacity = 1, refill_per_sec = 1, trust_proxy = False\<rparr>"
    by (simp add: rl_new_def f)
  then show ?thesis
    by (simp add: check_at_def rl_enabled_def Let_def MAX_TRACKED_IPS_def as_secs_f64_def
          saturating_duration_since_def f)
qed

end
