(* ===== verification/RateSpec.thy ===== *)
theory RateSpec imports RateLimit begin

text \<open>
  What the rate limiter promises one client, apart from the map, the eviction and the other
  clients: a token bucket of its own. The limiter refines it when a full bucket refills within the
  idle time after which it is evicted.
\<close>

section \<open>The bucket of one client\<close>

text \<open>The verdicts of a client's checks at the given instants, from a bucket or from none.\<close>

fun client_run :: "rate_limiter \<Rightarrow> bucket option \<Rightarrow> nat list \<Rightarrow> bool list" where
  "client_run rl found [] = []"
| "client_run rl found (now # ts) =
     (let t = refilled rl now found in
      (1 \<le> t) # client_run rl (Some \<lparr>tokens = (if 1 \<le> t then f64_round (t - 1) else t), last_at = now\<rparr>) ts)"

definition instants_of :: "ip_addr \<Rightarrow> (ip_addr \<times> nat) list \<Rightarrow> nat list" where
  "instants_of ip evs = map snd (filter (\<lambda>(ip', _). ip' = ip) evs)"

definition verdicts_of :: "ip_addr \<Rightarrow> (ip_addr \<times> nat) list \<Rightarrow> bool list \<Rightarrow> bool list" where
  "verdicts_of ip evs oks = map snd (filter (\<lambda>((ip', _), _). ip' = ip) (zip evs oks))"

lemma of_client_simps [simp]:
  "instants_of ip [] = []" "verdicts_of ip [] oks = []"
  "instants_of ip ((ip', now) # evs) = (if ip' = ip then [now] else []) @ instants_of ip evs"
  "verdicts_of ip ((ip', now) # evs) (ok # oks) = (if ip' = ip then [ok] else []) @ verdicts_of ip evs oks"
  by (simp_all add: instants_of_def verdicts_of_def)

section \<open>What a refill gives at least\<close>

lemma as_secs_lower: "of_nat ns / 10 ^ 9 * (1 - 1 / 2 ^ 53) ^ 2 \<le> as_secs_f64 ns"
proof -
  let ?u = "1 - 1 / 2 ^ 53 :: rat"
  let ?s = "of_nat (ns div 1000000000) :: rat" and ?r = "of_nat (ns mod 1000000000) / 1000000000 :: rat"
  have ns: "of_nat ns / 10 ^ 9 = ?s + ?r" by (rule seconds_split)
  have "of_nat ns / 10 ^ 9 * ?u = ?s * ?u + ?r * ?u" unfolding ns by (simp only: distrib_right)
  also have "\<dots> \<le> f64_round ?s + f64_round ?r" by (intro add_mono f64.rnd_lower) auto
  finally have "of_nat ns / 10 ^ 9 * ?u * ?u \<le> as_secs_f64 ns"
    unfolding as_secs_f64_def by (intro f64.rnd_lower_le add_nonneg_nonneg f64.rnd_nonneg) auto
  then show ?thesis by (simp add: power2_eq_square mult.assoc)
qed

lemma refill_lower:
  assumes rate: "refill_per_sec rl = f64_round (of_int (uint (per_min :: u32)) / 60)" and t: "0 \<le> tokens b"
  shows "of_nat ns / 10 ^ 9 * (of_int (uint per_min) / 60) * (1 - 5 / 2 ^ 53) \<le>
    f64_round (tokens b + f64_round (as_secs_f64 ns * refill_per_sec rl))"
proof -
  let ?u = "1 - 1 / 2 ^ 53 :: rat"
  let ?rate = "of_int (uint per_min) / 60 :: rat" and ?s = "of_nat ns / 10 ^ 9 :: rat"
  have r: "0 \<le> ?rate" by (intro divide_nonneg_nonneg of_int_0_le_iff [THEN iffD2] uint_ge_0) simp
  have x: "0 \<le> ?s * ?rate" by (rule mult_nonneg_nonneg [OF _ r]) simp
  have f: "?rate * ?u \<le> refill_per_sec rl" "0 \<le> refill_per_sec rl"
    unfolding rate using f64.rnd_lower [OF r] f64.rnd_nonneg [OF r] by simp_all
  have "?s * ?u ^ 2 * (?rate * ?u) \<le> as_secs_f64 ns * refill_per_sec rl"
    using r by (intro mult_mono as_secs_lower f as_secs_nonneg mult_nonneg_nonneg) auto
  then have d: "?s * ?u ^ 2 * (?rate * ?u) * ?u \<le> f64_round (as_secs_f64 ns * refill_per_sec rl)"
    using as_secs_nonneg f(2) by (intro f64.rnd_lower_le mult_nonneg_nonneg)
  also have "\<dots> \<le> tokens b + f64_round (as_secs_f64 ns * refill_per_sec rl)" using t by simp
  finally have "?s * ?u ^ 2 * (?rate * ?u) * ?u * ?u \<le>
      f64_round (tokens b + f64_round (as_secs_f64 ns * refill_per_sec rl))"
    using as_secs_nonneg f(2) t by (intro f64.rnd_lower_le add_nonneg_nonneg f64.rnd_nonneg mult_nonneg_nonneg)
  moreover have "?s * ?u ^ 2 * (?rate * ?u) * ?u * ?u = ?s * ?rate * (?u ^ 2 * ?u * ?u * ?u)"
    by (simp only: mult.assoc mult.commute mult.left_commute)
  moreover have "?s * ?rate * (1 - 5 / 2 ^ 53) \<le> ?s * ?rate * (?u ^ 2 * ?u * ?u * ?u)"
    by (intro mult_left_mono x) (simp add: power2_eq_square)
  ultimately show ?thesis by linarith
qed

lemma refilled_None: "wf_limiter rl \<Longrightarrow> refilled rl now None = capacity rl"
proof -
  assume wf: "wf_limiter rl"
  then obtain cap where c: "1 \<le> cap" "cap < 2 ^ 32" "capacity rl = of_int cap" by (auto simp: wf_limiter_def)
  have "as_secs_f64 0 = 0" "f64_round 0 = 0" by (simp_all add: as_secs_f64_def f64_round_def)
  moreover have "f64_round (of_int cap) = of_int cap" using c by (intro f64_round_of_int) auto
  ultimately show ?thesis by (simp add: refilled_def saturating_duration_since_def c(3))
qed

text \<open>An idle bucket is full again, when the burst is below what ten minutes refill.\<close>

lemma refilled_idle:
  assumes wf: "wf_limiter rl" and rate: "refill_per_sec rl = f64_round (of_int (uint (per_min :: u32)) / 60)"
    and burst: "capacity rl \<le> 10 * of_int (uint per_min) - 1"
    and b: "0 \<le> tokens b" "IDLE_EVICT \<le> now - last_at b"
  shows "refilled rl now (Some b) = capacity rl"
proof -
  let ?p = "of_int (uint per_min) :: rat" and ?ns = "now - last_at b"
  have p: "0 \<le> ?p" "?p \<le> 2 ^ 32"
  proof -
    show "0 \<le> ?p" by (intro of_int_0_le_iff [THEN iffD2] uint_ge_0)
    have "uint per_min < 2 ^ 32" using uint_lt2p [of per_min] by auto
    then have "uint per_min \<le> 2 ^ 32" by (rule less_imp_le)
    then have "?p \<le> of_int (2 ^ 32)" by (simp only: of_int_le_iff)
    then show "?p \<le> 2 ^ 32" by simp
  qed
  have "(of_nat IDLE_EVICT :: rat) \<le> of_nat ?ns" using b(2) by (simp only: of_nat_le_iff)
  then have "600 \<le> of_nat ?ns / (10 ^ 9 :: rat)" by (simp add: IDLE_EVICT_def)
  moreover have "0 \<le> ?p / 60" by (intro divide_nonneg_nonneg p) simp
  ultimately have "600 * (?p / 60) \<le> of_nat ?ns / 10 ^ 9 * (?p / 60)" by (rule mult_right_mono)
  then have "600 * (?p / 60) * (1 - 5 / 2 ^ 53) \<le> of_nat ?ns / 10 ^ 9 * (?p / 60) * (1 - 5 / 2 ^ 53)"
    by (rule mult_right_mono) simp
  also have "\<dots> \<le> f64_round (tokens b + f64_round (as_secs_f64 ?ns * refill_per_sec rl))"
    by (rule refill_lower [OF rate b(1)])
  finally have "10 * ?p - 10 * ?p * (5 / 2 ^ 53) \<le>
      f64_round (tokens b + f64_round (as_secs_f64 ?ns * refill_per_sec rl))"
    by (simp add: right_diff_distrib)
  moreover have "10 * ?p * (5 / 2 ^ 53) \<le> 10 * 2 ^ 32 * (5 / 2 ^ 53)"
    using p by (intro mult_right_mono mult_left_mono) auto
  ultimately have "capacity rl \<le> f64_round (tokens b + f64_round (as_secs_f64 ?ns * refill_per_sec rl))"
    using burst by simp
  then show ?thesis by (simp add: refilled_def saturating_duration_since_def)
qed

section \<open>The simulation\<close>

text \<open>Two buckets that every later check refills alike.\<close>

definition agree :: "rate_limiter \<Rightarrow> nat \<Rightarrow> bucket option \<Rightarrow> bucket option \<Rightarrow> bool" where
  "agree rl now found spec = (\<forall>t \<ge> now. refilled rl t found = refilled rl t spec)"

lemma agree_later: "agree rl now found spec \<Longrightarrow> now \<le> now' \<Longrightarrow> agree rl now' found spec"
  by (simp add: agree_def)

lemma agree_surviving:
  assumes wf: "wf_limiter rl" and rate: "refill_per_sec rl = f64_round (of_int (uint (per_min :: u32)) / 60)"
    and burst: "capacity rl \<le> 10 * of_int (uint per_min) - 1"
    and agree: "agree rl now (lookup rl ip) spec"
  shows "agree rl now (surviving rl now ip) spec"
proof -
  have "distinct_buckets rl" using wf by (simp add: wf_limiter_def)
  from surviving_cases [OF this, of now ip] show ?thesis
  proof
    assume "surviving rl now ip = lookup rl ip"
    with agree show ?thesis by simp
  next
    assume "\<exists>b. lookup rl ip = Some b \<and> surviving rl now ip = None \<and>
      IDLE_EVICT \<le> saturating_duration_since now (last_at b)"
    then obtain b where b: "lookup rl ip = Some b" "surviving rl now ip = None" "IDLE_EVICT \<le> now - last_at b"
      by (auto simp: saturating_duration_since_def)
    have "refilled rl t (Some b) = refilled rl t None" if "now \<le> t" for t
      using refilled_idle [OF wf rate burst, of b t] wf_lookup [OF wf b(1)] b(3) that
      by (simp add: refilled_None [OF wf])
    with agree b show ?thesis by (simp add: agree_def)
  qed
qed

lemma refilled_config:
  "capacity rl' = capacity rl \<Longrightarrow> refill_per_sec rl' = refill_per_sec rl \<Longrightarrow>
     refilled rl' now found = refilled rl now found"
  unfolding refilled_def by (simp only:)

lemma client_run_config:
  "capacity rl' = capacity rl \<Longrightarrow> refill_per_sec rl' = refill_per_sec rl \<Longrightarrow>
     client_run rl' found ts = client_run rl found ts"
proof -
  assume "capacity rl' = capacity rl" "refill_per_sec rl' = refill_per_sec rl"
  then have "refilled rl' = refilled rl" by (intro ext refilled_config)
  then show ?thesis by (induction ts arbitrary: found) (simp_all add: Let_def)
qed

lemma run_refines:
  assumes "wf_limiter rl" "rl_enabled rl" "refill_per_sec rl = f64_round (of_int (uint (per_min :: u32)) / 60)"
    and "capacity rl \<le> 10 * of_int (uint per_min) - 1"
    and "sorted (t # map snd evs)" "agree rl t (lookup rl ip) spec"
  shows "verdicts_of ip evs (fst (run_checks rl evs)) = client_run rl spec (instants_of ip evs)"
  using assms
proof (induction evs arbitrary: rl t spec)
  case (Cons ev evs)
  obtain ip' now where ev: "ev = (ip', now)" by (cases ev)
  let ?rl = "snd (check_at rl ip' now)"
  have le: "t \<le> now" and sorted: "sorted (now # map snd evs)" using Cons.prems(5) by (auto simp: ev)
  have surv: "agree rl now (surviving rl now ip) spec"
    using Cons.prems le by (intro agree_surviving) (auto elim: agree_later)
  have conf: "agree ?rl now found spec' = agree rl now found spec'" for found spec'
    by (simp add: agree_def refilled_config [of ?rl rl])
  let ?t = "refilled rl now spec"
  let ?b = "\<lparr>tokens = (if 1 \<le> ?t then f64_round (?t - 1) else ?t), last_at = now\<rparr>"
  have t: "refilled rl now (surviving rl now ip) = ?t" using surv by (simp add: agree_def)
  let ?spec = "if ip' = ip then Some ?b else spec"
  have "agree rl now (lookup ?rl ip) ?spec"
    using surv t by (auto simp: check_at_lookup [OF Cons.prems(2)] Let_def agree_def)
  then have "verdicts_of ip evs (fst (run_checks ?rl evs)) = client_run ?rl ?spec (instants_of ip evs)"
    using Cons.prems sorted check_at_wf [OF Cons.prems(1), of ip' now]
    by (intro Cons.IH [of ?rl now]) (auto simp: rl_enabled_def conf)
  then have "verdicts_of ip evs (fst (run_checks ?rl evs)) = client_run rl ?spec (instants_of ip evs)"
    by (simp add: client_run_config [of ?rl rl])
  moreover have "ip' = ip \<Longrightarrow> fst (check_at rl ip' now) \<longleftrightarrow> 1 \<le> ?t"
    using t by (simp add: check_at_verdict [OF Cons.prems(2)])
  moreover have "fst (run_checks rl (ev # evs)) = fst (check_at rl ip' now) # fst (run_checks ?rl evs)"
    by (simp add: ev split: prod.split)
  ultimately show ?case by (simp add: ev Let_def)
qed simp

section \<open>The buckets after a run\<close>

lemma check_at_tracked:
  assumes "wf_limiter rl" "rl_enabled rl" "(ip', b) \<in> set (buckets (snd (check_at rl ip now)))"
  shows "ip' = ip \<and> last_at b = now \<or> (ip', b) \<in> set (buckets rl) \<and>
    (length (buckets rl) \<le> MAX_TRACKED_IPS \<or> now - last_at b < IDLE_EVICT)"
proof -
  have d: "distinct_buckets rl" "distinct_buckets (snd (check_at rl ip now))"
    using assms(1) check_at_distinct by (auto simp: wf_limiter_def)
  with assms(3) have "lookup (snd (check_at rl ip now)) ip' = Some b"
    by (simp add: lookup_def distinct_buckets_def)
  then have "ip' = ip \<and> last_at b = now \<or> surviving rl now ip' = Some b"
    by (auto simp: check_at_lookup [OF assms(2)] Let_def split: if_splits)
  moreover have "surviving rl now ip' = Some b \<Longrightarrow> (ip', b) \<in> set (buckets rl) \<and>
      (length (buckets rl) \<le> MAX_TRACKED_IPS \<or> now - last_at b < IDLE_EVICT)"
    by (auto simp: surviving_def retain_fresh_def saturating_duration_since_def
        dest!: map_of_SomeD split: if_splits)
  ultimately show ?thesis by blast
qed

lemma run_checks_snoc:
  "snd (run_checks rl (evs @ [(ip, now)])) = snd (check_at (snd (run_checks rl evs)) ip now)"
  by (induction rl evs rule: run_checks.induct) (auto split: prod.splits)

lemma run_checks_config:
  "capacity (snd (run_checks rl evs)) = capacity rl"
  "refill_per_sec (snd (run_checks rl evs)) = refill_per_sec rl"
  by (induction evs rule: rev_induct) (auto simp: run_checks_snoc)

lemma tracked_checked:
  "(ip, b) \<in> set (buckets (snd (run_checks (rl_new per_min burst trust) evs))) \<Longrightarrow> (ip, last_at b) \<in> set evs"
proof (induction evs arbitrary: ip b rule: rev_induct)
  case (snoc ev evs)
  obtain ip' now where ev: "ev = (ip', now)" by (cases ev)
  let ?rl = "snd (run_checks (rl_new per_min burst trust) evs)"
  have wf: "wf_limiter ?rl" by (rule run_checks_wf [OF rl_new_wf])
  show ?case
  proof (cases "rl_enabled ?rl")
    case True
    with snoc check_at_tracked [OF wf True, of ip b ip' now] show ?thesis
      by (auto simp: ev run_checks_snoc)
  next
    case False
    with snoc show ?thesis by (auto simp: ev run_checks_snoc check_at_disabled)
  qed
qed (simp add: rl_new_fields)

text \<open>A bucket that is charged after one permit's wait holds a token again.\<close>

lemma refilled_after_wait:
  assumes wf: "wf_limiter rl" and rate: "refill_per_sec rl = f64_round (of_int (uint (per_min :: u32)) / 60)"
    and "0 \<le> tokens b"
    and wait: "60 * 10 ^ 9 * (1 + 1 / 2 ^ 50) \<le> of_int (uint per_min) * (of_nat (now - last_at b) :: rat)"
  shows "1 \<le> refilled rl now (Some b)"
proof -
  define d :: rat where "d = of_nat (now - last_at b)"
  let ?credit = "d / 10 ^ 9 * (of_int (uint per_min) / 60)"
  have "1 + 1 / 2 ^ 50 \<le> ?credit"
    using wait unfolding d_def [symmetric] by (simp add: field_simps)
  then have "(1 + 1 / 2 ^ 50) * (1 - 5 / 2 ^ 53) \<le> ?credit * (1 - 5 / 2 ^ 53)"
    by (rule mult_right_mono) simp
  moreover have "1 \<le> (1 + 1 / 2 ^ 50) * (1 - 5 / 2 ^ 53 :: rat)" by simp
  moreover note refill_lower [OF rate assms(3), of "now - last_at b", folded d_def]
  ultimately have "1 \<le> f64_round (tokens b + f64_round (as_secs_f64 (now - last_at b) * refill_per_sec rl))"
    by linarith
  then show ?thesis
    using wf_limiter_capacity(1) [OF wf] by (simp add: refilled_def saturating_duration_since_def)
qed

lemma update_length: "length (AList.update k v m) \<le> Suc (length m)"
  by (induction m) auto

lemma disabled_tracks_none:
  assumes "\<not> rl_enabled (snd (run_checks (rl_new per_min burst trust) evs))"
  shows "buckets (snd (run_checks (rl_new per_min burst trust) evs)) = []"
proof -
  have "\<not> rl_enabled (rl_new per_min burst trust)"
    using assms by (simp add: rl_enabled_def run_checks_config)
  then show ?thesis
    by (induction evs rule: rev_induct)
      (auto simp: run_checks_snoc check_at_disabled rl_enabled_def run_checks_config rl_new_fields)
qed

section \<open>Properties\<close>

text \<open>
  C11: the limiter refines one token bucket per client: over any sequence of checks of any clients
  whose instants do not decrease, the verdicts a client gets are those of a bucket that only its own
  checks charge, provided that limiting is enabled and a full bucket refills in under ten minutes (the
  burst is below ten times the requests per minute). Then neither the other clients nor the eviction
  can be told from the verdicts.
\<close>

theorem limiter_refines_client_buckets:
  assumes "0 < per_min" "uint (max burst 1) < 10 * uint per_min" "sorted (map snd evs)"
  shows "verdicts_of ip evs (fst (run_checks (rl_new per_min burst trust) evs)) =
    client_run (rl_new per_min burst trust) None (instants_of ip evs)"
proof -
  have "(of_int (uint (max burst 1)) :: rat) \<le> of_int (10 * uint per_min - 1)"
    using assms(2) by (intro of_int_le_iff [THEN iffD2]) simp
  then have "capacity (rl_new per_min burst trust) \<le> 10 * of_int (uint per_min) - 1"
    unfolding rl_new_fields by (simp only: of_int_diff of_int_mult of_int_numeral of_int_1)
  then show ?thesis
    using assms by (intro run_refines [OF rl_new_wf _ rl_new_fields(1), where t = 0])
      (auto simp: rl_new_enabled lookup_def rl_new_fields(3) agree_def)
qed

theorem limiter_refines_client_buckets_witness:
  "verdicts_of (V4 10 0 0 1) [(V4 10 0 0 1, 5), (V4 10 0 0 2, 6), (V4 10 0 0 1, 7)]
     (fst (run_checks (rl_new 60 1 False) [(V4 10 0 0 1, 5), (V4 10 0 0 2, 6), (V4 10 0 0 1, 7)])) =
   client_run (rl_new 60 1 False) None [5, 7]"
  using limiter_refines_client_buckets [of 60 1 "[(V4 10 0 0 1, 5), (V4 10 0 0 2, 6), (V4 10 0 0 1, 7)]"
      "V4 10 0 0 1" False]
  by simp

text \<open>
  C12: no client waits for ever: whatever was checked before, by whom and when, a client that has
  waited a sixtieth of a minute per permitted request (and one part in \<^verbatim>\<open>2 ^ 50\<close> for rounding)
  since its last check is allowed.
\<close>

theorem waiting_client_served:
  assumes "lookup (snd (run_checks (rl_new per_min burst trust) evs)) ip = Some b"
    and "60 * 10 ^ 9 * (1 + 1 / 2 ^ 50) \<le> of_int (uint per_min) * (of_nat (now - last_at b) :: rat)"
  shows "fst (check_at (snd (run_checks (rl_new per_min burst trust) evs)) ip now)"
proof -
  let ?rl = "snd (run_checks (rl_new per_min burst trust) evs)"
  have wf: "wf_limiter ?rl" by (rule run_checks_wf [OF rl_new_wf])
  have rate: "refill_per_sec ?rl = f64_round (of_int (uint per_min) / 60)"
    by (simp add: run_checks_config rl_new_fields)
  have "0 < per_min"
  proof (rule ccontr)
    assume "\<not> 0 < per_min"
    then have "per_min = 0" by (simp add: word_gt_0)
    with assms(2) show False by simp
  qed
  then have enabled: "rl_enabled ?rl"
    using rl_new_enabled by (simp add: rl_enabled_def run_checks_config)
  note full = refilled_after_wait [OF wf rate wf_lookup [OF wf assms(1), THEN conjunct1] assms(2)]
  have "distinct_buckets ?rl" using wf by (simp add: wf_limiter_def)
  from surviving_cases [OF this, of now ip]
  have "surviving ?rl now ip = Some b \<or> surviving ?rl now ip = None" using assms(1) by auto
  then have "1 \<le> refilled ?rl now (surviving ?rl now ip)"
    using full wf_lookup [OF wf assms(1)] wf_limiter_capacity(1) [OF wf]
    by (auto simp: refilled_None [OF wf])
  then show ?thesis by (simp add: check_at_verdict [OF enabled])
qed

theorem waiting_client_served_witness:
  "fst (check_at (snd (run_checks (rl_new 60 1 False) [(V4 10 0 0 1, 5)])) (V4 10 0 0 1) 2000000005)"
proof (rule waiting_client_served)
  have "f64_round 0 = 0" "f64_round 1 = 1"
    using f64_round_of_int [of 0] f64_round_of_int [of 1] by simp_all
  then show "lookup (snd (run_checks (rl_new 60 1 False) [(V4 10 0 0 1, 5)])) (V4 10 0 0 1) =
      Some \<lparr>tokens = 0, last_at = 5\<rparr>"
    by (simp add: rl_new_def check_at_def rl_enabled_def Let_def MAX_TRACKED_IPS_def as_secs_f64_def
        saturating_duration_since_def lookup_def)
qed simp

text \<open>
  C16: the memory of the limiter is bounded by its limit and its recent clients: after any checks, the
  last of them at \<^verbatim>\<open>now\<close>, it tracks at most one client more than \<^verbatim>\<open>MAX_TRACKED_IPS\<close>, or no more
  clients than were checked in the ten minutes before.
\<close>

theorem tracked_clients_bounded:
  "length (buckets (snd (run_checks (rl_new per_min burst trust) (evs @ [(ip, now)])))) \<le>
     max (Suc MAX_TRACKED_IPS) (card {ip'. \<exists>t. (ip', t) \<in> set (evs @ [(ip, now)]) \<and> now - t < IDLE_EVICT})"
proof -
  let ?rl = "snd (run_checks (rl_new per_min burst trust) evs)" and ?evs = "evs @ [(ip, now)]"
  let ?rl' = "snd (check_at ?rl ip now)"
  let ?recent = "{ip'. \<exists>t. (ip', t) \<in> set ?evs \<and> now - t < IDLE_EVICT}"
  have wf: "wf_limiter ?rl" by (rule run_checks_wf [OF rl_new_wf])
  have "length (buckets ?rl') \<le> max (Suc MAX_TRACKED_IPS) (card ?recent)"
  proof (cases "length (buckets ?rl) \<le> MAX_TRACKED_IPS")
    case True
    then have "length (buckets ?rl') \<le> Suc MAX_TRACKED_IPS"
      by (auto simp: check_at_def Let_def intro!: le_trans [OF update_length])
    then show ?thesis by simp
  next
    case many: False
    have enabled: "rl_enabled ?rl"
      using many disabled_tracks_none [of per_min burst trust evs] by (cases "rl_enabled ?rl") simp_all
    have "fst ` set (buckets ?rl') \<subseteq> ?recent"
    proof
      fix ip' assume "ip' \<in> fst ` set (buckets ?rl')"
      then obtain b where b: "(ip', b) \<in> set (buckets ?rl')" by auto
      have "(ip', last_at b) \<in> set ?evs" using tracked_checked [of ip' b per_min burst trust ?evs] b
        by (simp add: run_checks_snoc)
      moreover have "now - last_at b < IDLE_EVICT"
        using check_at_tracked [OF wf enabled b] many by (auto simp: IDLE_EVICT_def)
      ultimately show "ip' \<in> ?recent" by blast
    qed
    moreover have "finite ?recent" by (rule finite_subset [of _ "fst ` set ?evs"]) force+
    ultimately have "card (fst ` set (buckets ?rl')) \<le> card ?recent" by (intro card_mono)
    moreover have "distinct (map fst (buckets ?rl'))"
      using check_at_distinct [of ?rl ip now] wf by (simp add: wf_limiter_def distinct_buckets_def)
    then have "card (fst ` set (buckets ?rl')) = length (buckets ?rl')"
      using distinct_card [of "map fst (buckets ?rl')"] by simp
    ultimately show ?thesis by simp
  qed
  then show ?thesis by (simp add: run_checks_snoc)
qed

end
