(* ===== verification/RateRange.thy ===== *)
theory RateRange
  imports RateSpec
begin

text \<open>
  Why the doubles of the limiter may be rounded without a look at the exponent: every number that a
  check rounds is zero or well inside the range of the normal doubles, so that it neither overflows
  nor becomes subnormal, and \<^verbatim>\<open>f64_round\<close> is the rounding of the hardware on it.
\<close>

section \<open>The range of the normal doubles\<close>

definition normal_f64 :: "rat \<Rightarrow> bool" where
  "normal_f64 x =
     (x = 0 \<or> (\<exists>m k. 2 ^ 52 \<le> m \<and> m < 2 ^ 53 \<and> - 1074 \<le> k \<and> k \<le> 971 \<and> x = of_int m * 2 powi k))"

definition above :: "int \<Rightarrow> rat \<Rightarrow> bool" where
  "above e x = (x = 0 \<or> 2 powi e \<le> x)"

lemma above_nonneg: "above e x \<Longrightarrow> 0 \<le> x"
  unfolding above_def using order.trans [OF zero_le_power_int [of "2 :: rat" e]] by auto

lemma powi_le_cancel: "(2 :: rat) powi a \<le> 2 powi b \<Longrightarrow> a \<le> b"
  using power_int_strict_increasing [of b a "2 :: rat"] by (meson leD leI one_less_numeral_iff semiring_norm(76))

lemma above_mono:
  assumes "above e x" "e' \<le> e"
  shows "above e' x"
  using assms power_int_increasing [OF assms(2), of "2 :: rat"] by (auto simp: above_def)

lemma above_add: "above e x \<Longrightarrow> above e y \<Longrightarrow> above e (x + y)"
  using above_nonneg [of e x] above_nonneg [of e y] by (auto simp: above_def)

lemma above_mult:
  assumes "above e x" "above d y"
  shows "above (e + d) (x * y)"
proof (cases "x = 0 \<or> y = 0")
  case False
  with assms have "2 powi e * 2 powi d \<le> x * y"
    using above_nonneg [OF assms(1)] by (intro mult_mono) (auto simp: above_def)
  then show ?thesis by (simp add: above_def power_int_add)
qed (auto simp: above_def)

lemma above_round:
  assumes "above e x"
  shows "above (e - 1) (f64_round x)"
proof (cases "x = 0")
  case False
  with assms have x: "2 powi e \<le> x" "0 \<le> x" using above_nonneg by (auto simp: above_def)
  have "2 powi (e - 1) = 2 powi e / (2 :: rat)" by (simp add: power_int_diff)
  also have "\<dots> \<le> 2 powi e * (1 - 1 / 2 ^ 53)" by simp
  also have "\<dots> \<le> f64_round x" using f64.rnd_lower_le [OF x(2,1)] by simp
  finally show ?thesis by (simp add: above_def)
qed (simp add: above_def f64_round_def)

lemma round_le_double: "0 \<le> x \<Longrightarrow> f64_round x \<le> 2 * x"
  using f64.rnd_upper [of x] by simp

lemma round_normal:
  assumes "above (- 1000) x" "x \<le> 2 powi 1000"
  shows "normal_f64 (f64_round x)"
proof (cases "x = 0")
  case False
  have x: "0 < x" using False above_nonneg [OF assms(1)] by simp
  then obtain m k where m: "2 ^ 52 \<le> m" "m < 2 ^ 53" "f64_round_pos x = of_int m * 2 powi k"
    using f64_round_pos_mantissa by blast
  then have r: "f64_round x = of_int m * 2 powi k" using x by (simp add: f64_round_def)
  have m': "(2 ^ 52 :: rat) \<le> of_int m" "of_int m \<le> (2 ^ 53 :: rat)"
    using m(1,2) of_int_le_iff [of "2 ^ 52" m, where 'a = rat] of_int_le_iff [of m "2 ^ 53", where 'a = rat] by simp_all
  have "2 powi (- 1001) \<le> f64_round x"
    using above_round [OF assms(1)] f64.rnd_pos [OF x] by (auto simp: above_def)
  also have "f64_round x \<le> 2 ^ 53 * 2 powi k" unfolding r using m'(2) by (intro mult_right_mono) simp_all
  also have "\<dots> = 2 powi (53 + k)" by (simp add: power_int_add)
  finally have "- 1001 \<le> 53 + k" by (rule powi_le_cancel)
  moreover have "2 powi (52 + k) \<le> (2 :: rat) powi 1001"
  proof -
    have "2 powi (52 + k) = 2 ^ 52 * (2 :: rat) powi k" by (simp add: power_int_add)
    also have "\<dots> \<le> f64_round x" unfolding r using m'(1) by (intro mult_right_mono) simp_all
    also have "\<dots> \<le> 2 * 2 powi 1000" using round_le_double [of x] x assms(2) by simp
    finally show ?thesis using power_int_add [of "2 :: rat" 1 1000] by simp
  qed
  then have "52 + k \<le> 1001" by (rule powi_le_cancel)
  ultimately have "- 1074 \<le> k" "k \<le> 971" by linarith+
  with m(1,2) r show ?thesis unfolding normal_f64_def by blast
qed (simp add: normal_f64_def f64_round_def)

section \<open>The tokens of a bucket\<close>

text \<open>A double that is zero or not tiny: what a bucket holds.\<close>

definition kept :: "rat \<Rightarrow> bool" where
  "kept x = (f64_round x = x \<and> above (- 60) x)"

lemma kept_capacity:
  assumes "wf_limiter rl"
  shows "kept (capacity rl)"
proof -
  from assms obtain cap where c: "1 \<le> cap" "cap < 2 ^ 32" "capacity rl = of_int cap" by (auto simp: wf_limiter_def)
  have "above 0 (capacity rl)" using c by (simp add: above_def)
  then have "above (- 60) (capacity rl)" by (rule above_mono) simp
  moreover have "f64_round (of_int cap) = of_int cap" using c by (intro f64_round_of_int) simp_all
  ultimately show ?thesis unfolding kept_def c(3) by simp
qed

lemma kept_minus_one:
  assumes "f64_round t = t" "1 \<le> t"
  shows "above (- 53) (t - 1)"
proof -
  obtain m k where m: "m < 2 ^ 53" "t = of_int m * 2 powi k"
    using f64_round_pos_mantissa [of t] assms by (auto simp: f64_round_def)
  have "2 powi 0 \<le> t" using assms(2) by simp
  also have "t \<le> of_int (2 ^ 53) * 2 powi k"
    unfolding m(2) using m(1) by (intro mult_right_mono of_int_le_iff [THEN iffD2]) simp_all
  also have "\<dots> = 2 powi (53 + k)" by (simp add: power_int_add)
  finally have k: "0 \<le> 53 + k" by (rule powi_le_cancel)
  define n where "n = m * 2 ^ nat (53 + k) - 2 ^ 53"
  have "2 powi (53 + k) = (2 :: rat) ^ nat (53 + k)" using k by (simp add: power_int_def)
  moreover have "2 powi (53 + k) = 2 ^ 53 * (2 :: rat) powi k" by (simp add: power_int_add)
  ultimately have "t * 2 ^ 53 = of_int m * 2 ^ nat (53 + k)" by (simp add: m(2))
  then have n: "(t - 1) * 2 ^ 53 = of_int n" by (simp add: n_def left_diff_distrib)
  show ?thesis
  proof (cases "n \<le> 0")
    case True
    then have "(t - 1) * 2 ^ 53 \<le> 0" using n by simp
    then have "t = 1" using assms(2) by simp
    then show ?thesis by (simp add: above_def)
  next
    case False
    then have "1 \<le> (t - 1) * 2 ^ 53" using n by simp
    then have "1 / 2 ^ 53 \<le> t - 1" by (simp add: pos_divide_le_eq)
    moreover have "(2 :: rat) powi (- 53) = 1 / 2 ^ 53" by (simp add: power_int_minus)
    ultimately show ?thesis unfolding above_def by simp
  qed
qed

text \<open>What the refill of a bucket rounds.\<close>

lemma above_seconds:
  "above (- 30) (of_nat (ns div 1000000000))" "above (- 30) (of_nat (ns mod 1000000000) / 1000000000)"
proof -
  have pos: "above (- 30) (of_nat n / d)" if "0 < d" "d \<le> 2 ^ 30" for n :: nat and d :: rat
  proof (cases "n = 0")
    case False
    then have "1 \<le> (of_nat n :: rat)" by simp
    with that have "1 / 2 ^ 30 \<le> of_nat n / d" by (intro frac_le) simp_all
    moreover have "(2 :: rat) powi (- 30) = 1 / 2 ^ 30" by (simp add: power_int_minus)
    ultimately show ?thesis unfolding above_def by simp
  qed (simp add: above_def)
  show "above (- 30) (of_nat (ns div 1000000000))" "above (- 30) (of_nat (ns mod 1000000000) / 1000000000)"
    using pos [of 1 "ns div 1000000000"] pos [of 1000000000 "ns mod 1000000000"] by simp_all
qed

lemma above_as_secs: "above (- 32) (as_secs_f64 ns)"
  unfolding as_secs_f64_def using above_round [OF above_add [OF above_seconds [THEN above_round]]] by simp

lemma above_rate: "above (- 7) (refill_per_sec (rl_new per_min burst trust))"
proof -
  have "above (- 6) (of_int (uint per_min) / 60)"
  proof (cases "per_min = 0")
    case False
    then have "uint per_min \<noteq> 0" by (simp add: unsigned_eq_0_iff)
    then have "1 \<le> uint per_min" using uint_ge_0 [of per_min] by linarith
    then have "of_int 1 \<le> (of_int (uint per_min) :: rat)" by (simp only: of_int_le_iff)
    then have "1 / 64 \<le> (of_int (uint per_min) / 60 :: rat)" by simp
    moreover have "(2 :: rat) powi (- 6) = 1 / 64" by (simp add: power_int_minus)
    ultimately show ?thesis unfolding above_def by simp
  qed (simp add: above_def)
  from above_round [OF this] show ?thesis by (simp add: rl_new_fields)
qed

lemma kept_refill:
  assumes "kept x" "above (- 39) p"
  shows "above (- 60) (x + f64_round p)" "kept (f64_round (x + f64_round p))"
proof -
  have x: "0 \<le> x" "above (- 60) x" using assms(1) above_nonneg by (auto simp: kept_def)
  note r = above_round [OF assms(2), simplified]
  show a: "above (- 60) (x + f64_round p)" by (rule above_add [OF x(2) above_mono [OF r]]) simp
  show "kept (f64_round (x + f64_round p))"
  proof (cases "f64_round p = 0")
    case True
    with assms(1) show ?thesis by (simp add: kept_def)
  next
    case False
    then have "above (- 40) (x + f64_round p)" using r x(1) by (auto simp: above_def)
    from above_mono [OF above_round [OF this], of "- 60"] f64.idem [OF above_nonneg [OF a]]
    show ?thesis by (simp add: kept_def)
  qed
qed

lemma above_refill:
  assumes "above (- 7) (refill_per_sec rl)"
  shows "above (- 39) (as_secs_f64 ns * refill_per_sec rl)"
  using above_mult [OF above_as_secs [of ns] assms] by simp

lemma kept_stored:
  assumes "wf_limiter rl" "above (- 7) (refill_per_sec rl)"
    and "\<And>b. surviving rl now ip = Some b \<Longrightarrow> kept (tokens b)"
  defines "t \<equiv> refilled rl now (surviving rl now ip)"
  shows "kept t" "kept (if 1 \<le> t then f64_round (t - 1) else t)"
proof -
  have "kept (tokens (case surviving rl now ip of Some b \<Rightarrow> b | None \<Rightarrow> \<lparr>tokens = capacity rl, last_at = now\<rparr>))"
    using assms(3) kept_capacity [OF assms(1)] by (auto split: option.split)
  from kept_refill(2) [OF this above_refill [OF assms(2)]] kept_capacity [OF assms(1)]
  show t: "kept t"
    unfolding t_def refilled_def Let_def min_def by auto
  have "kept (f64_round (t - 1))" if "1 \<le> t"
    using above_mono [OF above_round [OF kept_minus_one], of t "- 60"] t that
    by (simp add: kept_def f64.idem)
  with t show "kept (if 1 \<le> t then f64_round (t - 1) else t)" by simp
qed

lemma tracked_kept:
  "(ip, b) \<in> set (buckets (snd (run_checks (rl_new per_min burst trust) evs))) \<Longrightarrow> kept (tokens b)"
proof (induction evs arbitrary: ip b rule: rev_induct)
  case (snoc ev evs)
  obtain ip' now where ev: "ev = (ip', now)" by (cases ev)
  let ?rl = "snd (run_checks (rl_new per_min burst trust) evs)"
  let ?rl' = "snd (check_at ?rl ip' now)"
  have wf: "wf_limiter ?rl" by (rule run_checks_wf [OF rl_new_wf])
  have rate: "above (- 7) (refill_per_sec ?rl)" using above_rate by (simp add: run_checks_config)
  have old: "surviving ?rl now ip = Some b \<Longrightarrow> kept (tokens b)" for ip b
    using snoc.IH by (auto simp: surviving_def retain_fresh_def dest!: map_of_SomeD split: if_splits)
  show ?case
  proof (cases "rl_enabled ?rl")
    case True
    have "distinct_buckets ?rl'" using check_at_distinct wf by (simp add: wf_limiter_def)
    with snoc.prems have "lookup ?rl' ip = Some b"
      by (simp add: ev run_checks_snoc lookup_def distinct_buckets_def)
    then have "ip = ip' \<and> kept (tokens b) \<or> surviving ?rl now ip = Some b"
      using kept_stored(2) [OF wf rate old, of now ip']
      by (auto simp: check_at_lookup [OF True] Let_def simp del: if_splits split: if_split_asm)
    with old show ?thesis by blast
  next
    case False
    with snoc show ?thesis by (simp add: ev run_checks_snoc check_at_disabled)
  qed
qed (simp add: rl_new_fields)

section \<open>What a check rounds\<close>

text \<open>The exact results of the operations of a check on the bucket it finds, in order.\<close>

definition rounded_values :: "rate_limiter \<Rightarrow> nat \<Rightarrow> bucket option \<Rightarrow> rat list" where
  "rounded_values rl now found =
     (let b = (case found of Some b \<Rightarrow> b | None \<Rightarrow> \<lparr>tokens = capacity rl, last_at = now\<rparr>);
          ns = saturating_duration_since now (last_at b);
          secs = of_nat (ns div 1000000000);
          frac = of_nat (ns mod 1000000000) / 1000000000;
          elapsed = as_secs_f64 ns;
          t = refilled rl now found
      in [secs, frac, f64_round secs + f64_round frac, elapsed * refill_per_sec rl,
          tokens b + f64_round (elapsed * refill_per_sec rl)] @ (if 1 \<le> t then [t - 1] else []))"

lemma rounded_values_bounds:
  assumes "wf_limiter rl" "above (- 7) (refill_per_sec rl)" "refill_per_sec rl \<le> 2 ^ 33" "now < 2 ^ 93"
    and kept: "\<And>b. surviving rl now ip = Some b \<Longrightarrow> kept (tokens b)"
  shows "list_all (\<lambda>x. above (- 60) x \<and> x \<le> 2 ^ 131) (rounded_values rl now (surviving rl now ip))"
proof -
  define b where "b = (case surviving rl now ip of Some b \<Rightarrow> b | None \<Rightarrow> \<lparr>tokens = capacity rl, last_at = now\<rparr>)"
  define ns where "ns = saturating_duration_since now (last_at b)"
  define s where "s = (of_nat (ns div 1000000000) :: rat)"
  define f where "f = (of_nat (ns mod 1000000000) / 1000000000 :: rat)"
  define p where "p = as_secs_f64 ns * refill_per_sec rl"
  define t where "t = refilled rl now (surviving rl now ip)"
  note cap = wf_limiter_capacity [OF assms(1)]
  have b: "kept (tokens b)" "tokens b \<le> 2 ^ 32"
    using kept kept_capacity [OF assms(1)] wf_surviving [OF assms(1), of now ip] cap(2)
    by (force simp: b_def split: option.split)+
  have nonneg: "0 \<le> s" "0 \<le> f" by (simp_all add: s_def f_def)
  have "ns div 1000000000 \<le> 2 ^ 93"
    using assms(4) div_le_dividend [of ns 1000000000] unfolding ns_def saturating_duration_since_def by linarith
  then have s: "s \<le> 2 ^ 93" unfolding s_def by (metis of_nat_le_iff of_nat_numeral of_nat_power)
  have "(of_nat (ns mod 1000000000) :: rat) \<le> of_nat 1000000000"
    by (intro of_nat_mono less_imp_le mod_less_divisor) simp
  then have f: "f \<le> 1" by (simp add: f_def)
  have a: "above (- 30) s" "above (- 30) f" unfolding s_def f_def by (rule above_seconds)+
  have e: "above (- 31) (f64_round s + f64_round f)"
    using above_add [OF a [THEN above_round]] by simp
  have e': "f64_round s + f64_round f \<le> 2 ^ 95"
    using round_le_double [OF nonneg(1)] round_le_double [OF nonneg(2)] s f by simp
  have "as_secs_f64 ns \<le> 2 ^ 96"
    using round_le_double [OF above_nonneg [OF e]] e' by (simp add: as_secs_f64_def s_def f_def)
  then have "p \<le> 2 ^ 96 * 2 ^ 33"
    unfolding p_def using assms(3) cap(3) by (intro mult_mono) simp_all
  then have p': "p \<le> 2 ^ 129" by simp
  have p: "above (- 39) p" unfolding p_def by (rule above_refill [OF assms(2)])
  have q: "above (- 60) (tokens b + f64_round p)" by (rule kept_refill(1) [OF b(1) p])
  have q': "tokens b + f64_round p \<le> 2 ^ 131"
    using round_le_double [OF above_nonneg [OF p]] p' b(2) by simp
  have t: "kept t" unfolding t_def by (rule kept_stored(1) [OF assms(1,2) kept])
  have t': "t \<le> 2 ^ 131" using cap(2) by (simp add: t_def refilled_def Let_def min_def)
  have t1: "above (- 60) (t - 1)" if "1 \<le> t"
    using above_mono [OF kept_minus_one, of t "- 60"] t that by (simp add: kept_def)
  have lower: "above (- 60) s" "above (- 60) f" "above (- 60) (f64_round s + f64_round f)" "above (- 60) p"
    using above_mono [OF a(1)] above_mono [OF a(2)] above_mono [OF e] above_mono [OF p] by simp_all
  have upper: "s \<le> 2 ^ 131" "f \<le> 2 ^ 131" "f64_round s + f64_round f \<le> 2 ^ 131" "p \<le> 2 ^ 131" "t - 1 \<le> 2 ^ 131"
    using s f e' p' t' by simp_all
  show ?thesis
    using lower upper q q' t1
    unfolding rounded_values_def Let_def b_def [symmetric] ns_def [symmetric] s_def [symmetric] f_def [symmetric]
      p_def [symmetric] t_def [symmetric]
    by (cases "1 \<le> t") (simp_all del: power_numeral)
qed

text \<open>
  No check of a reachable limiter rounds a number outside the range of the normal doubles, at any
  instant less than \<^verbatim>\<open>2 ^ 93\<close> nanoseconds (some \<^verbatim>\<open>10 ^ 11\<close> years) after the origin of the clock.
\<close>

theorem check_rounds_normal_doubles:
  fixes per_min burst :: u32 and trust :: bool and evs :: "(ip_addr \<times> nat) list"
  assumes "now < 2 ^ 93"
  defines "rl \<equiv> snd (run_checks (rl_new per_min burst trust) evs)"
  shows "list_all (\<lambda>x. normal_f64 (f64_round x)) (rounded_values rl now (surviving rl now ip))"
proof -
  have wf: "wf_limiter rl" unfolding rl_def by (rule run_checks_wf [OF rl_new_wf])
  have rate: "above (- 7) (refill_per_sec rl)" using above_rate by (simp add: rl_def run_checks_config)
  have "uint per_min < 2 ^ 32" using uint_lt2p [of per_min] by auto
  then have "(of_int (uint per_min) :: rat) \<le> of_int (2 ^ 32)" by (intro of_int_le_iff [THEN iffD2] less_imp_le)
  moreover have "(0 :: rat) \<le> of_int (uint per_min)" by (intro of_int_0_le_iff [THEN iffD2] uint_ge_0)
  ultimately have "f64_round (of_int (uint per_min) / 60) \<le> 2 ^ 33"
    using round_le_double [of "of_int (uint per_min) / 60"] by simp
  then have "refill_per_sec rl \<le> 2 ^ 33" by (simp add: rl_def run_checks_config rl_new_fields)
  moreover have "surviving rl now ip = Some b \<Longrightarrow> kept (tokens b)" for b
    using tracked_kept unfolding rl_def by (fastforce simp: surviving_def retain_fresh_def dest!: map_of_SomeD split: if_splits)
  ultimately have "list_all (\<lambda>x. above (- 60) x \<and> x \<le> 2 ^ 131) (rounded_values rl now (surviving rl now ip))"
    using rounded_values_bounds [OF wf rate _ assms(1)] by blast
  moreover have "above (- 60) x \<and> x \<le> 2 ^ 131 \<Longrightarrow> normal_f64 (f64_round x)" for x
    using above_mono [of "- 60" x "- 1000"] power_int_increasing [of 131 1000 "2 :: rat"]
    by (intro round_normal) (auto intro: order.trans)
  ultimately show ?thesis by (auto simp: list_all_iff)
qed

end
