(* ===== verification/RateBound.thy ===== *)
theory RateBound imports RateLimit begin

text \<open>
  How much a client of \<^verbatim>\<open>src/src/ratelimit.rs\<close> gets. The bound is proved for checks in any order of
  their instants, by an account that carries the time that has moved forward; for instants that do
  not decrease that is the time that passes.
\<close>

section \<open>The sustained rate\<close>

text \<open>Tokens per nanosecond, with the slack the roundings may add.\<close>

definition rate_bound :: "u32 \<Rightarrow> rat" where
  "rate_bound per_min = of_int (uint per_min) / 60 / 10 ^ 9 * (1 + 1 / 2 ^ 50)"

lemma rate_bound_nonneg: "0 \<le> rate_bound per_min"
  unfolding rate_bound_def
  by (intro mult_nonneg_nonneg divide_nonneg_nonneg of_int_0_le_iff [THEN iffD2] uint_ge_0) auto

lemma as_secs_upper: "as_secs_f64 ns \<le> of_nat ns / 10 ^ 9 * (1 + 1 / 2 ^ 53) ^ 2"
proof -
  let ?u = "1 + 1 / 2 ^ 53 :: rat"
  let ?s = "of_nat (ns div 1000000000) :: rat" and ?r = "of_nat (ns mod 1000000000) / 1000000000 :: rat"
  have ns: "of_nat ns / 10 ^ 9 = ?s + ?r" by (rule seconds_split)
  have "f64_round ?s + f64_round ?r \<le> ?s * ?u + ?r * ?u"
    by (intro add_mono f64.rnd_upper) auto
  also have "\<dots> = of_nat ns / 10 ^ 9 * ?u" unfolding ns by (simp add: distrib_right)
  finally have "as_secs_f64 ns \<le> of_nat ns / 10 ^ 9 * ?u * ?u"
    unfolding as_secs_f64_def by (intro f64.rnd_upper_le add_nonneg_nonneg f64.rnd_nonneg) auto
  then show ?thesis by (simp add: power2_eq_square mult.assoc)
qed

lemma refilled_upper:
  assumes "refill_per_sec rl = f64_round (of_int (uint per_min) / 60)" "0 \<le> tokens b" "tokens b \<le> 2 ^ 32"
  shows "refilled rl now (Some b) \<le> tokens b + rate_bound per_min * of_nat (now - last_at b) + 1 / 2 ^ 21"
proof -
  let ?u = "1 + 1 / 2 ^ 53 :: rat"
  let ?rate = "of_int (uint per_min) / 60 :: rat" and ?ns = "now - last_at b"
  let ?x = "of_nat ?ns / 10 ^ 9 * ?rate"
  have rate: "0 \<le> ?rate" by (intro divide_nonneg_nonneg of_int_0_le_iff [THEN iffD2] uint_ge_0) simp
  have x: "0 \<le> ?x" by (rule mult_nonneg_nonneg [OF _ rate]) simp
  have refill: "refill_per_sec rl \<le> ?rate * ?u" "0 \<le> refill_per_sec rl"
    unfolding assms(1) using f64.rnd_upper [OF rate] f64.rnd_nonneg [OF rate] by simp_all
  have "as_secs_f64 ?ns * refill_per_sec rl \<le> (of_nat ?ns / 10 ^ 9 * ?u ^ 2) * (?rate * ?u)"
    by (intro mult_mono as_secs_upper refill) (auto intro: as_secs_nonneg)
  also have "\<dots> = ?x * ?u ^ 3" by (simp only: power2_eq_square power3_eq_cube mult.assoc mult.commute mult.left_commute)
  finally have "f64_round (as_secs_f64 ?ns * refill_per_sec rl) \<le> ?x * ?u ^ 3 * ?u"
    using as_secs_nonneg refill(2) by (intro f64.rnd_upper_le mult_nonneg_nonneg)
  then have d: "f64_round (as_secs_f64 ?ns * refill_per_sec rl) \<le> ?x * ?u ^ 4"
    by (simp only: mult.assoc power_Suc [symmetric] power_Suc2 [symmetric]) (simp add: eval_nat_numeral mult.assoc)
  have nn: "0 \<le> f64_round (as_secs_f64 ?ns * refill_per_sec rl)"
    using as_secs_nonneg refill(2) by (intro f64.rnd_nonneg mult_nonneg_nonneg)
  have "refilled rl now (Some b) \<le> f64_round (tokens b + f64_round (as_secs_f64 ?ns * refill_per_sec rl))"
    by (simp add: refilled_def Let_def saturating_duration_since_def)
  also have "\<dots> \<le> (tokens b + ?x * ?u ^ 4) * ?u"
    using d nn assms(2) by (intro f64.rnd_upper_le) auto
  also have "\<dots> = tokens b + tokens b / 2 ^ 53 + ?x * (?u ^ 4 * ?u)" by (simp only: algebra_simps) simp
  also have "\<dots> \<le> tokens b + 1 / 2 ^ 21 + ?x * (1 + 1 / 2 ^ 50)"
  proof (intro add_mono mult_left_mono x order_refl)
    have "tokens b / 2 ^ 53 \<le> 2 ^ 32 / 2 ^ 53" using assms(3) by (intro divide_right_mono) auto
    then show "tokens b / 2 ^ 53 \<le> 1 / 2 ^ 21" by simp
    show "?u ^ 4 * ?u \<le> 1 + 1 / 2 ^ 50" by (simp add: eval_nat_numeral)
  qed
  also have "?x * (1 + 1 / 2 ^ 50) = rate_bound per_min * of_nat ?ns"
    by (simp add: rate_bound_def)
  finally show ?thesis by simp
qed

text \<open>The requests of one client that are allowed, and all its requests.\<close>

definition allowed_count :: "ip_addr \<Rightarrow> (ip_addr \<times> nat) list \<Rightarrow> bool list \<Rightarrow> nat" where
  "allowed_count ip evs oks = length (filter (\<lambda>((ip', _), ok). ip' = ip \<and> ok) (zip evs oks))"

definition request_count :: "ip_addr \<Rightarrow> (ip_addr \<times> nat) list \<Rightarrow> nat" where
  "request_count ip evs = length (filter (\<lambda>(ip', _). ip' = ip) evs)"

lemma counts_Nil [simp]: "allowed_count ip [] oks = 0" "request_count ip [] = 0"
  by (simp_all add: allowed_count_def request_count_def)

lemma counts_Cons [simp]:
  "allowed_count ip ((ip', now) # evs) (ok # oks) = (if ip' = ip \<and> ok then 1 else 0) + allowed_count ip evs oks"
  "request_count ip ((ip', now) # evs) = (if ip' = ip then 1 else 0) + request_count ip evs"
  by (simp_all add: allowed_count_def request_count_def)

section \<open>Time that moves forward\<close>

text \<open>
  From an instant along the instants of the checks: how far they move forward, and how far they
  fall back, in all.
\<close>

fun forward :: "nat \<Rightarrow> nat list \<Rightarrow> nat" where
  "forward t [] = 0"
| "forward t (u # us) = (u - t) + forward u us"

fun set_back :: "nat \<Rightarrow> nat list \<Rightarrow> nat" where
  "set_back t [] = 0"
| "set_back t (u # us) = (t - u) + set_back u us"

lemma forward_set_back: "forward t us + t = last (t # us) + set_back t us"
proof (induction us arbitrary: t)
  case (Cons u us)
  from Cons [of u] show ?case by (simp split: if_splits)
qed simp

lemma set_back_sorted: "sorted (t # us) \<Longrightarrow> set_back t us = 0"
  by (induction us arbitrary: t) auto

section \<open>The account of one client\<close>

text \<open>
  \<^verbatim>\<open>a\<close> requests allowed and \<^verbatim>\<open>n\<close> made, after \<^verbatim>\<open>f\<close> nanoseconds forward, the last check of any client at
  \<^verbatim>\<open>t\<close>. What is in the bucket was earned before its instant: that part of \<^verbatim>\<open>f\<close> is still to be
  credited. Each request may gain \<^verbatim>\<open>1 / 2 ^ 20\<close> token by rounding.
\<close>

definition balance :: "rat \<Rightarrow> rat \<Rightarrow> nat \<Rightarrow> nat \<Rightarrow> nat \<Rightarrow> nat \<Rightarrow> bucket option \<Rightarrow> bool" where
  "balance cap r f t a n found =
     (case found of
        Some b \<Rightarrow> t - last_at b \<le> f \<and>
          of_nat a + tokens b \<le> cap + r * of_nat (f - (t - last_at b)) + of_nat n / 2 ^ 20
      | None \<Rightarrow> of_nat a \<le> r * of_nat f + of_nat n / 2 ^ 20)"

text \<open>What is still to be credited, and what the bucket's age is worth.\<close>

lemma rate_split: "x \<le> f \<Longrightarrow> r * of_nat f = r * of_nat (f - x) + (r :: rat) * of_nat x" for x f :: nat
  by (simp add: of_nat_diff algebra_simps)

lemma balance_later:
  assumes "balance cap r f t a n found" "0 \<le> r"
  shows "balance cap r (f + (now - t)) now a n found"
proof (cases found)
  case None
  have "r * of_nat f \<le> r * of_nat (f + (now - t))" using assms(2) by (intro mult_left_mono) simp_all
  with assms(1) None show ?thesis by (simp add: balance_def)
next
  case (Some b)
  then have le: "t - last_at b \<le> f" using assms(1) by (simp add: balance_def)
  then have "f - (t - last_at b) \<le> f + (now - t) - (now - last_at b)" by arith
  then have "r * of_nat (f - (t - last_at b)) \<le> r * of_nat (f + (now - t) - (now - last_at b))"
    using assms(2) by (intro mult_left_mono) (simp_all only: of_nat_le_iff)
  with assms(1) Some le show ?thesis by (simp add: balance_def)
qed

text \<open>Eviction keeps the balance when a full bucket takes no longer to refill than to expire.\<close>

lemma balance_evict:
  assumes "balance cap r f now a n (Some b)" "0 \<le> tokens b" "0 \<le> r"
    and "IDLE_EVICT \<le> now - last_at b" "cap \<le> r * of_nat IDLE_EVICT"
  shows "balance cap r f now a n None"
proof -
  have le: "now - last_at b \<le> f" using assms(1) by (simp add: balance_def)
  have "r * of_nat IDLE_EVICT \<le> r * of_nat (now - last_at b)"
    using assms(3,4) by (intro mult_left_mono) (simp_all only: of_nat_le_iff)
  with assms(5) have "cap \<le> r * of_nat (now - last_at b)" by (simp del: of_nat_diff)
  with assms(1,2) rate_split [OF le, of r] show ?thesis
    by (simp add: balance_def del: of_nat_diff)
qed

lemma balance_surviving:
  assumes "wf_limiter rl" "balance (capacity rl) r f t a n (lookup rl ip)" "0 \<le> r"
    and "capacity rl \<le> r * of_nat IDLE_EVICT"
  shows "balance (capacity rl) r (f + (now - t)) now a n (surviving rl now ip)"
proof -
  have "distinct_buckets rl" using assms(1) by (simp add: wf_limiter_def)
  note later = balance_later [OF assms(2,3), of now]
  from surviving_cases [OF \<open>distinct_buckets rl\<close>, of now ip] show ?thesis
  proof
    assume "surviving rl now ip = lookup rl ip"
    with later show ?thesis by simp
  next
    assume "\<exists>b. lookup rl ip = Some b \<and> surviving rl now ip = None \<and>
      IDLE_EVICT \<le> saturating_duration_since now (last_at b)"
    then obtain b where b: "lookup rl ip = Some b" "surviving rl now ip = None" "IDLE_EVICT \<le> now - last_at b"
      by (auto simp: saturating_duration_since_def)
    with balance_evict [of _ r _ now a n b] later assms(3,4) wf_lookup [OF assms(1) b(1)] show ?thesis by simp
  qed
qed

text \<open>One request of the client.\<close>

lemma balance_charge:
  fixes rl now ip
  assumes wf: "wf_limiter rl" and rate: "refill_per_sec rl = f64_round (of_int (uint per_min) / 60)"
    and bal: "balance (capacity rl) (rate_bound per_min) f now a n (surviving rl now ip)"
  defines "t \<equiv> refilled rl now (surviving rl now ip)"
  shows "balance (capacity rl) (rate_bound per_min) f now (if 1 \<le> t then Suc a else a) (Suc n)
    (Some \<lparr>tokens = (if 1 \<le> t then f64_round (t - 1) else t), last_at = now\<rparr>)"
proof -
  let ?r = "rate_bound per_min"
  have upper: "of_nat a + t \<le> capacity rl + ?r * of_nat f + of_nat n / 2 ^ 20 + 1 / 2 ^ 21"
  proof (cases "surviving rl now ip")
    case None
    then show ?thesis
      using bal refilled_bounds(2) [OF wf, of now ip] by (simp add: balance_def t_def)
  next
    case (Some b)
    have cap: "tokens b \<le> 2 ^ 32" "0 \<le> tokens b"
      using wf_surviving [OF wf Some] wf_limiter_capacity(2) [OF wf] by auto
    have le: "now - last_at b \<le> f" using bal Some by (simp add: balance_def)
    from rate_split [OF this, of ?r] refilled_upper [OF rate cap(2,1), of now] bal Some show ?thesis
      by (simp add: balance_def t_def del: of_nat_diff)
  qed
  have cap: "t \<le> capacity rl" "capacity rl \<le> 2 ^ 32"
    using refilled_bounds(2) [OF wf, of now ip] wf_limiter_capacity(2) [OF wf] by (simp_all add: t_def)
  have "of_nat (if 1 \<le> t then Suc a else a) + (if 1 \<le> t then f64_round (t - 1) else t)
      \<le> of_nat a + t + 1 / 2 ^ 21"
  proof (cases "1 \<le> t")
    case True
    with round_take(2) [OF True cap] show ?thesis by simp
  qed simp
  with upper show ?thesis by (simp add: balance_def add_divide_distrib)
qed

lemma run_balance:
  assumes "wf_limiter rl" "rl_enabled rl" "refill_per_sec rl = f64_round (of_int (uint per_min) / 60)"
    and "capacity rl \<le> rate_bound per_min * of_nat IDLE_EVICT"
    and "balance (capacity rl) (rate_bound per_min) f t a n (lookup rl ip)"
  shows "of_nat (a + allowed_count ip evs (fst (run_checks rl evs))) \<le>
    capacity rl + rate_bound per_min * of_nat (f + forward t (map snd evs)) + of_nat (n + request_count ip evs) / 2 ^ 20"
  using assms
proof (induction evs arbitrary: rl f t a n)
  case Nil
  note cap = wf_limiter_capacity(1) [OF Nil.prems(1)]
  show ?case
  proof (cases "lookup rl ip")
    case None
    with Nil.prems(5) cap show ?thesis by (simp add: balance_def)
  next
    case (Some b)
    then have "t - last_at b \<le> f" using Nil.prems(5) by (simp add: balance_def)
    from rate_split [OF this, of "rate_bound per_min"] rate_bound_nonneg [of per_min]
    have "rate_bound per_min * of_nat (f - (t - last_at b)) \<le> rate_bound per_min * of_nat f"
      by (simp del: of_nat_diff)
    with Nil.prems(5) Some wf_lookup [OF Nil.prems(1) Some] show ?thesis
      by (simp add: balance_def del: of_nat_diff)
  qed
next
  case (Cons ev evs)
  obtain ip' now where ev: "ev = (ip', now)" by (cases ev)
  let ?rl = "snd (check_at rl ip' now)" and ?ok = "fst (check_at rl ip' now)" and ?f = "f + (now - t)"
  have surv: "balance (capacity rl) (rate_bound per_min) ?f now a n (surviving rl now ip)"
    using Cons.prems by (intro balance_surviving rate_bound_nonneg)
  let ?a = "if ip' = ip \<and> ?ok then Suc a else a" and ?n = "if ip' = ip then Suc n else n"
  have bal: "balance (capacity ?rl) (rate_bound per_min) ?f now ?a ?n (lookup ?rl ip)"
    using balance_charge [OF Cons.prems(1,3) surv] surv
    by (auto simp: check_at_lookup [OF Cons.prems(2)] check_at_verdict [OF Cons.prems(2)] Let_def)
  have "of_nat (?a + allowed_count ip evs (fst (run_checks ?rl evs))) \<le>
      capacity ?rl + rate_bound per_min * of_nat (?f + forward now (map snd evs))
        + of_nat (?n + request_count ip evs) / 2 ^ 20"
    using Cons.prems bal check_at_wf [OF Cons.prems(1), of ip' now]
    by (intro Cons.IH [of ?rl ?f now]) (auto simp: rl_enabled_def)
  then show ?case by (auto simp: ev add_ac split: prod.splits if_splits)
qed

lemma burst_refills:
  assumes "uint (max burst 1) \<le> 10 * uint per_min"
  shows "capacity (rl_new per_min burst trust) \<le> rate_bound per_min * of_nat IDLE_EVICT"
proof -
  have grow: "x \<le> x * (1 + 1 / 2 ^ 50)" if "0 \<le> x" for x :: rat
    using that by (simp add: distrib_left)
  have "(of_int (uint (max burst 1)) :: rat) \<le> of_int (10 * uint per_min)"
    using assms by (simp only: of_int_le_iff)
  also have "\<dots> \<le> of_int (10 * uint per_min) * (1 + 1 / 2 ^ 50)"
    by (rule grow) (rule of_int_0_le_iff [THEN iffD2], simp)
  also have "\<dots> = rate_bound per_min * of_nat IDLE_EVICT" by (simp add: rate_bound_def IDLE_EVICT_def)
  finally show ?thesis unfolding rl_new_fields .
qed

text \<open>The bound for checks in any order, from any instant before which nothing was tracked.\<close>

lemma forward_rate_bound:
  assumes "0 < per_min" "uint (max burst 1) \<le> 10 * uint per_min"
  shows "of_nat (allowed_count ip evs (fst (run_checks (rl_new per_min burst trust) evs))) \<le>
    of_int (uint (max burst 1)) + rate_bound per_min * of_nat (forward t0 (map snd evs))
      + of_nat (request_count ip evs) / 2 ^ 20"
proof -
  let ?rl = "rl_new per_min burst trust"
  have "of_nat (0 + allowed_count ip evs (fst (run_checks ?rl evs))) \<le> capacity ?rl
      + rate_bound per_min * of_nat (0 + forward t0 (map snd evs)) + of_nat (0 + request_count ip evs) / 2 ^ 20"
    by (rule run_balance [OF rl_new_wf _ rl_new_fields(1) burst_refills [OF assms(2)]])
      (simp_all add: assms(1) rl_new_enabled balance_def lookup_def rl_new_fields)
  then show ?thesis by (simp add: rl_new_fields)
qed

section \<open>Properties\<close>

text \<open>
  C10: the rate limit. When limiting is enabled and a full bucket refills within the ten minutes of
  eviction (the burst is at most ten times the requests per minute), then over any sequence of checks
  of any clients whose instants do not decrease, the eviction included, a client is allowed at most
  its burst (one, for a burst of zero), plus the sustained rate times the time that passes, plus rounding (one part in
  \<^verbatim>\<open>2 ^ 50\<close> of the rate and a millionth of a token per request).
\<close>

theorem sustained_rate_bound:
  assumes "0 < per_min" "uint (max burst 1) \<le> 10 * uint per_min"
    and "sorted (map snd evs)" "\<forall>ev \<in> set evs. t0 \<le> snd ev \<and> snd ev \<le> t1" "t0 \<le> t1"
  shows "of_nat (allowed_count ip evs (fst (run_checks (rl_new per_min burst trust) evs))) \<le>
    of_int (uint (max burst 1)) + rate_bound per_min * (of_nat t1 - of_nat t0)
      + of_nat (request_count ip evs) / 2 ^ 20"
proof -
  have "forward t0 (map snd evs) + t0 = last (t0 # map snd evs)"
    using forward_set_back [of t0 "map snd evs"] assms(3,4) by (simp add: set_back_sorted)
  moreover have "last (t0 # map snd evs) \<le> t1"
    using assms(4,5) last_in_set [of "t0 # map snd evs"] by auto
  ultimately have "of_nat (forward t0 (map snd evs)) \<le> (of_nat t1 - of_nat t0 :: rat)"
    by (simp add: le_diff_eq flip: of_nat_add)
  then have "rate_bound per_min * of_nat (forward t0 (map snd evs)) \<le> rate_bound per_min * (of_nat t1 - of_nat t0)"
    by (intro mult_left_mono rate_bound_nonneg)
  with forward_rate_bound [OF assms(1,2), of ip evs trust t0] show ?thesis by simp
qed

theorem sustained_rate_bound_witness:
  "of_nat (allowed_count (V4 10 0 0 1) [(V4 10 0 0 1, 5)]
      (fst (run_checks (rl_new 60 3 False) [(V4 10 0 0 1, 5)])))
     \<le> of_int (uint (max 3 1 :: u32)) + rate_bound 60 * (of_nat 9 - of_nat 5)
       + of_nat (request_count (V4 10 0 0 1) [(V4 10 0 0 1, 5)]) / 2 ^ 20"
  by (rule sustained_rate_bound) (simp_all add: max_def)

end
