(* ===== verification/RateThreads.thy ===== *)
theory RateThreads imports RateSpec RateBound begin

text \<open>
  The limiter shared by threads: \<^verbatim>\<open>check\<close> reads the clock, and \<^verbatim>\<open>check_at\<close> then takes the lock
  for the rest, which is one step here: \<^verbatim>\<open>RateLocks\<close> has the statements one by one, and shows that
  the mutex allows no other verdicts than these. A thread is between the two, or not in a check.
  \<^verbatim>\<open>taken\<close> holds the checks in the order of the lock.
\<close>

section \<open>The steps\<close>

record threads =
  clock :: nat
  waiting :: "nat \<Rightarrow> (ip_addr \<times> nat) option"
  limiter :: rate_limiter
  taken :: "((ip_addr \<times> nat) \<times> bool) list"

definition start :: "rate_limiter \<Rightarrow> nat \<Rightarrow> threads" where
  "start rl t = \<lparr>clock = t, waiting = (\<lambda>_. None), limiter = rl, taken = []\<rparr>"

inductive thread_step :: "threads \<Rightarrow> threads \<Rightarrow> bool" where
  tick: "clock s \<le> t \<Longrightarrow> thread_step s (s\<lparr>clock := t\<rparr>)"
| read_clock: "waiting s i = None \<Longrightarrow>
     thread_step s (s\<lparr>waiting := (waiting s)(i := Some (ip, clock s))\<rparr>)"
| locked: "waiting s i = Some (ip, now) \<Longrightarrow> check_at (limiter s) ip now = (ok, rl) \<Longrightarrow>
     thread_step s (s\<lparr>waiting := (waiting s)(i := None), limiter := rl, taken := taken s @ [((ip, now), ok)]\<rparr>)"

inductive reachable :: "threads \<Rightarrow> threads \<Rightarrow> bool" for s0 where
  initially: "reachable s0 s0"
| stepped: "reachable s0 s \<Longrightarrow> thread_step s s' \<Longrightarrow> reachable s0 s'"

inductive_cases thread_stepE: "thread_step s s'"

section \<open>Invariants\<close>

text \<open>The instants that were read: they are past, and the ones waiting for the lock as well.\<close>

definition instants_past :: "threads \<Rightarrow> bool" where
  "instants_past s =
     ((\<forall>i ip now. waiting s i = Some (ip, now) \<longrightarrow> now \<le> clock s) \<and>
      (\<forall>((ip, now), ok) \<in> set (taken s). now \<le> clock s))"

text \<open>The lock makes the checks a sequence: the one it was taken in.\<close>

definition sequential :: "rate_limiter \<Rightarrow> threads \<Rightarrow> bool" where
  "sequential rl s = (run_checks rl (map fst (taken s)) = (map snd (taken s), limiter s))"

lemma run_checks_append:
  "run_checks rl (xs @ [(ip, now)]) =
     (case run_checks rl xs of (oks, rl') \<Rightarrow>
        (case check_at rl' ip now of (ok, rl'') \<Rightarrow> (oks @ [ok], rl'')))"
  by (induction rl xs rule: run_checks.induct) (auto split: prod.splits)

lemma thread_step_sequential: "thread_step s s' \<Longrightarrow> sequential rl s \<Longrightarrow> sequential rl s'"
  by (erule thread_stepE) (auto simp: sequential_def run_checks_append)

lemma thread_step_past: "thread_step s s' \<Longrightarrow> instants_past s \<Longrightarrow> instants_past s'"
  by (erule thread_stepE) (fastforce simp: instants_past_def split: if_splits)+

lemma reachable_sequential: "reachable (start rl t) s \<Longrightarrow> sequential rl s"
  by (induction rule: reachable.induct) (auto simp: sequential_def start_def dest: thread_step_sequential)

lemma reachable_past: "reachable (start rl t) s \<Longrightarrow> instants_past s"
proof (induction rule: reachable.induct)
  case initially
  show ?case by (simp add: instants_past_def start_def)
qed (rule thread_step_past)

lemma reachable_clock: "reachable (start rl t) s \<Longrightarrow> t \<le> clock s"
  by (induction rule: reachable.induct) (auto simp: start_def elim!: thread_stepE)

section \<open>Properties\<close>

text \<open>A run of two threads, from the states it passes.\<close>

definition one_per_second :: rate_limiter where
  "one_per_second = \<lparr>buckets = [], capacity = 1, refill_per_sec = 1, trust_proxy = False\<rparr>"

lemma one_per_second: "rl_new 60 1 False = one_per_second"
  using f64_round_of_int [of 1] by (simp add: rl_new_def one_per_second_def)

abbreviation client :: ip_addr where
  "client \<equiv> V4 10 0 0 1"

abbreviation with_bucket :: "rat \<Rightarrow> nat \<Rightarrow> rate_limiter" where
  "with_bucket k t \<equiv> one_per_second\<lparr>buckets := [(client, \<lparr>tokens = k, last_at = t\<rparr>)]\<rparr>"

lemma sample_checks:
  "check_at one_per_second client 0 = (True, with_bucket 0 0)"
  "check_at (with_bucket 0 0) client 1000000000 = (True, with_bucket 0 1000000000)"
  "check_at (with_bucket 0 1000000000) client 0 = (False, with_bucket 0 0)"
proof -
  have "f64_round 0 = 0" "f64_round 1 = 1" using f64_round_of_int [of 0] f64_round_of_int [of 1] by simp_all
  then show
    "check_at one_per_second client 0 = (True, with_bucket 0 0)"
    "check_at (with_bucket 0 0) client 1000000000 = (True, with_bucket 0 1000000000)"
    "check_at (with_bucket 0 1000000000) client 0 = (False, with_bucket 0 0)"
    by (simp_all add: check_at_def rl_enabled_def one_per_second_def Let_def MAX_TRACKED_IPS_def
        as_secs_f64_def saturating_duration_since_def)
qed

lemma read_step:
  "reachable s0 s \<Longrightarrow> waiting s i = None \<Longrightarrow>
     reachable s0 (s\<lparr>waiting := (waiting s)(i := Some (ip, clock s))\<rparr>)"
  by (rule reachable.stepped [OF _ thread_step.read_clock])

lemma tick_step: "reachable s0 s \<Longrightarrow> clock s \<le> t \<Longrightarrow> reachable s0 (s\<lparr>clock := t\<rparr>)"
  by (rule reachable.stepped [OF _ thread_step.tick])

lemma lock_step:
  "reachable s0 s \<Longrightarrow> waiting s i = Some (ip, now) \<Longrightarrow> check_at (limiter s) ip now = (ok, rl) \<Longrightarrow>
     reachable s0 (s\<lparr>waiting := (waiting s)(i := None), limiter := rl, taken := taken s @ [((ip, now), ok)]\<rparr>)"
  by (rule reachable.stepped [OF _ thread_step.locked])

text \<open>A run in which the second thread, which read the clock first, is overtaken.\<close>

lemma overtaking_run:
  "\<exists>s. reachable (start (rl_new 60 1 False) 0) s \<and> clock s = 1000000000 \<and>
     taken s = [((client, 0), True), ((client, 1000000000), True), ((client, 0), False), ((client, 1000000000), True)]"
proof -
  let ?s0 = "start (rl_new 60 1 False) 0"
  let ?state = "\<lambda>t w rl l. \<lparr>clock = t, waiting = w, limiter = rl, taken = l\<rparr>"
  let ?none = "\<lambda>_ :: nat. None :: (ip_addr \<times> nat) option"
  let ?late = "?none(1 := Some (client, 0))"
  have r0: "reachable ?s0 (?state 0 ?none one_per_second [])"
    using reachable.initially [of ?s0] by (simp add: start_def one_per_second)
  have r1: "reachable ?s0 (?state 0 ?late one_per_second [])"
    using read_step [OF r0, of 1 client] by simp
  have r2: "reachable ?s0 (?state 0 ?late (with_bucket 0 0) [((client, 0), True)])"
    using lock_step [OF read_step [OF r1, of 0 client], of 0 client 0] sample_checks(1)
    by (simp add: fun_upd_twist fun_upd_idem)
  have r3: "reachable ?s0 (?state 1000000000 ?late (with_bucket 0 0) [((client, 0), True)])"
    using tick_step [OF r2, of 1000000000] by simp
  have r4: "reachable ?s0 (?state 1000000000 ?late (with_bucket 0 1000000000)
      [((client, 0), True), ((client, 1000000000), True)])"
    using lock_step [OF read_step [OF r3, of 0 client], of 0 client 1000000000] sample_checks(2)
    by (simp add: fun_upd_twist fun_upd_idem)
  have r5: "reachable ?s0 (?state 1000000000 ?none (with_bucket 0 0)
      [((client, 0), True), ((client, 1000000000), True), ((client, 0), False)])"
    using lock_step [OF r4, of 1 client 0 False "with_bucket 0 0"] sample_checks(3) by (simp add: fun_upd_idem)
  have r6: "reachable ?s0 (?state 1000000000 ?none (with_bucket 0 1000000000)
      [((client, 0), True), ((client, 1000000000), True), ((client, 0), False), ((client, 1000000000), True)])"
    using lock_step [OF read_step [OF r5, of 0 client], of 0 client 1000000000] sample_checks(2)
    by (simp add: fun_upd_idem)
  then show ?thesis by (intro exI conjI) (rule r6, simp_all)
qed

text \<open>
  C15: what the overtaking costs. When limiting is enabled and a full bucket refills within the ten
  minutes of eviction (the burst is at most ten times the requests per minute), then whatever the
  threads and their interleaving, a client is allowed at most its burst (one, for a burst of zero), plus
  the sustained rate times
  the time that passed and the time by which checks took the lock behind one that read a later
  instant, plus rounding.
\<close>

theorem threads_rate_bound:
  assumes "reachable (start (rl_new per_min burst trust) t0) s"
    and "0 < per_min" "uint (max burst 1) \<le> 10 * uint per_min"
  shows "of_nat (allowed_count ip (map fst (taken s)) (map snd (taken s))) \<le>
    of_int (uint (max burst 1))
      + rate_bound per_min * of_nat (clock s - t0 + set_back t0 (map (snd \<circ> fst) (taken s)))
      + of_nat (request_count ip (map fst (taken s))) / 2 ^ 20"
proof -
  let ?us = "map (snd \<circ> fst) (taken s)"
  have us: "map snd (map fst (taken s)) = ?us" by simp
  have "\<forall>u \<in> set (t0 # ?us). u \<le> clock s"
    using reachable_past [OF assms(1)] reachable_clock [OF assms(1)] by (fastforce simp: instants_past_def)
  then have "last (t0 # ?us) \<le> clock s" by (rule bspec) (rule last_in_set, simp)
  then have "forward t0 ?us \<le> clock s - t0 + set_back t0 ?us"
    using forward_set_back [of t0 ?us] reachable_clock [OF assms(1)] by linarith
  then have "rate_bound per_min * of_nat (forward t0 ?us)
      \<le> rate_bound per_min * of_nat (clock s - t0 + set_back t0 ?us)"
    by (intro mult_left_mono rate_bound_nonneg) (simp only: of_nat_le_iff)
  with forward_rate_bound [OF assms(2,3), of ip "map fst (taken s)" trust t0, unfolded us]
    reachable_sequential [OF assms(1)] show ?thesis
    by (simp add: sequential_def del: of_nat_add)
qed

theorem threads_rate_bound_witness:
  "(3 :: rat) \<le> of_int (uint (max 1 1 :: u32)) + rate_bound 60 * of_nat (1000000000 + 1000000000) + 4 / 2 ^ 20"
proof -
  obtain s where s: "reachable (start (rl_new 60 1 False) 0) s" "clock s = 1000000000"
    "taken s = [((client, 0), True), ((client, 1000000000), True), ((client, 0), False), ((client, 1000000000), True)]"
    using overtaking_run by blast
  have "uint (max 1 1 :: u32) \<le> 10 * uint (60 :: u32)" by simp
  from threads_rate_bound [OF s(1) _ this, of client] s(2,3) show ?thesis
    by (simp add: request_count_def allowed_count_def)
qed

text \<open>
  C14: the instant is read before the lock, so it can be overtaken: under a limit of one request per
  second with a burst of one, threads reach a state one second after the start where one client, the
  only one, was allowed three requests.
\<close>

theorem threads_exceed_rate:
  "\<exists>s. reachable (start (rl_new 60 1 False) 0) s \<and> clock s = 1000000000 \<and>
     (\<exists>ip. (fst \<circ> fst) ` set (taken s) = {ip}) \<and> length (filter snd (taken s)) = 3"
proof -
  obtain s where "reachable (start (rl_new 60 1 False) 0) s" "clock s = 1000000000"
    "taken s = [((client, 0), True), ((client, 1000000000), True), ((client, 0), False), ((client, 1000000000), True)]"
    using overtaking_run by blast
  then show ?thesis by (intro exI [of _ s] conjI) simp_all
qed

end
