(* ===== verification/RateLocks.thy ===== *)
theory RateLocks
  imports RateThreads
begin

text \<open>
  The limiter under threads, step by step: \<^verbatim>\<open>check\<close> reads the clock, \<^verbatim>\<open>check_at\<close> locks the mutex,
  and each statement of its body is a step of its own, between which the other threads run. What
  keeps them out is the mutex alone: no step but \<^verbatim>\<open>acquire\<close> and \<^verbatim>\<open>release\<close> looks at it. That the body
  acts like the one call \<^verbatim>\<open>check_at\<close>, and the threads like those of \<^verbatim>\<open>RateThreads\<close>, is proved. No statement
  of the body panics, so the mutex is never poisoned; which waiting thread gets it is left open.
\<close>

section \<open>The statements of a check\<close>

definition evict_stmt :: "nat \<Rightarrow> rate_limiter \<Rightarrow> rate_limiter" where
  "evict_stmt now rl =
     (if length (buckets rl) > MAX_TRACKED_IPS then rl\<lparr>buckets := retain_fresh now (buckets rl)\<rparr> else rl)"

definition entry_stmt :: "ip_addr \<Rightarrow> nat \<Rightarrow> rate_limiter \<Rightarrow> rate_limiter" where
  "entry_stmt ip now rl =
     (case map_of (buckets rl) ip of
        Some _ \<Rightarrow> rl
      | None \<Rightarrow> rl\<lparr>buckets := AList.update ip \<lparr>tokens = capacity rl, last_at = now\<rparr> (buckets rl)\<rparr>)"

text \<open>A write through the reference to the bucket of \<^verbatim>\<open>ip\<close> that \<^verbatim>\<open>entry\<close> returned.\<close>

definition write_bucket :: "ip_addr \<Rightarrow> (bucket \<Rightarrow> bucket) \<Rightarrow> rate_limiter \<Rightarrow> rate_limiter" where
  "write_bucket ip f rl =
     (case map_of (buckets rl) ip of
        Some b \<Rightarrow> rl\<lparr>buckets := AList.update ip (f b) (buckets rl)\<rparr>
      | None \<Rightarrow> rl)"

definition refill_stmt :: "ip_addr \<Rightarrow> nat \<Rightarrow> rate_limiter \<Rightarrow> rate_limiter" where
  "refill_stmt ip now rl =
     write_bucket ip (\<lambda>b.
       (let elapsed = as_secs_f64 (saturating_duration_since now (last_at b)) in
        b\<lparr>tokens := min (f64_round (tokens b + f64_round (elapsed * refill_per_sec rl))) (capacity rl)\<rparr>)) rl"

definition stamp_stmt :: "ip_addr \<Rightarrow> nat \<Rightarrow> rate_limiter \<Rightarrow> rate_limiter" where
  "stamp_stmt ip now rl = write_bucket ip (\<lambda>b. b\<lparr>last_at := now\<rparr>) rl"

definition take_stmt :: "ip_addr \<Rightarrow> rate_limiter \<Rightarrow> bool \<times> rate_limiter" where
  "take_stmt ip rl =
     (case map_of (buckets rl) ip of
        Some b \<Rightarrow>
          (if tokens b \<ge> 1 then (True, write_bucket ip (\<lambda>b. b\<lparr>tokens := f64_round (tokens b - 1)\<rparr>) rl)
           else (False, rl))
      | None \<Rightarrow> (False, rl))"

section \<open>The threads\<close>

text \<open>Where a thread is: the last statement it has run, with the values it holds.\<close>

datatype stage =
    Idle
  | Asked ip_addr nat
  | Locked ip_addr nat
  | Evicted ip_addr nat
  | Entered ip_addr nat
  | Refilled ip_addr nat
  | Stamped ip_addr nat
  | Decided ip_addr nat bool

record lock_threads =
  time :: nat
  stages :: "nat \<Rightarrow> stage"
  holder :: "nat option"
  shared :: rate_limiter
  returned :: "((ip_addr \<times> nat) \<times> bool) list"

definition lock_start :: "rate_limiter \<Rightarrow> nat \<Rightarrow> lock_threads" where
  "lock_start rl t = \<lparr>time = t, stages = (\<lambda>_. Idle), holder = None, shared = rl, returned = []\<rparr>"

abbreviation goes :: "nat \<Rightarrow> stage \<Rightarrow> lock_threads \<Rightarrow> lock_threads" where
  "goes i g s \<equiv> s\<lparr>stages := (stages s)(i := g)\<rparr>"

inductive lock_step :: "lock_threads \<Rightarrow> lock_threads \<Rightarrow> bool" where
  tick: "time s \<le> t \<Longrightarrow> lock_step s (s\<lparr>time := t\<rparr>)"
| read_clock: "stages s i = Idle \<Longrightarrow> lock_step s (goes i (Asked ip (time s)) s)"
| disabled: "stages s i = Asked ip now \<Longrightarrow> \<not> rl_enabled (shared s) \<Longrightarrow>
     lock_step s ((goes i Idle s)\<lparr>returned := returned s @ [((ip, now), True)]\<rparr>)"
| acquire: "stages s i = Asked ip now \<Longrightarrow> rl_enabled (shared s) \<Longrightarrow> holder s = None \<Longrightarrow>
     lock_step s ((goes i (Locked ip now) s)\<lparr>holder := Some i\<rparr>)"
| evict: "stages s i = Locked ip now \<Longrightarrow>
     lock_step s ((goes i (Evicted ip now) s)\<lparr>shared := evict_stmt now (shared s)\<rparr>)"
| enter: "stages s i = Evicted ip now \<Longrightarrow>
     lock_step s ((goes i (Entered ip now) s)\<lparr>shared := entry_stmt ip now (shared s)\<rparr>)"
| refill: "stages s i = Entered ip now \<Longrightarrow>
     lock_step s ((goes i (Refilled ip now) s)\<lparr>shared := refill_stmt ip now (shared s)\<rparr>)"
| stamp: "stages s i = Refilled ip now \<Longrightarrow>
     lock_step s ((goes i (Stamped ip now) s)\<lparr>shared := stamp_stmt ip now (shared s)\<rparr>)"
| take: "stages s i = Stamped ip now \<Longrightarrow> take_stmt ip (shared s) = (ok, rl) \<Longrightarrow>
     lock_step s ((goes i (Decided ip now ok) s)\<lparr>shared := rl\<rparr>)"
| release: "stages s i = Decided ip now ok \<Longrightarrow>
     lock_step s ((goes i Idle s)\<lparr>holder := None, returned := returned s @ [((ip, now), ok)]\<rparr>)"

inductive lock_run :: "lock_threads \<Rightarrow> lock_threads \<Rightarrow> bool" for s0 where
  no_step: "lock_run s0 s0"
| one_more: "lock_run s0 s \<Longrightarrow> lock_step s s' \<Longrightarrow> lock_run s0 s'"

inductive_cases lock_stepE: "lock_step s s'"

section \<open>The statements make up a check\<close>

lemma update_update [simp]: "AList.update k v (AList.update k w m) = AList.update k v m"
  by (induction m) auto

lemma check_at_statements:
  assumes "rl_enabled rl"
  shows "check_at rl ip now =
    take_stmt ip (stamp_stmt ip now (refill_stmt ip now (entry_stmt ip now (evict_stmt now rl))))"
proof -
  define m where "m = (if length (buckets rl) > MAX_TRACKED_IPS then retain_fresh now (buckets rl) else buckets rl)"
  have e: "evict_stmt now rl = rl\<lparr>buckets := m\<rparr>"
    by (simp add: evict_stmt_def m_def)
  note stmts = entry_stmt_def write_bucket_def refill_stmt_def stamp_stmt_def take_stmt_def
  show ?thesis
    using assms unfolding e check_at_def m_def [symmetric]
    by (cases "map_of m ip"; cases "the (map_of m ip)") (auto simp: stmts Let_def update_conv')
qed

text \<open>What the statements up to a stage have made of the limiter that the mutex was locked on.\<close>

fun so_far :: "stage \<Rightarrow> rate_limiter \<Rightarrow> rate_limiter" where
  "so_far (Evicted ip now) rl = evict_stmt now rl"
| "so_far (Entered ip now) rl = entry_stmt ip now (evict_stmt now rl)"
| "so_far (Refilled ip now) rl = refill_stmt ip now (entry_stmt ip now (evict_stmt now rl))"
| "so_far (Stamped ip now) rl = stamp_stmt ip now (refill_stmt ip now (entry_stmt ip now (evict_stmt now rl)))"
| "so_far (Decided ip now ok) rl = snd (check_at rl ip now)"
| "so_far _ rl = rl"

fun inside :: "stage \<Rightarrow> bool" where
  "inside Idle = False"
| "inside (Asked ip now) = False"
| "inside _ = True"

fun pending :: "stage \<Rightarrow> (ip_addr \<times> nat) option" where
  "pending Idle = None"
| "pending (Asked ip now) = Some (ip, now)"
| "pending (Locked ip now) = Some (ip, now)"
| "pending (Evicted ip now) = Some (ip, now)"
| "pending (Entered ip now) = Some (ip, now)"
| "pending (Refilled ip now) = Some (ip, now)"
| "pending (Stamped ip now) = Some (ip, now)"
| "pending (Decided ip now ok) = Some (ip, now)"

lemma stmt_enabled [simp]:
  "rl_enabled (evict_stmt now rl) = rl_enabled rl"
  "rl_enabled (entry_stmt ip now rl) = rl_enabled rl"
  "rl_enabled (write_bucket ip f rl) = rl_enabled rl"
  "rl_enabled (refill_stmt ip now rl) = rl_enabled rl"
  "rl_enabled (stamp_stmt ip now rl) = rl_enabled rl"
  "rl_enabled (snd (check_at rl ip now)) = rl_enabled rl"
  by (simp_all add: rl_enabled_def evict_stmt_def entry_stmt_def write_bucket_def refill_stmt_def
      stamp_stmt_def split: option.split)

lemma so_far_enabled [simp]: "rl_enabled (so_far g rl) = rl_enabled rl"
  by (cases g) simp_all

section \<open>What the mutex keeps\<close>

text \<open>
  At most one thread is inside, the holder; what it has done so far is all that the limiter differs
  from the \<^verbatim>\<open>base\<close> it was locked on.
\<close>

definition guarded :: "rate_limiter \<Rightarrow> lock_threads \<Rightarrow> bool" where
  "guarded base s =
     (case holder s of
        None \<Rightarrow> (\<forall>i. \<not> inside (stages s i)) \<and> shared s = base
      | Some i \<Rightarrow> (\<forall>j. inside (stages s j) \<longleftrightarrow> j = i) \<and> rl_enabled base \<and>
          shared s = so_far (stages s i) base \<and>
          (\<forall>ip now ok. stages s i = Decided ip now ok \<longrightarrow> fst (check_at base ip now) = ok))"

text \<open>A state of the steps and one of the atomic threads: a check is pending until it returns.\<close>

definition sim :: "lock_threads \<Rightarrow> threads \<Rightarrow> bool" where
  "sim s t =
     (clock t = time s \<and> waiting t = pending \<circ> stages s \<and> taken t = returned s \<and> guarded (limiter t) s)"

lemma guarded_holder:
  assumes "guarded base s" "inside (stages s i)"
  shows "holder s = Some i" "rl_enabled base" "shared s = so_far (stages s i) base"
    "stages s i = Decided ip now ok \<Longrightarrow> fst (check_at base ip now) = ok"
proof -
  show h: "holder s = Some i"
    using assms by (cases "holder s") (auto simp: guarded_def)
  show "rl_enabled base" "shared s = so_far (stages s i) base"
    "stages s i = Decided ip now ok \<Longrightarrow> fst (check_at base ip now) = ok"
    using assms(1) unfolding guarded_def h by simp_all
qed

lemma guarded_fields [simp]:
  "guarded base (s\<lparr>time := c\<rparr>) = guarded base s"
  "guarded base (s\<lparr>returned := l\<rparr>) = guarded base s"
  by (cases "holder s"; simp add: guarded_def)+

lemma guarded_outside:
  "guarded base s \<Longrightarrow> \<not> inside (stages s i) \<Longrightarrow> \<not> inside g \<Longrightarrow> guarded base (goes i g s)"
  by (cases "holder s") (auto simp: guarded_def)

lemma guarded_locked:
  "guarded base s \<Longrightarrow> holder s = None \<Longrightarrow> rl_enabled base \<Longrightarrow> guarded base ((goes i (Locked ip now) s)\<lparr>holder := Some i\<rparr>)"
  by (auto simp: guarded_def)

lemma guarded_released:
  "guarded base s \<Longrightarrow> holder s = Some i \<Longrightarrow> guarded (shared s) ((goes i Idle s)\<lparr>holder := None\<rparr>)"
  by (auto simp: guarded_def)

lemma guarded_enabled: "guarded base s \<Longrightarrow> rl_enabled (shared s) = rl_enabled base"
  by (cases "holder s") (simp_all add: guarded_def)

lemma guarded_advance:
  assumes "guarded base s" "inside (stages s i)" "inside g" "rl = so_far g base"
    and "\<And>ip now ok. g = Decided ip now ok \<Longrightarrow> fst (check_at base ip now) = ok"
  shows "guarded base ((goes i g s)\<lparr>shared := rl\<rparr>)"
  using assms guarded_holder [OF assms(1,2)] by (auto simp: guarded_def)

lemma sim_advance:
  assumes "sim s t" "inside (stages s i)" "inside g" "pending g = pending (stages s i)"
    and "rl = so_far g (limiter t)"
    and "\<And>ip now ok. g = Decided ip now ok \<Longrightarrow> fst (check_at (limiter t) ip now) = ok"
  shows "sim ((goes i g s)\<lparr>shared := rl\<rparr>) t"
  using assms guarded_advance [of "limiter t" s i g rl] by (auto simp: sim_def)

lemma sim_statement:
  assumes "sim s t" "stages s i = g0" "inside g0" "inside g" "pending g = pending g0"
    and "so_far g (limiter t) = f (so_far g0 (limiter t))" "\<And>ip now ok. g \<noteq> Decided ip now ok"
  shows "sim ((goes i g s)\<lparr>shared := f (shared s)\<rparr>) t"
proof (rule sim_advance [OF assms(1)])
  from assms(1) have "guarded (limiter t) s" by (simp add: sim_def)
  from guarded_holder(3) [OF this, of i] assms show "f (shared s) = so_far g (limiter t)" by simp
qed (use assms in auto)

lemma step_simulates:
  assumes "lock_step s s'" "sim s t"
  shows "\<exists>t'. (t' = t \<or> thread_step t t') \<and> sim s' t'"
  using assms(1)
proof (cases rule: lock_step.cases)
  case (tick c)
  with assms(2) have "thread_step t (t\<lparr>clock := c\<rparr>)" "sim s' (t\<lparr>clock := c\<rparr>)"
    by (simp_all add: sim_def thread_step.tick)
  then show ?thesis by blast
next
  case (read_clock i ip)
  let ?t = "t\<lparr>waiting := (waiting t)(i := Some (ip, clock t))\<rparr>"
  have "thread_step t ?t"
    using read_clock assms(2) by (intro thread_step.read_clock) (simp add: sim_def)
  moreover have "sim s' ?t"
    using read_clock assms(2) by (auto simp: sim_def fun_eq_iff intro: guarded_outside)
  ultimately show ?thesis by blast
next
  case (disabled i ip now)
  let ?t = "t\<lparr>waiting := (waiting t)(i := None), limiter := limiter t, taken := taken t @ [((ip, now), True)]\<rparr>"
  have "\<not> rl_enabled (limiter t)"
    using disabled(3) assms(2) guarded_enabled by (auto simp: sim_def)
  then have "thread_step t ?t"
    using disabled assms(2) by (intro thread_step.locked) (simp_all add: sim_def check_at_disabled)
  moreover have "sim s' ?t"
    using disabled assms(2) by (auto simp: sim_def fun_eq_iff intro: guarded_outside)
  ultimately show ?thesis by blast
next
  case (acquire i ip now)
  with assms(2) have "sim s' t"
    using guarded_locked [of "limiter t" s i ip now] guarded_enabled [of "limiter t" s] by (auto simp: sim_def fun_eq_iff)
  then show ?thesis by blast
next
  case (release i ip now ok)
  from assms(2) have g: "guarded (limiter t) s" by (simp add: sim_def)
  note own = guarded_holder [OF g, of i, unfolded release(2), simplified]
  let ?t = "t\<lparr>waiting := (waiting t)(i := None), limiter := shared s, taken := taken t @ [((ip, now), ok)]\<rparr>"
  have "check_at (limiter t) ip now = (ok, shared s)"
    using own by (simp add: prod_eq_iff)
  then have "thread_step t ?t"
    using release(2) assms(2) by (intro thread_step.locked) (simp_all add: sim_def)
  moreover have "sim s' ?t"
    using release assms(2) guarded_released [OF g own(1)] by (auto simp: sim_def fun_eq_iff)
  ultimately show ?thesis by blast
next
  case (take i ip now ok rl)
  from assms(2) have g: "guarded (limiter t) s" by (simp add: sim_def)
  note own = guarded_holder [OF g, of i, unfolded take(2), simplified]
  have "check_at (limiter t) ip now = (ok, rl)"
    using take(3) own by (simp add: check_at_statements)
  then show ?thesis
    using sim_advance [OF assms(2), of i "Decided ip now ok" rl] take by auto
next
  case (evict i ip now)
  have "sim s' t"
    unfolding evict(1) by (rule sim_statement [OF assms(2) evict(2), where f = "evict_stmt now"]) simp_all
  then show ?thesis by blast
next
  case (enter i ip now)
  have "sim s' t"
    unfolding enter(1) by (rule sim_statement [OF assms(2) enter(2), where f = "entry_stmt ip now"]) simp_all
  then show ?thesis by blast
next
  case (refill i ip now)
  have "sim s' t"
    unfolding refill(1) by (rule sim_statement [OF assms(2) refill(2), where f = "refill_stmt ip now"]) simp_all
  then show ?thesis by blast
next
  case (stamp i ip now)
  have "sim s' t"
    unfolding stamp(1) by (rule sim_statement [OF assms(2) stamp(2), where f = "stamp_stmt ip now"]) simp_all
  then show ?thesis by blast
qed

lemma run_simulated:
  assumes "lock_run (lock_start rl t0) s"
  shows "\<exists>t. reachable (start rl t0) t \<and> sim s t"
  using assms
proof (induction rule: lock_run.induct)
  case no_step
  have "sim (lock_start rl t0) (start rl t0)"
    by (auto simp: sim_def guarded_def lock_start_def start_def fun_eq_iff)
  then show ?case using reachable.initially by blast
next
  case (one_more s s')
  then obtain t where t: "reachable (start rl t0) t" "sim s t" by blast
  with step_simulates [OF one_more.hyps(2)] obtain t' where "t' = t \<or> thread_step t t'" "sim s' t'" by blast
  with t(1) show ?case using reachable.stepped by blast
qed

section \<open>A check completes\<close>

lemma lock_run_trans:
  assumes "lock_run s0 s" "lock_run s s'"
  shows "lock_run s0 s'"
  using assms(2,1) by (induction rule: lock_run.induct) (auto intro: lock_run.one_more)

lemma lock_run_first: "lock_step s s' \<Longrightarrow> lock_run s' s'' \<Longrightarrow> lock_run s s''"
  by (rule lock_run_trans [OF lock_run.one_more [OF lock_run.no_step]])

text \<open>The state after thread \<^verbatim>\<open>i\<close> has ended the check it holds the mutex for.\<close>

definition after_check :: "nat \<Rightarrow> ip_addr \<Rightarrow> nat \<Rightarrow> rate_limiter \<Rightarrow> lock_threads \<Rightarrow> lock_threads" where
  "after_check i ip now base s =
     (goes i Idle s)\<lparr>holder := None, shared := snd (check_at base ip now),
        returned := returned s @ [((ip, now), fst (check_at base ip now))]\<rparr>"

lemma completes_first:
  assumes "lock_step s ((goes i g s)\<lparr>shared := rl\<rparr>)"
    and "lock_run ((goes i g s)\<lparr>shared := rl\<rparr>) (after_check i ip now base ((goes i g s)\<lparr>shared := rl\<rparr>))"
  shows "lock_run s (after_check i ip now base s)"
  using lock_run_first [OF assms] by (simp add: after_check_def)

lemma completes_Decided:
  assumes "stages s i = Decided ip now (fst (check_at base ip now))" "shared s = snd (check_at base ip now)"
  shows "lock_run s (after_check i ip now base s)"
proof -
  have "after_check i ip now base s = (goes i Idle s)\<lparr>holder := None,
      returned := returned s @ [((ip, now), fst (check_at base ip now))]\<rparr>"
    using assms(2) by (cases s) (simp add: after_check_def)
  with lock_run_first [OF lock_step.release [OF assms(1)] lock_run.no_step] show ?thesis by simp
qed

lemma completes_Stamped:
  assumes "stages s i = Stamped ip now" "shared s = so_far (Stamped ip now) base" "rl_enabled base"
  shows "lock_run s (after_check i ip now base s)"
proof (rule completes_first)
  show "lock_step s ((goes i (Decided ip now (fst (check_at base ip now))) s)\<lparr>shared := snd (check_at base ip now)\<rparr>)"
    using assms by (intro lock_step.take) (simp_all add: check_at_statements)
qed (rule completes_Decided; simp)

lemma completes_Refilled:
  assumes "stages s i = Refilled ip now" "shared s = so_far (Refilled ip now) base" "rl_enabled base"
  shows "lock_run s (after_check i ip now base s)"
  by (rule completes_first [OF lock_step.stamp [OF assms(1)]], rule completes_Stamped)
    (use assms in simp_all)

lemma completes_Entered:
  assumes "stages s i = Entered ip now" "shared s = so_far (Entered ip now) base" "rl_enabled base"
  shows "lock_run s (after_check i ip now base s)"
  by (rule completes_first [OF lock_step.refill [OF assms(1)]], rule completes_Refilled)
    (use assms in simp_all)

lemma completes_Evicted:
  assumes "stages s i = Evicted ip now" "shared s = so_far (Evicted ip now) base" "rl_enabled base"
  shows "lock_run s (after_check i ip now base s)"
  by (rule completes_first [OF lock_step.enter [OF assms(1)]], rule completes_Entered)
    (use assms in simp_all)

lemma completes_Locked:
  assumes "stages s i = Locked ip now" "shared s = so_far (Locked ip now) base" "rl_enabled base"
  shows "lock_run s (after_check i ip now base s)"
  by (rule completes_first [OF lock_step.evict [OF assms(1)]], rule completes_Evicted)
    (use assms in simp_all)

lemma completes_inside:
  assumes "guarded base s" "inside (stages s i)" "pending (stages s i) = Some (ip, now)"
  shows "lock_run s (after_check i ip now base s)"
proof (cases "stages s i")
  case (Decided ip' now' ok)
  with guarded_holder [OF assms(1,2)] assms(3) show ?thesis by (intro completes_Decided) auto
qed (use assms guarded_holder [OF assms(1,2)] in
  \<open>auto intro: completes_Locked completes_Evicted completes_Entered completes_Refilled completes_Stamped\<close>)

text \<open>A thread that waits for the mutex, when it is free.\<close>

lemma completes_Asked:
  assumes "guarded base s" "holder s = None" "stages s i = Asked ip now"
  shows "lock_run s (after_check i ip now base s)"
proof (cases "rl_enabled base")
  case True
  let ?s = "(goes i (Locked ip now) s)\<lparr>holder := Some i\<rparr>"
  have "lock_step s ?s"
    using assms True guarded_enabled [OF assms(1)] by (intro lock_step.acquire) simp_all
  moreover have "lock_run ?s (after_check i ip now base ?s)"
    using guarded_locked [OF assms(1,2) True] by (rule completes_inside) simp_all
  ultimately have "lock_run s (after_check i ip now base ?s)" by (rule lock_run_first)
  then show ?thesis by (simp add: after_check_def)
next
  case False
  have "shared s = base" using assms(1,2) by (simp add: guarded_def)
  with assms(2) False have "after_check i ip now base s = (goes i Idle s)\<lparr>returned := returned s @ [((ip, now), True)]\<rparr>"
    by (cases s) (simp add: after_check_def check_at_disabled)
  with lock_run_first [OF lock_step.disabled [OF assms(3)] lock_run.no_step] False guarded_enabled [OF assms(1)]
  show ?thesis by simp
qed

section \<open>Every run of the atomic threads is one of the steps\<close>

lemma sim_after_check:
  assumes "sim s t" "holder s = None" "stages s i = Asked ip now" "check_at (limiter t) ip now = (ok, rl)"
  shows "sim (after_check i ip now (limiter t) s)
    (t\<lparr>waiting := (waiting t)(i := None), limiter := rl, taken := taken t @ [((ip, now), ok)]\<rparr>)"
  using assms by (auto simp: sim_def after_check_def guarded_def fun_eq_iff)

lemma free_waiting:
  assumes "sim s t" "holder s = None" "waiting t i = Some (ip, now)"
  shows "stages s i = Asked ip now"
proof -
  have "pending (stages s i) = Some (ip, now)" "\<not> inside (stages s i)"
    using assms by (simp_all add: sim_def guarded_def)
  then show ?thesis by (cases "stages s i") simp_all
qed

lemma thread_step_realised:
  assumes "thread_step t t'" "sim s t" "holder s = None"
  shows "\<exists>s'. lock_run s s' \<and> sim s' t' \<and> holder s' = None"
  using assms(1)
proof (cases rule: thread_step.cases)
  case (tick c)
  with assms(2) have "lock_step s (s\<lparr>time := c\<rparr>)" "sim (s\<lparr>time := c\<rparr>) t'"
    by (simp_all add: sim_def lock_step.tick)
  with assms(3) show ?thesis using lock_run_first [OF _ lock_run.no_step] by fastforce
next
  case (read_clock i ip)
  let ?s = "goes i (Asked ip (time s)) s"
  have idle: "stages s i = Idle"
    using read_clock assms(2) by (cases "stages s i") (auto simp: sim_def)
  then have "sim ?s t'"
    using read_clock assms(2) by (auto simp: sim_def fun_eq_iff intro: guarded_outside)
  with lock_run_first [OF lock_step.read_clock [OF idle] lock_run.no_step] assms(3) show ?thesis
    by fastforce
next
  case (locked i ip now ok rl)
  note asked = free_waiting [OF assms(2,3) locked(2)]
  have g: "guarded (limiter t) s" using assms(2) by (simp add: sim_def)
  have "holder (after_check i ip now (limiter t) s) = None" by (simp add: after_check_def)
  with completes_Asked [OF g assms(3) asked] sim_after_check [OF assms(2,3) asked locked(3)]
  show ?thesis unfolding locked(1) by blast
qed

lemma reachable_realised:
  assumes "reachable (start rl t0) t"
  shows "\<exists>s. lock_run (lock_start rl t0) s \<and> sim s t \<and> holder s = None"
  using assms
proof (induction rule: reachable.induct)
  case initially
  have "sim (lock_start rl t0) (start rl t0)" "holder (lock_start rl t0) = None"
    by (auto simp: sim_def guarded_def lock_start_def start_def fun_eq_iff)
  then show ?case using lock_run.no_step by blast
next
  case (stepped t t')
  then show ?case using thread_step_realised lock_run_trans by blast
qed

lemma lock_logs_atomic:
  "(\<exists>s. lock_run (lock_start rl t0) s \<and> time s = c \<and> returned s = seen) \<longleftrightarrow>
   (\<exists>t. reachable (start rl t0) t \<and> clock t = c \<and> taken t = seen)"
proof
  assume "\<exists>s. lock_run (lock_start rl t0) s \<and> time s = c \<and> returned s = seen"
  then show "\<exists>t. reachable (start rl t0) t \<and> clock t = c \<and> taken t = seen"
    using run_simulated by (fastforce simp: sim_def)
next
  assume "\<exists>t. reachable (start rl t0) t \<and> clock t = c \<and> taken t = seen"
  then show "\<exists>s. lock_run (lock_start rl t0) s \<and> time s = c \<and> returned s = seen"
    using reachable_realised by (fastforce simp: sim_def)
qed

section \<open>Every sequence of checks is the log of a run\<close>

lemma map_of_snoc: "i \<notin> fst ` set xs \<Longrightarrow> map_of (xs @ [(i, v)]) = (map_of xs)(i := Some v)"
  by (induction xs) auto

text \<open>Threads read the clock at the instants of a list in order, \<close>

lemma read_all:
  assumes "sorted (map (snd \<circ> snd) xs)" "distinct (map fst xs)" "list_all (\<lambda>x. t0 \<le> snd (snd x)) xs"
  shows "\<exists>t. reachable (start rl t0) t \<and> clock t = (if xs = [] then t0 else snd (snd (last xs))) \<and>
    waiting t = map_of xs \<and> limiter t = rl \<and> taken t = []"
  using assms
proof (induction xs rule: rev_induct)
  case Nil
  then show ?case
    by (intro exI [of _ "start rl t0"] conjI) (simp_all add: reachable.initially start_def fun_eq_iff)
next
  case (snoc x xs)
  obtain i ip now where x: "x = (i, ip, now)" by (cases x) auto
  from snoc obtain t where t: "reachable (start rl t0) t" "clock t = (if xs = [] then t0 else snd (snd (last xs)))"
    "waiting t = map_of xs" "limiter t = rl" "taken t = []"
    by (auto simp: sorted_append)
  have "clock t \<le> now"
    using t(2) snoc.prems x by (cases xs rule: rev_cases) (auto simp: sorted_append)
  from read_step [OF tick_step [OF t(1) this], of i ip] t(3) snoc.prems(2) x
  have "reachable (start rl t0) (t\<lparr>clock := now, waiting := (map_of xs)(i := Some (ip, now))\<rparr>)"
    by (simp add: map_of_eq_None_iff)
  moreover have "(map_of xs)(i := Some (ip, now)) = map_of (xs @ [x])"
    unfolding x by (rule map_of_snoc [symmetric]) (use snoc.prems(2) x in simp)
  ultimately show ?case
    using t(4,5) x by (intro exI [of _ "t\<lparr>clock := now, waiting := (map_of xs)(i := Some (ip, now))\<rparr>"]) simp
qed

text \<open>and take the lock in the order of another.\<close>

lemma lock_all:
  assumes "reachable s0 t" "distinct (map fst xs)" "list_all (\<lambda>(i, ev). waiting t i = Some ev) xs"
  shows "\<exists>t'. reachable s0 t' \<and> clock t' = clock t \<and>
    taken t' = taken t @ zip (map snd xs) (fst (run_checks (limiter t) (map snd xs)))"
  using assms
proof (induction xs arbitrary: t)
  case Nil
  then show ?case by auto
next
  case (Cons x xs)
  obtain i ip now where x: "x = (i, ip, now)" by (cases x) auto
  obtain ok rl where c: "check_at (limiter t) ip now = (ok, rl)" by (cases "check_at (limiter t) ip now")
  let ?t = "t\<lparr>waiting := (waiting t)(i := None), limiter := rl, taken := taken t @ [((ip, now), ok)]\<rparr>"
  have r: "reachable s0 ?t"
    using lock_step [OF Cons.prems(1) _ c] Cons.prems(3) x by simp
  have w: "list_all (\<lambda>(i, ev). waiting ?t i = Some ev) xs"
    unfolding list_all_iff
  proof (rule ballI)
    fix y assume y: "y \<in> set xs"
    then have "fst y \<noteq> i" using Cons.prems(2) x by auto
    with y Cons.prems(3) show "case y of (i, ev) \<Rightarrow> waiting ?t i = Some ev"
      by (auto simp: list_all_iff)
  qed
  have "distinct (map fst xs)" using Cons.prems(2) by simp
  from Cons.IH [OF r this w] obtain t' where "reachable s0 t'" "clock t' = clock ?t"
    "taken t' = taken ?t @ zip (map snd xs) (fst (run_checks (limiter ?t) (map snd xs)))"
    by blast
  moreover have "fst (run_checks (limiter t) (map snd (x # xs))) = ok # fst (run_checks rl (map snd xs))"
    by (cases "run_checks rl (map snd xs)") (simp add: x c)
  ultimately have "reachable s0 t' \<and> clock t' = clock t \<and>
      taken t' = taken t @ zip (map snd (x # xs)) (fst (run_checks (limiter t) (map snd (x # xs))))"
    by (simp add: x)
  then show ?case by (rule exI)
qed

lemma atomic_run_exists:
  assumes "t0 \<le> c" "list_all (\<lambda>ev. t0 \<le> snd ev \<and> snd ev \<le> c) evs"
  shows "\<exists>t. reachable (start rl t0) t \<and> clock t = c \<and> taken t = zip evs (fst (run_checks rl evs))"
proof -
  define ys where "ys = zip [0..<length evs] evs"
  define xs where "xs = sort_key (snd \<circ> snd) ys"
  have keys: "distinct (map fst ys)" "map snd ys = evs" by (simp_all add: ys_def)
  have set: "set xs = set ys" by (simp add: xs_def)
  have dist: "distinct (map fst xs)" using keys(1) by (simp add: xs_def distinct_map)
  have "snd ` set xs = set evs" unfolding set set_map [symmetric] keys(2) ..
  then have inst: "t0 \<le> snd (snd x) \<and> snd (snd x) \<le> c" if "x \<in> set xs" for x
    using assms(2) that by (auto simp: list_all_iff)
  have "sorted (map (snd \<circ> snd) xs)" unfolding xs_def by (rule sorted_sort_key)
  with dist obtain t where t: "reachable (start rl t0) t" "clock t = (if xs = [] then t0 else snd (snd (last xs)))"
    "waiting t = map_of xs" "limiter t = rl" "taken t = []"
    using read_all [of xs t0 rl] inst by (auto simp: list_all_iff)
  have "list_all (\<lambda>(i, ev). waiting t i = Some ev) ys"
    using dist by (auto simp: list_all_iff t(3) set)
  from lock_all [OF t(1) keys(1) this] t(4,5) keys(2) obtain t' where t':
    "reachable (start rl t0) t'" "clock t' = clock t" "taken t' = zip evs (fst (run_checks rl evs))"
    by auto
  have "clock t' \<le> c" using t'(2) t(2) assms(1) inst last_in_set by simp
  with tick_step [OF t'(1)] t'(3) show ?thesis by fastforce
qed

lemma reachable_from_start:
  assumes "reachable (start rl t0) t"
  shows "(\<forall>i ip now. waiting t i = Some (ip, now) \<longrightarrow> t0 \<le> now) \<and> list_all (\<lambda>ev. t0 \<le> snd ev) (map fst (taken t))"
  using assms
proof (induction rule: reachable.induct)
  case (stepped t t')
  from stepped.hyps(2) stepped.IH reachable_clock [OF stepped.hyps(1)] show ?case
    by (cases rule: thread_step.cases) auto
qed (simp add: start_def)

section \<open>Properties\<close>

text \<open>
  C13: the mutex makes a check atomic, and nothing more. The threads run the statements of their
  checks in any interleaving; what they return, in the order they release the mutex, is exactly
  what the checks return when each is one call after the other, at instants between the start and
  now, in any order of these instants.
\<close>

theorem lock_logs_exactly:
  "(\<exists>s. lock_run (lock_start rl t0) s \<and> time s = c \<and> returned s = seen) \<longleftrightarrow>
   t0 \<le> c \<and> map snd seen = fst (run_checks rl (map fst seen)) \<and>
   list_all (\<lambda>ev. t0 \<le> snd ev \<and> snd ev \<le> c) (map fst seen)"
proof
  assume "\<exists>s. lock_run (lock_start rl t0) s \<and> time s = c \<and> returned s = seen"
  then obtain t where t: "reachable (start rl t0) t" "clock t = c" "taken t = seen"
    unfolding lock_logs_atomic by blast
  have "list_all (\<lambda>ev. snd ev \<le> c) (map fst seen)"
    using reachable_past [OF t(1)] t(2,3) by (fastforce simp: instants_past_def list_all_iff)
  with reachable_from_start [OF t(1)] reachable_sequential [OF t(1)] reachable_clock [OF t(1)] t(2,3)
  show "t0 \<le> c \<and> map snd seen = fst (run_checks rl (map fst seen)) \<and>
      list_all (\<lambda>ev. t0 \<le> snd ev \<and> snd ev \<le> c) (map fst seen)"
    by (simp add: sequential_def list_all_iff)
next
  assume r: "t0 \<le> c \<and> map snd seen = fst (run_checks rl (map fst seen)) \<and>
    list_all (\<lambda>ev. t0 \<le> snd ev \<and> snd ev \<le> c) (map fst seen)"
  then have "zip (map fst seen) (fst (run_checks rl (map fst seen))) = seen"
    by (metis zip_map_fst_snd)
  with atomic_run_exists [of t0 c "map fst seen" rl] r
  show "\<exists>s. lock_run (lock_start rl t0) s \<and> time s = c \<and> returned s = seen"
    unfolding lock_logs_atomic by simp
qed

text \<open>
  C17: no check is stuck. Whatever state the threads have reached, a check that has read the clock
  can run to its end, at once or after the one check that holds the mutex; the mutex is then free,
  and the verdict that of the call after all the checks that returned before.
\<close>

theorem lock_checks_complete:
  assumes "lock_run (lock_start rl t0) s" "pending (stages s i) = Some (ip, now)"
  shows "\<exists>s' others. lock_run s s' \<and> time s' = time s \<and> stages s' i = Idle \<and> holder s' = None \<and>
    length others \<le> 1 \<and>
    returned s' = returned s @ others @
      [((ip, now), fst (check_at (snd (run_checks rl (map fst (returned s @ others)))) ip now))]"
proof -
  obtain t where t: "reachable (start rl t0) t" "sim s t" using run_simulated [OF assms(1)] by blast
  then have g: "guarded (limiter t) s" and l: "limiter t = snd (run_checks rl (map fst (returned s)))"
    using reachable_sequential [OF t(1)] by (simp_all add: sim_def sequential_def)
  consider (mine) "holder s = Some i" | (free) "holder s = None" | (other) j where "holder s = Some j" "j \<noteq> i"
    by (cases "holder s") auto
  then show ?thesis
  proof cases
    case mine
    then have "inside (stages s i)" using g by (simp add: guarded_def)
    from completes_inside [OF g this assms(2)] l show ?thesis
      by (intro exI [of _ "after_check i ip now (limiter t) s"] exI [of _ "[]"]) (simp add: after_check_def)
  next
    case free
    have "stages s i = Asked ip now"
      using free_waiting [OF t(2) free] assms(2) t(2) by (simp add: sim_def)
    from completes_Asked [OF g free this] l show ?thesis
      by (intro exI [of _ "after_check i ip now (limiter t) s"] exI [of _ "[]"]) (simp add: after_check_def)
  next
    case (other j)
    then have j: "inside (stages s j)" and i: "\<not> inside (stages s i)" using g by (simp_all add: guarded_def)
    obtain ip' now' where p: "pending (stages s j) = Some (ip', now')" using j by (cases "stages s j") simp_all
    let ?base = "limiter t" and ?s = "after_check j ip' now' (limiter t) s"
    let ?ev = "((ip', now'), fst (check_at ?base ip' now'))"
    have g': "guarded (snd (check_at ?base ip' now')) ?s" "holder ?s = None"
      using g other(1) by (auto simp: guarded_def after_check_def)
    have a: "stages ?s i = Asked ip now"
      using i assms(2) other(2) by (cases "stages s i") (simp_all add: after_check_def)
    from lock_run_trans [OF completes_inside [OF g j p] completes_Asked [OF g' a]]
    show ?thesis
      using l
      by (intro exI [of _ "after_check i ip now (snd (check_at ?base ip' now')) ?s"] exI [of _ "[?ev]"])
        (simp add: after_check_def run_checks_append split: prod.split)
  qed
qed

theorem lock_checks_complete_witness:
  "\<exists>s' others. lock_run (lock_start (rl_new 60 1 False) 0) s' \<and> stages s' 1 = Idle \<and> length others \<le> 1 \<and>
     returned s' = others @ [((client, 0),
       fst (check_at (snd (run_checks (rl_new 60 1 False) (map fst others))) client 0))]"
proof -
  let ?s0 = "lock_start (rl_new 60 1 False) 0"
  let ?s1 = "goes 0 (Asked client 0) ?s0"
  let ?s2 = "goes 1 (Asked client 0) ?s1"
  let ?s3 = "(goes 0 (Locked client 0) ?s2)\<lparr>holder := Some 0\<rparr>"
  have "lock_step ?s0 ?s1" "lock_step ?s1 ?s2"
    using lock_step.read_clock [of ?s0 0 client] lock_step.read_clock [of ?s1 1 client]
    by (simp_all add: lock_start_def)
  moreover have "lock_step ?s2 ?s3"
    by (rule lock_step.acquire) (simp_all add: lock_start_def rl_new_enabled)
  ultimately have "lock_run ?s0 ?s3" by (blast intro: lock_run.intros)
  moreover have "pending (stages ?s3 1) = Some (client, 0)" by simp
  ultimately obtain s' others where "lock_run ?s3 s'" "stages s' 1 = Idle" "length others \<le> 1"
    "returned s' = returned ?s3 @ others @ [((client, 0),
      fst (check_at (snd (run_checks (rl_new 60 1 False) (map fst (returned ?s3 @ others)))) client 0))]"
    using lock_checks_complete [of "rl_new 60 1 False" 0 ?s3 1 client 0] by blast
  with \<open>lock_run ?s0 ?s3\<close> show ?thesis
    using lock_run_trans [of ?s0 ?s3 s'] by (fastforce simp: lock_start_def)
qed

end
