(* ===== verification/Cipher.thy ===== *)
theory Cipher imports Json begin

text \<open>
  \<^verbatim>\<open>src/src/cipher.rs\<close>: the envelope ciphers. Bytes are a char list. AES-GCM, base64 and the
  HTTP client are library code: the record \<^verbatim>\<open>cipher_lib\<close> holds the functions of them the code
  calls, over an abstract keyed cipher, and every operation takes it as an argument. The nonce
  the library generates is an argument of the encryption.
\<close>

type_synonym bytes = string

datatype cipher_error =
    BadKey nat
  | Truncated
  | DecryptFailed
  | EncryptFailed string
  | EncryptionRequired
  | Kms string

fun show_cipher_error :: "cipher_error \<Rightarrow> string" where
  "show_cipher_error (BadKey n) =
     ''invalid master key: must be base64-encoded 32 bytes (got '' @ show_dec (int n) @ '' bytes)''"
| "show_cipher_error Truncated = ''ciphertext too short to contain nonce''"
| "show_cipher_error DecryptFailed = ''AEAD decryption failed (tampered or wrong tenant context)''"
| "show_cipher_error (EncryptFailed e) = ''AEAD encryption failed: '' @ e"
| "show_cipher_error EncryptionRequired =
     ''at-rest encryption is required but no master key / KMS is configured '' @ em_dash
     @ '' refusing to fall back to the plaintext NoopCipher''"
| "show_cipher_error (Kms e) = ''KMS error: '' @ e"

text \<open>What a POST came to: an error of the client, or a status with its text and the body.\<close>

datatype http_outcome = SendFailed string | Answered u16 string "string + json"

record vault_request =
  req_url :: string
  req_token :: string
  req_body :: json

record 'k cipher_lib =
  b64_encode :: "bytes \<Rightarrow> string"
  b64_decode :: "string \<Rightarrow> bytes option"
  aead_new :: "bytes \<Rightarrow> 'k option"
  aead_encrypt :: "'k \<Rightarrow> bytes \<Rightarrow> bytes \<Rightarrow> bytes \<Rightarrow> string + bytes"
  aead_decrypt :: "'k \<Rightarrow> bytes \<Rightarrow> bytes \<Rightarrow> bytes \<Rightarrow> bytes option"

section \<open>The pass-through cipher\<close>

definition noop_encrypt :: "string \<Rightarrow> bytes \<Rightarrow> cipher_error + bytes" where
  "noop_encrypt ctx plaintext = Inr plaintext"

definition noop_decrypt :: "string \<Rightarrow> bytes \<Rightarrow> cipher_error + bytes" where
  "noop_decrypt ctx ciphertext = Inr ciphertext"

section \<open>The local cipher\<close>

definition from_master_key_b64 :: "'k cipher_lib \<Rightarrow> string \<Rightarrow> cipher_error + 'k" where
  "from_master_key_b64 lib master_key_b64 =
     (case b64_decode lib master_key_b64 of
        None \<Rightarrow> Inl (BadKey 0)
      | Some key_bytes \<Rightarrow>
          (case aead_new lib key_bytes of
             None \<Rightarrow> Inl (BadKey (length key_bytes))
           | Some cipher \<Rightarrow> Inr cipher))"

definition local_encrypt ::
    "'k cipher_lib \<Rightarrow> 'k \<Rightarrow> bytes \<Rightarrow> string \<Rightarrow> bytes \<Rightarrow> cipher_error + bytes" where
  "local_encrypt lib cipher nonce ctx plaintext =
     (case aead_encrypt lib cipher nonce plaintext ctx of
        Inl e \<Rightarrow> Inl (EncryptFailed e)
      | Inr ct \<Rightarrow> Inr (nonce @ ct))"

definition local_decrypt :: "'k cipher_lib \<Rightarrow> 'k \<Rightarrow> string \<Rightarrow> bytes \<Rightarrow> cipher_error + bytes" where
  "local_decrypt lib cipher ctx ciphertext =
     (if length ciphertext < 12 then Inl Truncated
      else (case aead_decrypt lib cipher (take 12 ciphertext) (drop 12 ciphertext) ctx of
              None \<Rightarrow> Inl DecryptFailed
            | Some plaintext \<Rightarrow> Inr plaintext))"

section \<open>Choosing a cipher\<close>

datatype 'k envelope_cipher = NoopCipher | LocalCipher 'k

definition build :: "'k cipher_lib \<Rightarrow> string option \<Rightarrow> cipher_error + 'k envelope_cipher" where
  "build lib master_key_b64 =
     (case master_key_b64 of
        Some k \<Rightarrow>
          if k \<noteq> []
          then (case from_master_key_b64 lib k of Inl e \<Rightarrow> Inl e | Inr c \<Rightarrow> Inr (LocalCipher c))
          else Inr NoopCipher
      | None \<Rightarrow> Inr NoopCipher)"

definition build_strict ::
    "'k cipher_lib \<Rightarrow> string option \<Rightarrow> bool \<Rightarrow> cipher_error + 'k envelope_cipher" where
  "build_strict lib master_key_b64 require_encryption =
     (case Option.bind (map_option trim_ws master_key_b64) (\<lambda>k. if k \<noteq> [] then Some k else None) of
        Some k \<Rightarrow> (case from_master_key_b64 lib k of Inl e \<Rightarrow> Inl e | Inr c \<Rightarrow> Inr (LocalCipher c))
      | None \<Rightarrow> if require_encryption then Inl EncryptionRequired else Inr NoopCipher)"

fun envelope_encrypt ::
    "'k cipher_lib \<Rightarrow> 'k envelope_cipher \<Rightarrow> bytes \<Rightarrow> string \<Rightarrow> bytes \<Rightarrow> cipher_error + bytes" where
  "envelope_encrypt lib NoopCipher nonce ctx plaintext = noop_encrypt ctx plaintext"
| "envelope_encrypt lib (LocalCipher c) nonce ctx plaintext = local_encrypt lib c nonce ctx plaintext"

fun envelope_decrypt ::
    "'k cipher_lib \<Rightarrow> 'k envelope_cipher \<Rightarrow> string \<Rightarrow> bytes \<Rightarrow> cipher_error + bytes" where
  "envelope_decrypt lib NoopCipher ctx ciphertext = noop_decrypt ctx ciphertext"
| "envelope_decrypt lib (LocalCipher c) ctx ciphertext = local_decrypt lib c ctx ciphertext"

section \<open>Vault Transit\<close>

record vault_config =
  vault_addr :: string
  vault_token :: string
  vault_mount :: string
  vault_key :: string

text \<open>Building the HTTP client may fail; it keeps the configuration and the client.\<close>

definition vault_new :: "string + 'h \<Rightarrow> vault_config \<Rightarrow> cipher_error + vault_config \<times> 'h" where
  "vault_new client cfg =
     (case client of Inl e \<Rightarrow> Inl (Kms (''http client: '' @ e)) | Inr http \<Rightarrow> Inr (cfg, http))"

definition vault_url :: "vault_config \<Rightarrow> string \<Rightarrow> string" where
  "vault_url cfg operation =
     trim_end_matches CHR ''/'' (vault_addr cfg) @ ''/v1/''
     @ trim_end_matches CHR ''/'' (trim_start_matches ''/'' (vault_mount cfg)) @ ''/''
     @ operation @ ''/'' @ vault_key cfg"

definition is_success :: "u16 \<Rightarrow> bool" where
  "is_success status = (200 \<le> status \<and> status < 300)"

definition vault_call ::
    "(vault_request \<Rightarrow> http_outcome) \<Rightarrow> vault_config \<Rightarrow> string \<Rightarrow> json \<Rightarrow> string \<Rightarrow> cipher_error + string" where
  "vault_call post cfg operation body field =
     (case post \<lparr>req_url = vault_url cfg operation, req_token = vault_token cfg, req_body = body\<rparr> of
        SendFailed e \<Rightarrow> Inl (Kms (''vault '' @ operation @ '': '' @ e))
      | Answered status status_text answer \<Rightarrow>
          if \<not> is_success status
          then Inl (Kms (''vault '' @ operation @ '': status '' @ status_text))
          else (case answer of
                  Inl e \<Rightarrow> Inl (Kms (''vault '' @ operation @ '': bad body: '' @ e))
                | Inr v \<Rightarrow>
                    (case Option.bind (Option.bind (json_get v ''data'') (\<lambda>d. json_get d field)) as_str of
                       Some s \<Rightarrow> Inr s
                     | None \<Rightarrow> Inl (Kms (''vault '' @ operation @ '': missing data.'' @ field)))))"

definition vault_encrypt ::
    "'k cipher_lib \<Rightarrow> (vault_request \<Rightarrow> http_outcome) \<Rightarrow> vault_config \<Rightarrow> string \<Rightarrow> bytes
       \<Rightarrow> cipher_error + bytes" where
  "vault_encrypt lib post cfg ctx plaintext =
     vault_call post cfg ''encrypt''
       (JObject [(''plaintext'', JString (b64_encode lib plaintext)),
                 (''context'', JString (b64_encode lib ctx))]) ''ciphertext''"

definition vault_decrypt ::
    "'k cipher_lib \<Rightarrow> (vault_request \<Rightarrow> http_outcome) \<Rightarrow> vault_config \<Rightarrow> string \<Rightarrow> bytes
       \<Rightarrow> cipher_error + bytes" where
  "vault_decrypt lib post cfg ctx ciphertext =
     (if \<not> valid_utf8 ciphertext then Inl DecryptFailed
      else (case vault_call post cfg ''decrypt''
              (JObject [(''ciphertext'', JString ciphertext),
                        (''context'', JString (b64_encode lib ctx))]) ''plaintext'' of
              Inl e \<Rightarrow> Inl e
            | Inr pt_b64 \<Rightarrow>
                (case b64_decode lib pt_b64 of None \<Rightarrow> Inl DecryptFailed | Some pt \<Rightarrow> Inr pt)))"

section \<open>What the AEAD and the Transit engine promise\<close>

text \<open>
  The documented contract of an authenticated cipher, idealised: a ciphertext opens exactly when
  it is what encryption makes of the plaintext under the same key, nonce and associated data.
\<close>

definition aead_law :: "'k cipher_lib \<Rightarrow> 'k \<Rightarrow> bool" where
  "aead_law lib c =
     (\<forall>nonce ct aad pt. aead_decrypt lib c nonce ct aad = Some pt \<longleftrightarrow>
        aead_encrypt lib c nonce pt aad = Inr ct)"

lemma local_encrypt_Inr:
  "local_encrypt lib c nonce ctx pt = Inr blob \<longleftrightarrow>
     (\<exists>ct. aead_encrypt lib c nonce pt ctx = Inr ct \<and> blob = nonce @ ct)"
  by (cases "aead_encrypt lib c nonce pt ctx") (auto simp: local_encrypt_def)

lemma local_decrypt_iff:
  assumes "aead_law lib c"
  shows "local_decrypt lib c ctx blob = Inr pt \<longleftrightarrow>
    (\<exists>nonce. length nonce = 12 \<and> local_encrypt lib c nonce ctx pt = Inr blob)"
proof
  assume d: "local_decrypt lib c ctx blob = Inr pt"
  then have "12 \<le> length blob" by (simp add: local_decrypt_def split: if_splits)
  moreover from d have "aead_decrypt lib c (take 12 blob) (drop 12 blob) ctx = Some pt"
    by (simp add: local_decrypt_def split: if_splits option.splits)
  then have "aead_encrypt lib c (take 12 blob) pt ctx = Inr (drop 12 blob)"
    using assms by (simp add: aead_law_def)
  ultimately show "\<exists>nonce. length nonce = 12 \<and> local_encrypt lib c nonce ctx pt = Inr blob"
    by (intro exI [of _ "take 12 blob"]) (simp add: local_encrypt_def)
next
  assume "\<exists>nonce. length nonce = 12 \<and> local_encrypt lib c nonce ctx pt = Inr blob"
  then obtain nonce ct where n: "length nonce = 12" "blob = nonce @ ct" "aead_encrypt lib c nonce pt ctx = Inr ct"
    by (auto simp: local_encrypt_Inr)
  with assms have "aead_decrypt lib c nonce ct ctx = Some pt" by (simp add: aead_law_def)
  with n show "local_decrypt lib c ctx blob = Inr pt" by (simp add: local_decrypt_def)
qed

lemma local_encrypt_decrypt:
  assumes "aead_law lib c" "length nonce = 12" "local_encrypt lib c nonce ctx pt = Inr blob"
  shows "local_decrypt lib c ctx blob = Inr pt"
  unfolding local_decrypt_iff [OF assms(1)] using assms(2,3) by blast

lemma local_decrypt_errors:
  "local_decrypt lib c ctx blob = Inl e \<longleftrightarrow>
     (length blob < 12 \<and> e = Truncated) \<or>
     (12 \<le> length blob \<and> e = DecryptFailed \<and>
        aead_decrypt lib c (take 12 blob) (drop 12 blob) ctx = None)"
  by (auto simp: local_decrypt_def split: option.splits)

text \<open>No ciphertext is what encryption makes under two different associated data.\<close>

definition aead_binds :: "'k cipher_lib \<Rightarrow> 'k \<Rightarrow> bool" where
  "aead_binds lib c =
     (\<forall>nonce pt pt' aad aad' ct. aead_encrypt lib c nonce pt aad = Inr ct \<longrightarrow>
        aead_encrypt lib c nonce pt' aad' = Inr ct \<longrightarrow> aad = aad')"

text \<open>
  The Transit engine on a mount and key: encrypting answers 200 with a text, and decrypting that
  text under the same context answers 200 with the plaintext that was sent.
\<close>

definition transit_answer :: "string \<Rightarrow> string \<Rightarrow> http_outcome" where
  "transit_answer field v =
     Answered 200 ''200 OK'' (Inr (JObject [(''data'', JObject [(field, JString v)])]))"

definition transit_law :: "(vault_request \<Rightarrow> http_outcome) \<Rightarrow> vault_config \<Rightarrow> (string \<Rightarrow> string \<Rightarrow> string) \<Rightarrow> bool" where
  "transit_law post cfg token =
     (\<forall>pt cx. valid_utf8 pt \<and> valid_utf8 cx \<longrightarrow> valid_utf8 (token pt cx) \<and>
        post \<lparr>req_url = vault_url cfg ''encrypt'', req_token = vault_token cfg,
          req_body = JObject [(''plaintext'', JString pt), (''context'', JString cx)]\<rparr>
          = transit_answer ''ciphertext'' (token pt cx) \<and>
        post \<lparr>req_url = vault_url cfg ''decrypt'', req_token = vault_token cfg,
          req_body = JObject [(''ciphertext'', JString (token pt cx)), (''context'', JString cx)]\<rparr>
          = transit_answer ''plaintext'' pt)"

section \<open>A library for the witnesses\<close>

text \<open>
  Functions with the promised laws, and no secrecy: base64 is the identity, a key is 32 bytes, and
  a ciphertext carries its associated data with its length in unary before the plaintext.
\<close>

definition tagged :: "bytes \<Rightarrow> bytes" where
  "tagged aad = replicate (length aad) CHR ''1'' @ CHR ''0'' # aad"

definition open_lib :: "bytes cipher_lib" where
  "open_lib = \<lparr>b64_encode = (\<lambda>b. b), b64_decode = Some,
     aead_new = (\<lambda>k. if length k = 32 then Some k else None),
     aead_encrypt = (\<lambda>k nonce pt aad. Inr (tagged aad @ pt)),
     aead_decrypt = (\<lambda>k nonce ct aad. strip_prefix (tagged aad) ct)\<rparr>"

lemma open_lib_law: "aead_law open_lib k"
  by (auto simp: aead_law_def open_lib_def strip_prefix_Some_iff)

lemma tagged_inj: "tagged aad @ pt = tagged aad' @ pt' \<Longrightarrow> aad = aad'"
proof -
  assume eq: "tagged aad @ pt = tagged aad' @ pt'"
  have no: "CHR ''0'' \<notin> set (replicate n CHR ''1'')" for n by simp
  have "replicate (length aad) CHR ''1'' = replicate (length aad') CHR ''1'' \<and> aad @ pt = aad' @ pt'"
    using eq first_split_eq [OF no no] by (simp add: tagged_def)
  then show ?thesis by (metis append_eq_append_conv length_replicate)
qed

lemma open_lib_binds: "aead_binds open_lib k"
  using tagged_inj by (auto simp: aead_binds_def open_lib_def)

text \<open>Each byte as eight binary digits stands for base64, and an engine keyed by nothing.\<close>

definition bit_char :: "bool \<Rightarrow> char" where
  "bit_char b = (if b then CHR ''1'' else CHR ''0'')"

fun bits_encode :: "bytes \<Rightarrow> string" where
  "bits_encode [] = []"
| "bits_encode (c # s) =
     map bit_char [digit0 c, digit1 c, digit2 c, digit3 c, digit4 c, digit5 c, digit6 c, digit7 c]
     @ bits_encode s"

fun bits_decode :: "string \<Rightarrow> bytes" where
  "bits_decode (b0 # b1 # b2 # b3 # b4 # b5 # b6 # b7 # s) =
     Char (b0 = CHR ''1'') (b1 = CHR ''1'') (b2 = CHR ''1'') (b3 = CHR ''1'')
          (b4 = CHR ''1'') (b5 = CHR ''1'') (b6 = CHR ''1'') (b7 = CHR ''1'') # bits_decode s"
| "bits_decode _ = []"

lemma bits_roundtrip: "bits_decode (bits_encode s) = s"
proof (induction s)
  case (Cons c s)
  have "bit_char b = CHR ''1'' \<longleftrightarrow> b" for b by (simp add: bit_char_def)
  with Cons show ?case by simp
qed simp

lemma ascii_utf8: "byte_in 0 0x7F a \<Longrightarrow> valid_utf8 (a # s) = valid_utf8 s"
  by simp

lemma bits_utf8: "valid_utf8 (bits_encode s)"
proof (induction s rule: bits_encode.induct)
  case (2 c s)
  have "byte_in 0 0x7F (bit_char b)" for b by (simp add: byte_in_def bit_char_def)
  with 2 show ?case by (simp add: ascii_utf8 del: valid_utf8.simps(2))
qed simp

definition open_transit :: "vault_request \<Rightarrow> http_outcome" where
  "open_transit req =
     (case req_body req of
        JObject [(field, JString v), (_, JString cx)] \<Rightarrow>
          if field = ''plaintext'' then transit_answer ''ciphertext'' (bits_encode v)
          else transit_answer ''plaintext'' (bits_decode v)
      | _ \<Rightarrow> SendFailed [])"

lemma open_transit_law: "transit_law open_transit cfg (\<lambda>pt cx. bits_encode pt)"
  by (simp add: transit_law_def open_transit_def bits_roundtrip bits_utf8)

section \<open>Properties\<close>

text \<open>
  C20: The local cipher is authenticated storage: under the contract of the AEAD, a blob opens to a
  plaintext in a context exactly when it is what encrypting that plaintext in that context makes
  under some nonce of 12 bytes. Nothing else opens.
\<close>

theorem local_cipher_authentic:
  assumes "aead_law lib c"
  shows "local_decrypt lib c ctx blob = Inr pt \<longleftrightarrow>
    (\<exists>nonce. length nonce = 12 \<and> local_encrypt lib c nonce ctx pt = Inr blob)"
  using assms by (rule local_decrypt_iff)

theorem local_cipher_authentic_witness:
  "local_decrypt open_lib (replicate 32 CHR ''k'') ''acme'' (''abcdefghijkl'' @ tagged ''acme'' @ ''hi'') = Inr ''hi''"
proof (rule local_cipher_authentic [THEN iffD2])
  show "aead_law open_lib (replicate 32 CHR ''k'')" by (rule open_lib_law)
  show "\<exists>nonce. length nonce = 12 \<and> local_encrypt open_lib (replicate 32 CHR ''k'') nonce ''acme'' ''hi''
      = Inr (''abcdefghijkl'' @ tagged ''acme'' @ ''hi'')"
    by (intro exI [of _ "''abcdefghijkl''"]) (simp add: local_encrypt_def open_lib_def)
qed

text \<open>
  C21: A blob sealed in one context does not open in another: decryption fails with the AEAD error,
  whatever the nonce and plaintext were.
\<close>

theorem local_cross_context_refused:
  assumes "aead_law lib c" "aead_binds lib c" "length nonce = 12"
    and "local_encrypt lib c nonce ctx pt = Inr blob" "ctx' \<noteq> ctx"
  shows "local_decrypt lib c ctx' blob = Inl DecryptFailed"
proof -
  obtain ct where ct: "aead_encrypt lib c nonce pt ctx = Inr ct" "blob = nonce @ ct"
    using assms(4) by (auto simp: local_encrypt_Inr)
  have "aead_decrypt lib c nonce ct ctx' = None"
  proof (rule ccontr)
    assume "aead_decrypt lib c nonce ct ctx' \<noteq> None"
    then obtain pt' where "aead_encrypt lib c nonce pt' ctx' = Inr ct"
      using assms(1) by (auto simp: aead_law_def)
    with ct(1) assms(2,5) show False unfolding aead_binds_def by blast
  qed
  with ct(2) assms(3) show ?thesis by (simp add: local_decrypt_def)
qed

theorem local_cross_context_refused_witness:
  "local_decrypt open_lib (replicate 32 CHR ''k'') ''globex'' (''abcdefghijkl'' @ tagged ''acme'' @ ''hi'')
     = Inl DecryptFailed"
proof (rule local_cross_context_refused)
  show "aead_law open_lib (replicate 32 CHR ''k'')" by (rule open_lib_law)
  show "aead_binds open_lib (replicate 32 CHR ''k'')" by (rule open_lib_binds)
  show "length ''abcdefghijkl'' = 12" by simp
  show "local_encrypt open_lib (replicate 32 CHR ''k'') ''abcdefghijkl'' ''acme'' ''hi''
      = Inr (''abcdefghijkl'' @ tagged ''acme'' @ ''hi'')"
    by (simp add: local_encrypt_def open_lib_def)
qed simp

text \<open>
  The only errors of local decryption are a blob too short for its nonce, reported exactly
  below 12 bytes, and a failed opening of the rest.
\<close>

theorem local_decrypt_error_iff:
  "local_decrypt lib c ctx blob = Inl e \<longleftrightarrow>
     (length blob < 12 \<and> e = Truncated) \<or>
     (12 \<le> length blob \<and> e = DecryptFailed \<and>
        aead_decrypt lib c (take 12 blob) (drop 12 blob) ctx = None)"
  by (rule local_decrypt_errors)

text \<open>
  C22: When encryption is required no configuration yields the plaintext cipher: the build refuses
  exactly a key that is absent or blank with its own error, and otherwise gives a local cipher or
  the key's error. Without the requirement a trimmed key gives what the lenient build gives.
\<close>

theorem strict_build_never_plaintext:
  "build_strict lib key True \<noteq> Inr NoopCipher \<and>
   (build_strict lib key True = Inl EncryptionRequired \<longleftrightarrow>
      Option.bind (map_option trim_ws key) (\<lambda>k. if k \<noteq> [] then Some k else None) = None) \<and>
   build_strict lib key False = build lib (map_option trim_ws key)"
  by (auto simp: build_strict_def build_def from_master_key_b64_def split: option.splits sum.splits)

text \<open>
  C23: Whichever cipher the configuration builds, what it encrypts in a context it decrypts in that
  context to the same plaintext.
\<close>

theorem envelope_roundtrip:
  assumes "build_strict lib key required = Inr cipher" "\<And>c. aead_law lib c" "length nonce = 12"
    and "envelope_encrypt lib cipher nonce ctx pt = Inr blob"
  shows "envelope_decrypt lib cipher ctx blob = Inr pt"
  using assms by (cases cipher) (auto simp: noop_encrypt_def noop_decrypt_def intro: local_encrypt_decrypt)

theorem envelope_roundtrip_witness:
  "envelope_decrypt open_lib (LocalCipher (replicate 32 CHR ''k'')) ''acme''
     (''abcdefghijkl'' @ tagged ''acme'' @ ''hi'') = Inr ''hi''"
proof (rule envelope_roundtrip)
  have "trim_ws (replicate 32 CHR ''k'') = replicate 32 CHR ''k''"
    by (rule trim_ws_id) (simp add: ascii_graphic_def)
  then show "build_strict open_lib (Some (replicate 32 CHR ''k'')) True
      = Inr (LocalCipher (replicate 32 CHR ''k''))"
    by (simp add: build_strict_def from_master_key_b64_def open_lib_def)
  show "aead_law open_lib c" for c by (rule open_lib_law)
  show "length ''abcdefghijkl'' = 12" by simp
qed (simp add: local_encrypt_def open_lib_def)

text \<open>
  C24: With a Transit engine that keeps its contract and a base64 codec that decodes what it
  encodes, a plaintext encrypted through Vault in a context decrypts in that context to itself.
\<close>

theorem vault_roundtrip:
  assumes "transit_law post cfg token"
    and codec: "\<And>b. b64_decode lib (b64_encode lib b) = Some b \<and> valid_utf8 (b64_encode lib b)"
    and enc: "vault_encrypt lib post cfg ctx pt = Inr ct"
  shows "vault_decrypt lib post cfg ctx ct = Inr pt"
proof -
  have call: "vault_call post cfg operation body field = Inr v"
    if "post \<lparr>req_url = vault_url cfg operation, req_token = vault_token cfg, req_body = body\<rparr>
      = transit_answer field v" for operation body field v
    using that by (simp add: vault_call_def transit_answer_def is_success_def word_le_def word_less_def)
  have "vault_encrypt lib post cfg ctx pt = Inr (token (b64_encode lib pt) (b64_encode lib ctx))"
    unfolding vault_encrypt_def using assms(1) codec by (intro call) (simp add: transit_law_def)
  with enc have ct: "ct = token (b64_encode lib pt) (b64_encode lib ctx)" by simp
  have "vault_call post cfg ''decrypt'' (JObject [(''ciphertext'', JString ct),
      (''context'', JString (b64_encode lib ctx))]) ''plaintext'' = Inr (b64_encode lib pt)"
    using assms(1) codec by (intro call) (simp add: transit_law_def ct)
  moreover have "valid_utf8 ct" using assms(1) codec by (simp add: transit_law_def ct)
  ultimately show ?thesis by (simp add: vault_decrypt_def codec)
qed

theorem vault_roundtrip_witness:
  "vault_decrypt (open_lib\<lparr>b64_encode := bits_encode, b64_decode := \<lambda>s. Some (bits_decode s)\<rparr>) open_transit
     \<lparr>vault_addr = ''https://v:8200/'', vault_token = ''t'', vault_mount = ''transit'', vault_key = ''mcpg''\<rparr>
     ''c1'' (bits_encode (bits_encode ''secret'')) = Inr ''secret''"
proof (rule vault_roundtrip)
  let ?lib = "open_lib\<lparr>b64_encode := bits_encode, b64_decode := \<lambda>s. Some (bits_decode s)\<rparr>"
  let ?cfg = "\<lparr>vault_addr = ''https://v:8200/'', vault_token = ''t'', vault_mount = ''transit'', vault_key = ''mcpg''\<rparr>"
  show "transit_law open_transit ?cfg (\<lambda>pt cx. bits_encode pt)" by (rule open_transit_law)
  show "b64_decode ?lib (b64_encode ?lib b) = Some b \<and> valid_utf8 (b64_encode ?lib b)" for b
    by (simp add: bits_roundtrip bits_utf8)
  show "vault_encrypt ?lib open_transit ?cfg ''c1'' ''secret'' = Inr (bits_encode (bits_encode ''secret''))"
    by (simp add: vault_encrypt_def vault_call_def open_transit_def transit_answer_def is_success_def
          word_le_def word_less_def)
qed

end
