(* ===== verification/UsageReport.thy ===== *)
theory UsageReport imports Wire begin

text \<open>
  \<^verbatim>\<open>src/src/usage_report.rs\<close>: the usage report the billing federation consumes, with the
  encodings its serde attributes give it.
\<close>

record org_usage =
  ou_org_id :: string
  ou_slug :: string
  ou_plan_tier :: string
  ou_tool_calls :: i64
  ou_instance_hours :: "(string \<times> f64_bits) list"
  ou_tunnel_bytes :: i64
  ou_held_plan_tunnel_bytes :: i64
  ou_events_delivered :: i64
  ou_held_plan_events_delivered :: i64
  ou_events_ingested :: i64

record failed_org =
  fo_org_id :: string
  fo_slug :: string
  fo_dimension :: string

record usage_report =
  ur_period :: string
  ur_period_start :: string
  ur_period_end :: string
  ur_orgs :: "org_usage list"
  ur_failed :: "failed_org list"
  ur_next_after :: "string option"

section \<open>Encoding\<close>

definition enc_org_usage :: "org_usage \<Rightarrow> json" where
  "enc_org_usage u = JObject
     [(''org_id'', JString (ou_org_id u)), (''slug'', JString (ou_slug u)),
      (''plan_tier'', JString (ou_plan_tier u)), (''tool_calls'', enc_i64 (ou_tool_calls u)),
      (''instance_hours'', enc_map enc_f64 (ou_instance_hours u)),
      (''tunnel_bytes'', enc_i64 (ou_tunnel_bytes u)),
      (''held_plan_tunnel_bytes'', enc_i64 (ou_held_plan_tunnel_bytes u)),
      (''events_delivered'', enc_i64 (ou_events_delivered u)),
      (''held_plan_events_delivered'', enc_i64 (ou_held_plan_events_delivered u)),
      (''events_ingested'', enc_i64 (ou_events_ingested u))]"

definition enc_failed_org :: "failed_org \<Rightarrow> json" where
  "enc_failed_org f = JObject
     [(''org_id'', JString (fo_org_id f)), (''slug'', JString (fo_slug f)),
      (''dimension'', JString (fo_dimension f))]"

definition enc_usage_report :: "usage_report \<Rightarrow> json" where
  "enc_usage_report r = JObject
     ([(''period'', JString (ur_period r)), (''period_start'', JString (ur_period_start r)),
       (''period_end'', JString (ur_period_end r)), (''orgs'', enc_list enc_org_usage (ur_orgs r)),
       (''failed'', enc_list enc_failed_org (ur_failed r))]
      @ (case ur_next_after r of None \<Rightarrow> [] | Some a \<Rightarrow> [(''next_after'', JString a)]))"

section \<open>Decoding\<close>

definition dec_org_usage :: "json \<Rightarrow> org_usage option" where
  "dec_org_usage v = do {
     v \<leftarrow> as_struct [(''org_id'', False), (''slug'', False), (''plan_tier'', False),
       (''tool_calls'', False), (''instance_hours'', True), (''tunnel_bytes'', True),
       (''held_plan_tunnel_bytes'', True), (''events_delivered'', True),
       (''held_plan_events_delivered'', True), (''events_ingested'', True)] v;
     org_id \<leftarrow> field ''org_id'' dec_string v;
     slug \<leftarrow> field ''slug'' dec_string v;
     plan_tier \<leftarrow> field ''plan_tier'' dec_string v;
     tool_calls \<leftarrow> field ''tool_calls'' dec_i64 v;
     instance_hours \<leftarrow> field_default ''instance_hours'' (dec_map dec_f64) [] v;
     tunnel_bytes \<leftarrow> field_default ''tunnel_bytes'' dec_i64 0 v;
     held_plan_tunnel_bytes \<leftarrow> field_default ''held_plan_tunnel_bytes'' dec_i64 0 v;
     events_delivered \<leftarrow> field_default ''events_delivered'' dec_i64 0 v;
     held_plan_events_delivered \<leftarrow> field_default ''held_plan_events_delivered'' dec_i64 0 v;
     events_ingested \<leftarrow> field_default ''events_ingested'' dec_i64 0 v;
     Some \<lparr>ou_org_id = org_id, ou_slug = slug, ou_plan_tier = plan_tier, ou_tool_calls = tool_calls,
       ou_instance_hours = instance_hours, ou_tunnel_bytes = tunnel_bytes,
       ou_held_plan_tunnel_bytes = held_plan_tunnel_bytes, ou_events_delivered = events_delivered,
       ou_held_plan_events_delivered = held_plan_events_delivered, ou_events_ingested = events_ingested\<rparr>
   }"

definition dec_failed_org :: "json \<Rightarrow> failed_org option" where
  "dec_failed_org v = do {
     v \<leftarrow> as_struct [(''org_id'', False), (''slug'', False), (''dimension'', False)] v;
     org_id \<leftarrow> field ''org_id'' dec_string v;
     slug \<leftarrow> field ''slug'' dec_string v;
     dimension \<leftarrow> field ''dimension'' dec_string v;
     Some \<lparr>fo_org_id = org_id, fo_slug = slug, fo_dimension = dimension\<rparr>
   }"

definition dec_usage_report :: "(string \<Rightarrow> string option) \<Rightarrow> json \<Rightarrow> usage_report option" where
  "dec_usage_report read_time v = do {
     v \<leftarrow> as_struct [(''period'', False), (''period_start'', False), (''period_end'', False),
       (''orgs'', False), (''failed'', True), (''next_after'', True)] v;
     period \<leftarrow> field ''period'' dec_string v;
     period_start \<leftarrow> field ''period_start'' (dec_time read_time) v;
     period_end \<leftarrow> field ''period_end'' (dec_time read_time) v;
     orgs \<leftarrow> field ''orgs'' (dec_list dec_org_usage) v;
     failed \<leftarrow> field_default ''failed'' (dec_list dec_failed_org) [] v;
     next_after \<leftarrow> field_option ''next_after'' dec_string v;
     Some \<lparr>ur_period = period, ur_period_start = period_start, ur_period_end = period_end,
       ur_orgs = orgs, ur_failed = failed, ur_next_after = next_after\<rparr>
   }"

section \<open>The codecs keep the contract\<close>

text \<open>The values a program holds: finite hours, in key order, and canonical timestamps.\<close>

definition ok_org_usage :: "org_usage \<Rightarrow> bool" where
  "ok_org_usage u =
     (wf_map (ou_instance_hours u) \<and> list_all (\<lambda>(k, h). f64_finite h) (ou_instance_hours u))"

definition ok_usage_report :: "(string \<Rightarrow> string option) \<Rightarrow> usage_report \<Rightarrow> bool" where
  "ok_usage_report read_time r =
     (canonical read_time (ur_period_start r) \<and> canonical read_time (ur_period_end r)
      \<and> list_all ok_org_usage (ur_orgs r))"

interpretation org_usage_codec: wire_value enc_org_usage dec_org_usage ok_org_usage
proof
  fix u :: org_usage
  show "ok_org_usage u \<Longrightarrow> dec_org_usage (enc_org_usage u) = Some u"
    by (simp add: enc_org_usage_def dec_org_usage_def codec_simps ok_org_usage_def
          i64_codec.roundtrip f64_codec.dec_enc_map)
qed (simp add: enc_org_usage_def)

interpretation failed_org_codec: wire_value enc_failed_org dec_failed_org "\<lambda>_. True"
  by unfold_locales (simp_all add: enc_failed_org_def dec_failed_org_def codec_simps)

interpretation usage_report_codec: wire_value enc_usage_report "dec_usage_report read_time"
  "ok_usage_report read_time" for read_time
proof
  fix r :: usage_report
  show "ok_usage_report read_time r \<Longrightarrow> dec_usage_report read_time (enc_usage_report r) = Some r"
    by (cases "ur_next_after r")
      (simp_all add: enc_usage_report_def dec_usage_report_def codec_simps ok_usage_report_def
          time_codec.roundtrip org_usage_codec.dec_enc_list failed_org_codec.dec_enc_list)
qed (simp add: enc_usage_report_def)

section \<open>Properties\<close>

text \<open>
  A usage report survives the wire: what the control plane encodes the federation decodes to
  the same report, so no quantity is lost, defaulted or renamed on the way.
\<close>

theorem usage_report_roundtrip:
  assumes "ok_usage_report read_time r"
  shows "dec_usage_report read_time (enc_usage_report r) = Some r"
  using assms by (rule usage_report_codec.roundtrip)

theorem usage_report_roundtrip_witness:
  "dec_usage_report Some (enc_usage_report
     \<lparr>ur_period = ''2026-06'', ur_period_start = ''2026-06-01T00:00:00Z'', ur_period_end = ''2026-07-01T00:00:00Z'',
      ur_orgs = [\<lparr>ou_org_id = ''o1'', ou_slug = ''acme'', ou_plan_tier = ''team'', ou_tool_calls = 1234,
        ou_instance_hours = [(''m'', 0x3FF8000000000000)], ou_tunnel_bytes = 4096, ou_held_plan_tunnel_bytes = 1024,
        ou_events_delivered = 512, ou_held_plan_events_delivered = 128, ou_events_ingested = 256\<rparr>],
      ur_failed = [], ur_next_after = Some ''acme''\<rparr>) =
   Some \<lparr>ur_period = ''2026-06'', ur_period_start = ''2026-06-01T00:00:00Z'', ur_period_end = ''2026-07-01T00:00:00Z'',
      ur_orgs = [\<lparr>ou_org_id = ''o1'', ou_slug = ''acme'', ou_plan_tier = ''team'', ou_tool_calls = 1234,
        ou_instance_hours = [(''m'', 0x3FF8000000000000)], ou_tunnel_bytes = 4096, ou_held_plan_tunnel_bytes = 1024,
        ou_events_delivered = 512, ou_held_plan_events_delivered = 128, ou_events_ingested = 256\<rparr>],
      ur_failed = [], ur_next_after = Some ''acme''\<rparr>"
proof (rule usage_report_roundtrip)
  have "f64_finite 0x3FF8000000000000" by code_simp
  then show "ok_usage_report Some
     \<lparr>ur_period = ''2026-06'', ur_period_start = ''2026-06-01T00:00:00Z'', ur_period_end = ''2026-07-01T00:00:00Z'',
      ur_orgs = [\<lparr>ou_org_id = ''o1'', ou_slug = ''acme'', ou_plan_tier = ''team'', ou_tool_calls = 1234,
        ou_instance_hours = [(''m'', 0x3FF8000000000000)], ou_tunnel_bytes = 4096, ou_held_plan_tunnel_bytes = 1024,
        ou_events_delivered = 512, ou_held_plan_events_delivered = 128, ou_events_ingested = 256\<rparr>],
      ur_failed = [], ur_next_after = Some ''acme''\<rparr>"
    by (simp add: ok_usage_report_def canonical_def ok_org_usage_def wf_map_def)
qed

text \<open>
  An org of a report from a control plane that meters only tool calls still decodes, with every
  later quantity zero; and without the tool calls it does not decode at all, so billing for calls
  never falls to zero by an absent field.
\<close>

theorem older_org_usage:
  "dec_org_usage (JObject [(''org_id'', JString i), (''slug'', JString s), (''plan_tier'', JString p),
      (''tool_calls'', enc_i64 n)]) =
     Some \<lparr>ou_org_id = i, ou_slug = s, ou_plan_tier = p, ou_tool_calls = n, ou_instance_hours = [],
       ou_tunnel_bytes = 0, ou_held_plan_tunnel_bytes = 0, ou_events_delivered = 0,
       ou_held_plan_events_delivered = 0, ou_events_ingested = 0\<rparr> \<and>
   dec_org_usage (JObject (filter (\<lambda>(k, v). k \<noteq> ''tool_calls'') m)) = None"
proof
  show "dec_org_usage (JObject [(''org_id'', JString i), (''slug'', JString s), (''plan_tier'', JString p),
      (''tool_calls'', enc_i64 n)]) =
     Some \<lparr>ou_org_id = i, ou_slug = s, ou_plan_tier = p, ou_tool_calls = n, ou_instance_hours = [],
       ou_tunnel_bytes = 0, ou_held_plan_tunnel_bytes = 0, ou_events_delivered = 0,
       ou_held_plan_events_delivered = 0, ou_events_ingested = 0\<rparr>"
    by (simp add: dec_org_usage_def codec_simps i64_codec.roundtrip)
  have "map_of (filter (\<lambda>(k, v). k \<noteq> ''tool_calls'') m) ''tool_calls'' = None"
    by (auto simp: map_of_eq_None_iff)
  then show "dec_org_usage (JObject (filter (\<lambda>(k, v). k \<noteq> ''tool_calls'') m)) = None"
    by (auto simp: dec_org_usage_def codec_simps bind_eq_None_conv split: Option.bind_split)
qed

end
