(* ===== verification/PlanNotice.thy ===== *)
theory PlanNotice imports Wire begin

text \<open>
  \<^verbatim>\<open>src/src/plan_notice.rs\<close>: the plan-loss notices the control plane asks the federation to
  send. The name of a Rust variant is \<^verbatim>\<open>.._variant\<close>, and its wire name the snake case of it.
\<close>

definition PLAN_NOTICE_PATH :: string where
  "PLAN_NOTICE_PATH = ''/v1/billing/plan-notice''"

datatype plan_loss_reason = Downgraded | PlanEnded | Unpaid | Revoked | Suspended

fun reason_variant :: "plan_loss_reason \<Rightarrow> string" where
  "reason_variant Downgraded = ''Downgraded''"
| "reason_variant PlanEnded = ''PlanEnded''"
| "reason_variant Unpaid = ''Unpaid''"
| "reason_variant Revoked = ''Revoked''"
| "reason_variant Suspended = ''Suspended''"

definition all_reasons :: "plan_loss_reason list" where
  "all_reasons = [Downgraded, PlanEnded, Unpaid, Revoked, Suspended]"

fun reason_as_str :: "plan_loss_reason \<Rightarrow> string" where
  "reason_as_str Downgraded = ''downgraded''"
| "reason_as_str PlanEnded = ''plan_ended''"
| "reason_as_str Unpaid = ''unpaid''"
| "reason_as_str Revoked = ''revoked''"
| "reason_as_str Suspended = ''suspended''"

definition reason_parse :: "string \<Rightarrow> plan_loss_reason option" where
  "reason_parse s =
     (if s = ''downgraded'' then Some Downgraded
      else if s = ''plan_ended'' then Some PlanEnded
      else if s = ''unpaid'' then Some Unpaid
      else if s = ''revoked'' then Some Revoked
      else if s = ''suspended'' then Some Suspended
      else None)"

datatype plan_notice_kind = GraceStarted | Enforced | RetentionEnding

fun kind_variant :: "plan_notice_kind \<Rightarrow> string" where
  "kind_variant GraceStarted = ''GraceStarted''"
| "kind_variant Enforced = ''Enforced''"
| "kind_variant RetentionEnding = ''RetentionEnding''"

definition all_kinds :: "plan_notice_kind list" where
  "all_kinds = [GraceStarted, Enforced, RetentionEnding]"

fun kind_as_str :: "plan_notice_kind \<Rightarrow> string" where
  "kind_as_str GraceStarted = ''plan_loss.grace_started''"
| "kind_as_str Enforced = ''plan_loss.enforced''"
| "kind_as_str RetentionEnding = ''plan_loss.retention_ending''"

record plan_notice =
  pn_org_slug :: string
  pn_kind :: plan_notice_kind
  pn_reason :: plan_loss_reason
  pn_from_plan :: string
  pn_to_plan :: string
  pn_unpaid_renewal_plan :: "string option"
  pn_lost_at :: string
  pn_grace_until :: string
  pn_immediate :: bool
  pn_stopped_gateways :: "string list"
  pn_resized_gateways :: "string list"
  pn_closed_tunnels :: u64

record plan_notice_response =
  pnr_outcome :: string

definition reason_wire :: "plan_loss_reason \<Rightarrow> string" where
  "reason_wire r = snake_case (reason_variant r)"

definition kind_wire :: "plan_notice_kind \<Rightarrow> string" where
  "kind_wire k = snake_case (kind_variant k)"

definition enc_plan_notice :: "plan_notice \<Rightarrow> json" where
  "enc_plan_notice n = JObject
     ([(''org_slug'', JString (pn_org_slug n)), (''kind'', enc_variant kind_wire (pn_kind n)),
       (''reason'', enc_variant reason_wire (pn_reason n)), (''from_plan'', JString (pn_from_plan n)),
       (''to_plan'', JString (pn_to_plan n))]
      @ (case pn_unpaid_renewal_plan n of None \<Rightarrow> [] | Some p \<Rightarrow> [(''unpaid_renewal_plan'', JString p)])
      @ [(''lost_at'', JString (pn_lost_at n)), (''grace_until'', JString (pn_grace_until n))]
      @ (if \<not> pn_immediate n then [] else [(''immediate'', JBool (pn_immediate n))])
      @ (if pn_stopped_gateways n = [] then []
         else [(''stopped_gateways'', enc_list JString (pn_stopped_gateways n))])
      @ (if pn_resized_gateways n = [] then []
         else [(''resized_gateways'', enc_list JString (pn_resized_gateways n))])
      @ [(''closed_tunnels'', enc_u64 (pn_closed_tunnels n))])"

definition dec_plan_notice :: "(string \<Rightarrow> string option) \<Rightarrow> json \<Rightarrow> plan_notice option" where
  "dec_plan_notice read_time v = do {
     v \<leftarrow> as_struct [(''org_slug'', False), (''kind'', False), (''reason'', False),
       (''from_plan'', False), (''to_plan'', False), (''unpaid_renewal_plan'', True),
       (''lost_at'', False), (''grace_until'', False), (''immediate'', True),
       (''stopped_gateways'', True), (''resized_gateways'', True), (''closed_tunnels'', True)] v;
     org_slug \<leftarrow> field ''org_slug'' dec_string v;
     kind \<leftarrow> field ''kind'' (dec_variant kind_wire all_kinds) v;
     reason \<leftarrow> field ''reason'' (dec_variant reason_wire all_reasons) v;
     from_plan \<leftarrow> field ''from_plan'' dec_string v;
     to_plan \<leftarrow> field ''to_plan'' dec_string v;
     unpaid_renewal_plan \<leftarrow> field_option ''unpaid_renewal_plan'' dec_string v;
     lost_at \<leftarrow> field ''lost_at'' (dec_time read_time) v;
     grace_until \<leftarrow> field ''grace_until'' (dec_time read_time) v;
     immediate \<leftarrow> field_default ''immediate'' dec_bool False v;
     stopped_gateways \<leftarrow> field_default ''stopped_gateways'' (dec_list dec_string) [] v;
     resized_gateways \<leftarrow> field_default ''resized_gateways'' (dec_list dec_string) [] v;
     closed_tunnels \<leftarrow> field_default ''closed_tunnels'' dec_u64 0 v;
     Some \<lparr>pn_org_slug = org_slug, pn_kind = kind, pn_reason = reason, pn_from_plan = from_plan,
       pn_to_plan = to_plan, pn_unpaid_renewal_plan = unpaid_renewal_plan, pn_lost_at = lost_at,
       pn_grace_until = grace_until, pn_immediate = immediate, pn_stopped_gateways = stopped_gateways,
       pn_resized_gateways = resized_gateways, pn_closed_tunnels = closed_tunnels\<rparr>
   }"

definition enc_plan_notice_response :: "plan_notice_response \<Rightarrow> json" where
  "enc_plan_notice_response r = JObject [(''outcome'', JString (pnr_outcome r))]"

definition dec_plan_notice_response :: "json \<Rightarrow> plan_notice_response option" where
  "dec_plan_notice_response v = do {
     v \<leftarrow> as_struct [(''outcome'', False)] v;
     outcome \<leftarrow> field ''outcome'' dec_string v;
     Some \<lparr>pnr_outcome = outcome\<rparr>
   }"

section \<open>The codecs keep the contract\<close>

interpretation reason_codec: variant_names reason_wire all_reasons
proof
  show "r \<in> set all_reasons" for r by (cases r) (simp_all add: all_reasons_def)
  show "distinct (map reason_wire all_reasons)" by code_simp
qed

interpretation kind_codec: variant_names kind_wire all_kinds
proof
  show "k \<in> set all_kinds" for k by (cases k) (simp_all add: all_kinds_def)
  show "distinct (map kind_wire all_kinds)" by code_simp
qed

definition ok_plan_notice :: "(string \<Rightarrow> string option) \<Rightarrow> plan_notice \<Rightarrow> bool" where
  "ok_plan_notice read_time n =
     (canonical read_time (pn_lost_at n) \<and> canonical read_time (pn_grace_until n))"

interpretation plan_notice_codec: wire_value enc_plan_notice "dec_plan_notice read_time"
  "ok_plan_notice read_time" for read_time
proof
  fix n :: plan_notice
  show "ok_plan_notice read_time n \<Longrightarrow> dec_plan_notice read_time (enc_plan_notice n) = Some n"
    by (cases "pn_unpaid_renewal_plan n")
      (simp_all add: enc_plan_notice_def dec_plan_notice_def codec_simps ok_plan_notice_def
          time_codec.roundtrip kind_codec.roundtrip reason_codec.roundtrip u64_codec.roundtrip
          string_codec.dec_enc_list)
qed (simp add: enc_plan_notice_def)

interpretation plan_notice_response_codec:
  wire_value enc_plan_notice_response dec_plan_notice_response "\<lambda>_. True"
  by unfold_locales (simp_all add: enc_plan_notice_response_def dec_plan_notice_response_def codec_simps)

section \<open>Properties\<close>

text \<open>
  A plan-loss notice survives the wire: decoding what was encoded gives the same notice, with
  each field that is skipped when it has its default restored to it.
\<close>

theorem plan_notice_roundtrip:
  assumes "ok_plan_notice read_time n"
  shows "dec_plan_notice read_time (enc_plan_notice n) = Some n"
  using assms by (rule plan_notice_codec.roundtrip)

theorem plan_notice_roundtrip_witness:
  "dec_plan_notice Some (enc_plan_notice \<lparr>pn_org_slug = ''acme'', pn_kind = GraceStarted,
     pn_reason = PlanEnded, pn_from_plan = ''team'', pn_to_plan = ''community'',
     pn_unpaid_renewal_plan = None, pn_lost_at = ''1970-01-01T00:16:40Z'',
     pn_grace_until = ''1970-01-01T00:33:20Z'', pn_immediate = False, pn_stopped_gateways = [],
     pn_resized_gateways = [''g1''], pn_closed_tunnels = 3\<rparr>) =
   Some \<lparr>pn_org_slug = ''acme'', pn_kind = GraceStarted,
     pn_reason = PlanEnded, pn_from_plan = ''team'', pn_to_plan = ''community'',
     pn_unpaid_renewal_plan = None, pn_lost_at = ''1970-01-01T00:16:40Z'',
     pn_grace_until = ''1970-01-01T00:33:20Z'', pn_immediate = False, pn_stopped_gateways = [],
     pn_resized_gateways = [''g1''], pn_closed_tunnels = 3\<rparr>"
  by (rule plan_notice_roundtrip) (simp add: ok_plan_notice_def canonical_def)

text \<open>
  The two spellings of a reason agree: the name in the database is the name on the wire, and
  parsing accepts exactly these names. The name of a notice kind is its wire name after
  \<^verbatim>\<open>plan_loss.\<close>.
\<close>

theorem reason_names:
  "reason_as_str r = reason_wire r \<and> (reason_parse s = Some r \<longleftrightarrow> s = reason_as_str r) \<and>
   kind_as_str k = ''plan_loss.'' @ kind_wire k"
proof (intro conjI)
  have "list_all (\<lambda>r. reason_as_str r = reason_wire r) all_reasons"
    "list_all (\<lambda>k. kind_as_str k = ''plan_loss.'' @ kind_wire k) all_kinds" by code_simp+
  then show "reason_as_str r = reason_wire r" "kind_as_str k = ''plan_loss.'' @ kind_wire k"
    using reason_codec.complete [of r] kind_codec.complete [of k] by (simp_all add: list_all_iff)
  show "reason_parse s = Some r \<longleftrightarrow> s = reason_as_str r"
    by (cases r) (auto simp: reason_parse_def)
qed

end
