(* ===== verification/SubscriptionChange.thy ===== *)
theory SubscriptionChange imports Wire begin

text \<open>
  \<^verbatim>\<open>src/src/subscription_change.rs\<close>: what an owner asks of the org's subscription and what the
  federation answers. Rust's \<^verbatim>\<open>SubscriptionSource::None\<close> is \<^verbatim>\<open>NoSource\<close> here.
\<close>

definition SUBSCRIPTION_PATH :: string where
  "SUBSCRIPTION_PATH = ''/v1/billing/subscription''"

datatype billing_interval = Month | Year

fun interval_as_str :: "billing_interval \<Rightarrow> string" where
  "interval_as_str Month = ''month''"
| "interval_as_str Year = ''year''"

fun interval_variant :: "billing_interval \<Rightarrow> string" where
  "interval_variant Month = ''Month''"
| "interval_variant Year = ''Year''"

definition all_intervals :: "billing_interval list" where
  "all_intervals = [Month, Year]"

datatype subscription_action = ChangePlan | Cancel | Resume

fun action_variant :: "subscription_action \<Rightarrow> string" where
  "action_variant ChangePlan = ''ChangePlan''"
| "action_variant Cancel = ''Cancel''"
| "action_variant Resume = ''Resume''"

definition all_actions :: "subscription_action list" where
  "all_actions = [ChangePlan, Cancel, Resume]"

record subscription_change =
  sc_org_slug :: "string option"
  sc_action :: subscription_action
  sc_plan :: "string option"
  sc_interval :: "billing_interval option"
  sc_actor :: "string option"

datatype subscription_source = NoSource | SelfServe | Sales | OnHold

fun source_variant :: "subscription_source \<Rightarrow> string" where
  "source_variant NoSource = ''None''"
| "source_variant SelfServe = ''SelfServe''"
| "source_variant Sales = ''Sales''"
| "source_variant OnHold = ''OnHold''"

definition all_sources :: "subscription_source list" where
  "all_sources = [NoSource, SelfServe, Sales, OnHold]"

record plan_offer =
  po_plan :: string
  po_interval :: billing_interval

record pending_change =
  pc_plan :: string
  pc_interval :: "billing_interval option"
  pc_effective_at :: string

record pending_payment =
  py_plan :: string
  py_interval :: "billing_interval option"
  py_expires_at :: "string option"
  py_payment_url :: "string option"

record subscription_view =
  sv_source :: subscription_source
  sv_plan :: string
  sv_interval :: "billing_interval option"
  sv_status :: "string option"
  sv_current_period_end :: "string option"
  sv_cancel_at :: "string option"
  sv_pending_change :: "pending_change option"
  sv_pending_payment :: "pending_payment option"
  sv_offers :: "plan_offer list"

datatype change_outcome =
    Upgraded | AwaitingPayment | DowngradeScheduled | PendingChangeDropped | Unchanged
  | CancelScheduled | CancelUndone

fun outcome_variant :: "change_outcome \<Rightarrow> string" where
  "outcome_variant Upgraded = ''Upgraded''"
| "outcome_variant AwaitingPayment = ''AwaitingPayment''"
| "outcome_variant DowngradeScheduled = ''DowngradeScheduled''"
| "outcome_variant PendingChangeDropped = ''PendingChangeDropped''"
| "outcome_variant Unchanged = ''Unchanged''"
| "outcome_variant CancelScheduled = ''CancelScheduled''"
| "outcome_variant CancelUndone = ''CancelUndone''"

definition all_outcomes :: "change_outcome list" where
  "all_outcomes = [Upgraded, AwaitingPayment, DowngradeScheduled, PendingChangeDropped, Unchanged,
     CancelScheduled, CancelUndone]"

record change_response =
  cr_outcome :: change_outcome
  cr_subscription :: subscription_view

section \<open>Encoding and decoding\<close>

definition interval_wire :: "billing_interval \<Rightarrow> string" where
  "interval_wire i = snake_case (interval_variant i)"

definition action_wire :: "subscription_action \<Rightarrow> string" where
  "action_wire a = snake_case (action_variant a)"

definition source_wire :: "subscription_source \<Rightarrow> string" where
  "source_wire s = snake_case (source_variant s)"

definition outcome_wire :: "change_outcome \<Rightarrow> string" where
  "outcome_wire out = snake_case (outcome_variant out)"

abbreviation dec_interval :: "json \<Rightarrow> billing_interval option" where
  "dec_interval \<equiv> dec_variant interval_wire all_intervals"

definition enc_subscription_change :: "subscription_change \<Rightarrow> json" where
  "enc_subscription_change c = JObject
     [(''org_slug'', enc_option JString (sc_org_slug c)), (''action'', enc_variant action_wire (sc_action c)),
      (''plan'', enc_option JString (sc_plan c)),
      (''interval'', enc_option (enc_variant interval_wire) (sc_interval c)),
      (''actor'', enc_option JString (sc_actor c))]"

definition dec_subscription_change :: "json \<Rightarrow> subscription_change option" where
  "dec_subscription_change v = do {
     v \<leftarrow> as_struct [(''org_slug'', True), (''action'', False), (''plan'', True),
       (''interval'', True), (''actor'', True)] v;
     org_slug \<leftarrow> field_option ''org_slug'' dec_string v;
     action \<leftarrow> field ''action'' (dec_variant action_wire all_actions) v;
     plan \<leftarrow> field_option ''plan'' dec_string v;
     interval \<leftarrow> field_option ''interval'' dec_interval v;
     actor \<leftarrow> field_option ''actor'' dec_string v;
     Some \<lparr>sc_org_slug = org_slug, sc_action = action, sc_plan = plan, sc_interval = interval, sc_actor = actor\<rparr>
   }"

definition enc_plan_offer :: "plan_offer \<Rightarrow> json" where
  "enc_plan_offer p = JObject
     [(''plan'', JString (po_plan p)), (''interval'', enc_variant interval_wire (po_interval p))]"

definition dec_plan_offer :: "json \<Rightarrow> plan_offer option" where
  "dec_plan_offer v = do {
     v \<leftarrow> as_struct [(''plan'', False), (''interval'', False)] v;
     plan \<leftarrow> field ''plan'' dec_string v;
     interval \<leftarrow> field ''interval'' dec_interval v;
     Some \<lparr>po_plan = plan, po_interval = interval\<rparr>
   }"

definition enc_pending_change :: "pending_change \<Rightarrow> json" where
  "enc_pending_change p = JObject
     [(''plan'', JString (pc_plan p)), (''interval'', enc_option (enc_variant interval_wire) (pc_interval p)),
      (''effective_at'', JString (pc_effective_at p))]"

definition dec_pending_change :: "(string \<Rightarrow> string option) \<Rightarrow> json \<Rightarrow> pending_change option" where
  "dec_pending_change read_time v = do {
     v \<leftarrow> as_struct [(''plan'', False), (''interval'', False), (''effective_at'', False)] v;
     plan \<leftarrow> field ''plan'' dec_string v;
     interval \<leftarrow> field_option ''interval'' dec_interval v;
     effective_at \<leftarrow> field ''effective_at'' (dec_time read_time) v;
     Some \<lparr>pc_plan = plan, pc_interval = interval, pc_effective_at = effective_at\<rparr>
   }"

definition enc_pending_payment :: "pending_payment \<Rightarrow> json" where
  "enc_pending_payment p = JObject
     [(''plan'', JString (py_plan p)), (''interval'', enc_option (enc_variant interval_wire) (py_interval p)),
      (''expires_at'', enc_option JString (py_expires_at p)),
      (''payment_url'', enc_option JString (py_payment_url p))]"

definition dec_pending_payment :: "(string \<Rightarrow> string option) \<Rightarrow> json \<Rightarrow> pending_payment option" where
  "dec_pending_payment read_time v = do {
     v \<leftarrow> as_struct [(''plan'', False), (''interval'', False), (''expires_at'', False),
       (''payment_url'', False)] v;
     plan \<leftarrow> field ''plan'' dec_string v;
     interval \<leftarrow> field_option ''interval'' dec_interval v;
     expires_at \<leftarrow> field_option ''expires_at'' (dec_time read_time) v;
     payment_url \<leftarrow> field_option ''payment_url'' dec_string v;
     Some \<lparr>py_plan = plan, py_interval = interval, py_expires_at = expires_at, py_payment_url = payment_url\<rparr>
   }"

definition enc_subscription_view :: "subscription_view \<Rightarrow> json" where
  "enc_subscription_view s = JObject
     [(''source'', enc_variant source_wire (sv_source s)), (''plan'', JString (sv_plan s)),
      (''interval'', enc_option (enc_variant interval_wire) (sv_interval s)),
      (''status'', enc_option JString (sv_status s)),
      (''current_period_end'', enc_option JString (sv_current_period_end s)),
      (''cancel_at'', enc_option JString (sv_cancel_at s)),
      (''pending_change'', enc_option enc_pending_change (sv_pending_change s)),
      (''pending_payment'', enc_option enc_pending_payment (sv_pending_payment s)),
      (''offers'', enc_list enc_plan_offer (sv_offers s))]"

definition dec_subscription_view :: "(string \<Rightarrow> string option) \<Rightarrow> json \<Rightarrow> subscription_view option" where
  "dec_subscription_view read_time v = do {
     v \<leftarrow> as_struct [(''source'', False), (''plan'', False), (''interval'', True),
       (''status'', True), (''current_period_end'', True), (''cancel_at'', True),
       (''pending_change'', True), (''pending_payment'', True), (''offers'', True)] v;
     source \<leftarrow> field ''source'' (dec_variant source_wire all_sources) v;
     plan \<leftarrow> field ''plan'' dec_string v;
     interval \<leftarrow> field_option ''interval'' dec_interval v;
     status \<leftarrow> field_option ''status'' dec_string v;
     current_period_end \<leftarrow> field_option ''current_period_end'' (dec_time read_time) v;
     cancel_at \<leftarrow> field_option ''cancel_at'' (dec_time read_time) v;
     pending_change \<leftarrow> field_option ''pending_change'' (dec_pending_change read_time) v;
     pending_payment \<leftarrow> field_option ''pending_payment'' (dec_pending_payment read_time) v;
     offers \<leftarrow> field_default ''offers'' (dec_list dec_plan_offer) [] v;
     Some \<lparr>sv_source = source, sv_plan = plan, sv_interval = interval, sv_status = status,
       sv_current_period_end = current_period_end, sv_cancel_at = cancel_at,
       sv_pending_change = pending_change, sv_pending_payment = pending_payment, sv_offers = offers\<rparr>
   }"

definition enc_change_response :: "change_response \<Rightarrow> json" where
  "enc_change_response r = JObject
     [(''outcome'', enc_variant outcome_wire (cr_outcome r)),
      (''subscription'', enc_subscription_view (cr_subscription r))]"

definition dec_change_response :: "(string \<Rightarrow> string option) \<Rightarrow> json \<Rightarrow> change_response option" where
  "dec_change_response read_time v = do {
     v \<leftarrow> as_struct [(''outcome'', False), (''subscription'', False)] v;
     outcome \<leftarrow> field ''outcome'' (dec_variant outcome_wire all_outcomes) v;
     subscription \<leftarrow> field ''subscription'' (dec_subscription_view read_time) v;
     Some \<lparr>cr_outcome = outcome, cr_subscription = subscription\<rparr>
   }"

section \<open>The codecs keep the contract\<close>

interpretation interval_codec: variant_names interval_wire all_intervals
proof
  show "i \<in> set all_intervals" for i by (cases i) (simp_all add: all_intervals_def)
  show "distinct (map interval_wire all_intervals)" by code_simp
qed

interpretation action_codec: variant_names action_wire all_actions
proof
  show "a \<in> set all_actions" for a by (cases a) (simp_all add: all_actions_def)
  show "distinct (map action_wire all_actions)" by code_simp
qed

interpretation source_codec: variant_names source_wire all_sources
proof
  show "s \<in> set all_sources" for s by (cases s) (simp_all add: all_sources_def)
  show "distinct (map source_wire all_sources)" by code_simp
qed

interpretation outcome_codec: variant_names outcome_wire all_outcomes
proof
  show "x \<in> set all_outcomes" for x by (cases x) (simp_all add: all_outcomes_def)
  show "distinct (map outcome_wire all_outcomes)" by code_simp
qed

lemmas subscription_scalars = codec_simps string_codec.dec_enc_option interval_codec.dec_enc_option
  interval_codec.roundtrip action_codec.roundtrip source_codec.roundtrip outcome_codec.roundtrip
  time_codec.roundtrip time_codec.dec_enc_option

interpretation subscription_change_codec:
  wire_value enc_subscription_change dec_subscription_change "\<lambda>_. True"
  by unfold_locales
    (simp_all add: enc_subscription_change_def dec_subscription_change_def subscription_scalars)

interpretation plan_offer_codec: wire_value enc_plan_offer dec_plan_offer "\<lambda>_. True"
  by unfold_locales (simp_all add: enc_plan_offer_def dec_plan_offer_def subscription_scalars)

definition ok_pending_change :: "(string \<Rightarrow> string option) \<Rightarrow> pending_change \<Rightarrow> bool" where
  "ok_pending_change read_time p = canonical read_time (pc_effective_at p)"

interpretation pending_change_codec: wire_value enc_pending_change "dec_pending_change read_time"
  "ok_pending_change read_time" for read_time
  by unfold_locales
    (simp_all add: enc_pending_change_def dec_pending_change_def subscription_scalars ok_pending_change_def)

definition ok_pending_payment :: "(string \<Rightarrow> string option) \<Rightarrow> pending_payment \<Rightarrow> bool" where
  "ok_pending_payment read_time p = pred_option (canonical read_time) (py_expires_at p)"

interpretation pending_payment_codec: wire_value enc_pending_payment "dec_pending_payment read_time"
  "ok_pending_payment read_time" for read_time
  by unfold_locales
    (simp_all add: enc_pending_payment_def dec_pending_payment_def subscription_scalars ok_pending_payment_def)

definition ok_subscription_view :: "(string \<Rightarrow> string option) \<Rightarrow> subscription_view \<Rightarrow> bool" where
  "ok_subscription_view read_time s =
     (pred_option (canonical read_time) (sv_current_period_end s)
      \<and> pred_option (canonical read_time) (sv_cancel_at s)
      \<and> pred_option (ok_pending_change read_time) (sv_pending_change s)
      \<and> pred_option (ok_pending_payment read_time) (sv_pending_payment s))"

interpretation subscription_view_codec: wire_value enc_subscription_view
  "dec_subscription_view read_time" "ok_subscription_view read_time" for read_time
  by unfold_locales
    (simp_all add: enc_subscription_view_def dec_subscription_view_def subscription_scalars
       ok_subscription_view_def pending_change_codec.dec_enc_option
       pending_payment_codec.dec_enc_option plan_offer_codec.dec_enc_list)

interpretation change_response_codec: wire_value enc_change_response
  "dec_change_response read_time" "\<lambda>r. ok_subscription_view read_time (cr_subscription r)" for read_time
  by unfold_locales
    (simp_all add: enc_change_response_def dec_change_response_def subscription_scalars
       subscription_view_codec.roundtrip)

section \<open>Properties\<close>

text \<open>
  A change request and the federation's answer to it survive the wire: each decodes to the
  value that was encoded, pending change and pending payment included.
\<close>

theorem subscription_roundtrip:
  assumes "ok_subscription_view read_time (cr_subscription r)"
  shows "dec_subscription_change (enc_subscription_change c) = Some c \<and>
    dec_change_response read_time (enc_change_response r) = Some r"
  using change_response_codec.roundtrip [OF assms] subscription_change_codec.roundtrip [of c] by simp

definition sample_response :: change_response where
  "sample_response = \<lparr>cr_outcome = DowngradeScheduled, cr_subscription =
     \<lparr>sv_source = SelfServe, sv_plan = ''team'', sv_interval = Some Year, sv_status = Some ''active'',
      sv_current_period_end = Some ''2027-01-01T00:00:00Z'', sv_cancel_at = None,
      sv_pending_change = Some \<lparr>pc_plan = ''pro'', pc_interval = Some Month, pc_effective_at = ''2027-01-01T00:00:00Z''\<rparr>,
      sv_pending_payment = None, sv_offers = [\<lparr>po_plan = ''pro'', po_interval = Month\<rparr>]\<rparr>\<rparr>"

theorem subscription_roundtrip_witness:
  "dec_subscription_change (enc_subscription_change
     \<lparr>sc_org_slug = None, sc_action = ChangePlan, sc_plan = Some ''pro'', sc_interval = Some Month, sc_actor = None\<rparr>)
   = Some \<lparr>sc_org_slug = None, sc_action = ChangePlan, sc_plan = Some ''pro'', sc_interval = Some Month, sc_actor = None\<rparr> \<and>
   dec_change_response Some (enc_change_response sample_response) = Some sample_response"
  by (rule subscription_roundtrip)
    (simp add: sample_response_def ok_subscription_view_def ok_pending_change_def canonical_def)

text \<open>
  A request that names only its action decodes, with everything else absent, for the three
  actions of the console and for no other action.
\<close>

theorem action_alone:
  "dec_subscription_change (JObject [(''action'', JString s)]) =
     map_option (\<lambda>a. \<lparr>sc_org_slug = None, sc_action = a, sc_plan = None, sc_interval = None, sc_actor = None\<rparr>)
       (if s = ''change_plan'' then Some ChangePlan else if s = ''cancel'' then Some Cancel
        else if s = ''resume'' then Some Resume else None)"
proof -
  have "action_wire ChangePlan = ''change_plan''" "action_wire Cancel = ''cancel''" "action_wire Resume = ''resume''"
    by code_simp+
  then show ?thesis
    by (auto simp: dec_subscription_change_def codec_simps dec_variant_def all_actions_def)
qed

end
