(* ===== verification/BillingPeriod.thy ===== *)
theory BillingPeriod imports Prelude "HOL-Library.Monad_Syntax" begin

text \<open>
  \<^verbatim>\<open>src/src/serving_limits.rs\<close>: the billing period an instant falls in. An instant and the
  calendar are chrono's, a parameter of the model; the locale \<^verbatim>\<open>calendar\<close> states what
  \<^verbatim>\<open>calendar_period\<close> relies on of them, and a proleptic Gregorian calendar interprets it.
\<close>

section \<open>What the code calls of chrono\<close>

text \<open>
  \<^verbatim>\<open>ch_midnight y m d\<close> is \<^verbatim>\<open>NaiveDate::from_ymd_opt\<close>, \<^verbatim>\<open>and_hms_opt(0, 0, 0)\<close> and
  \<^verbatim>\<open>from_utc_datetime\<close>; \<^verbatim>\<open>ch_add_months\<close> is \<^verbatim>\<open>DateTime + Months\<close>, None where it panics.
\<close>

record 't chrono_api =
  ch_valid :: "'t \<Rightarrow> bool"
  ch_year :: "'t \<Rightarrow> int"
  ch_month :: "'t \<Rightarrow> nat"
  ch_le :: "'t \<Rightarrow> 't \<Rightarrow> bool"
  ch_midnight :: "int \<Rightarrow> nat \<Rightarrow> nat \<Rightarrow> 't option"
  ch_add_months :: "'t \<Rightarrow> nat \<Rightarrow> 't option"
  ch_min_year :: int
  ch_max_year :: int

section \<open>The period\<close>

text \<open>\<^verbatim>\<open>{:0w}\<close>: zeros between the sign and the digits up to the width, the sign counted in it.\<close>

definition zero_padded :: "nat \<Rightarrow> int \<Rightarrow> string" where
  "zero_padded w n =
     (let sign = (if n < 0 then ''-'' else []); digits = show_dec \<bar>n\<bar>
      in sign @ replicate (w - length sign - length digits) CHR ''0'' @ digits)"

definition period_label :: "int \<Rightarrow> nat \<Rightarrow> string" where
  "period_label y m = zero_padded 4 y @ ''-'' @ zero_padded 2 (int m)"

definition calendar_period :: "'t chrono_api \<Rightarrow> 't \<Rightarrow> (string \<times> 't \<times> 't) option" where
  "calendar_period c at = do {
     start \<leftarrow> ch_midnight c (ch_year c at) (ch_month c at) 1;
     period_end \<leftarrow> ch_add_months c start 1;
     Some (period_label (ch_year c at) (ch_month c at), start, period_end)
   }"

section \<open>Labels\<close>

lemma decimal_val_zeros [simp]:
  "decimal_val (replicate k CHR ''0'' @ s) = decimal_val s"
proof (induction s rule: rev_induct)
  case Nil
  have "decimal_val (replicate k CHR ''0'') = 0"
  proof (induction k)
    case (Suc k)
    then show ?case
      by (simp only: replicate_Suc replicate_append_same [symmetric] decimal_val_snoc)
        (simp add: digit_val_def)
  qed simp
  then show ?case by simp
next
  case (snoc c s)
  then show ?case by (simp only: append_assoc [symmetric] decimal_val_snoc)
qed

lemma show_dec_last_digits:
  "0 \<le> n \<Longrightarrow> n < 100 \<Longrightarrow> length (show_dec n) \<le> 2"
  by (subst show_dec.simps) (auto simp: show_dec.simps)

lemma zero_padded_digits: "0 \<le> n \<Longrightarrow> list_all is_ascii_digit (zero_padded w n)"
  using show_dec_digits [of n] by (auto simp: zero_padded_def Let_def list_all_iff is_ascii_digit_def)

lemma zero_padded_value: "0 \<le> n \<Longrightarrow> decimal_val (zero_padded w n) = n"
  by (simp add: zero_padded_def Let_def)

lemma zero_padded_minus: "CHR ''-'' \<in> set (zero_padded w n) \<longleftrightarrow> n < 0"
  using show_dec_digits [of "\<bar>n\<bar>"]
  by (auto simp: zero_padded_def Let_def list_all_iff)

lemma zero_padded_inj: "zero_padded w n = zero_padded w k \<Longrightarrow> n = k"
proof -
  assume eq: "zero_padded w n = zero_padded w k"
  then have sign: "n < 0 \<longleftrightarrow> k < 0" by (metis zero_padded_minus)
  show ?thesis
  proof (cases "n < 0")
    case True
    with eq sign have "replicate (w - 1 - length (show_dec (- n))) CHR ''0'' @ show_dec (- n) =
        replicate (w - 1 - length (show_dec (- k))) CHR ''0'' @ show_dec (- k)"
      by (simp add: zero_padded_def Let_def)
    then have "decimal_val (show_dec (- n)) = decimal_val (show_dec (- k))"
      by (metis decimal_val_zeros)
    with True sign show ?thesis by simp
  next
    case False
    with eq sign show ?thesis by (metis zero_padded_value not_less)
  qed
qed

lemma zero_padded_two: "n < 100 \<Longrightarrow> length (zero_padded 2 (int n)) = 2"
  using show_dec_last_digits [of "int n"] by (simp add: zero_padded_def Let_def)

lemma period_label_inj:
  assumes "m < 100" "m' < 100" "period_label y m = period_label y' m'"
  shows "y = y' \<and> m = m'"
proof -
  have "zero_padded 4 y = zero_padded 4 y' \<and> ''-'' @ zero_padded 2 (int m) = ''-'' @ zero_padded 2 (int m')"
    using assms zero_padded_two by (intro append_eq_append_conv [THEN iffD1]) (simp_all add: period_label_def)
  then show ?thesis by (auto dest: zero_padded_inj)
qed

section \<open>The calendar's contract\<close>

text \<open>
  Months are counted from one fixed month; the first of a month is an instant exactly in the years
  chrono represents, and it is the least instant of its month.
\<close>

definition month_index :: "int \<Rightarrow> nat \<Rightarrow> int" where
  "month_index y m = 12 * y + int m - 1"

locale calendar =
  fixes c :: "'t chrono_api"
  assumes valid_month: "ch_valid c t \<Longrightarrow> 1 \<le> ch_month c t \<and> ch_month c t \<le> 12"
    and valid_year: "ch_valid c t \<Longrightarrow> ch_min_year c \<le> ch_year c t \<and> ch_year c t \<le> ch_max_year c"
    and midnight_exists: "1 \<le> m \<Longrightarrow> m \<le> 12 \<Longrightarrow>
      ch_midnight c y m 1 \<noteq> None \<longleftrightarrow> ch_min_year c \<le> y \<and> y \<le> ch_max_year c"
    and midnight_fields: "ch_midnight c y m 1 = Some s \<Longrightarrow>
      ch_valid c s \<and> ch_year c s = y \<and> ch_month c s = m"
    and midnight_least: "ch_midnight c y m 1 = Some s \<Longrightarrow> ch_valid c t \<Longrightarrow>
      ch_le c s t \<longleftrightarrow> month_index y m \<le> month_index (ch_year c t) (ch_month c t)"
    and next_month: "ch_midnight c y m 1 = Some s \<Longrightarrow>
      ch_add_months c s 1 = (if m < 12 then ch_midnight c y (m + 1) 1 else ch_midnight c (y + 1) 1 1)"
begin

lemma period_cases:
  assumes "calendar_period c t = Some (l, s, e)"
  shows "ch_midnight c (ch_year c t) (ch_month c t) 1 = Some s \<and>
    l = period_label (ch_year c t) (ch_month c t) \<and>
    (if ch_month c t < 12 then ch_midnight c (ch_year c t) (ch_month c t + 1) 1
     else ch_midnight c (ch_year c t + 1) 1 1) = Some e"
proof -
  obtain s' where s': "ch_midnight c (ch_year c t) (ch_month c t) 1 = Some s'"
    using assms by (cases "ch_midnight c (ch_year c t) (ch_month c t) 1") (auto simp: calendar_period_def)
  with assms show ?thesis
    unfolding calendar_period_def s' bind.bind_lunit next_month [OF s'] by (auto simp: Option.bind_eq_Some_conv)
qed

lemma end_index:
  assumes "calendar_period c t = Some (l, s, e)" "ch_valid c t"
  shows "ch_valid c e \<and>
    month_index (ch_year c e) (ch_month c e) = month_index (ch_year c t) (ch_month c t) + 1"
  using period_cases [OF assms(1)] midnight_fields valid_month [OF assms(2)]
  by (fastforce simp: month_index_def split: if_splits)

lemma same_month:
  assumes "ch_valid c t" "ch_valid c u"
  shows "month_index (ch_year c t) (ch_month c t) = month_index (ch_year c u) (ch_month c u) \<longleftrightarrow>
    ch_year c t = ch_year c u \<and> ch_month c t = ch_month c u"
  using valid_month [OF assms(1)] valid_month [OF assms(2)] unfolding month_index_def by presburger

lemma window:
  assumes p: "calendar_period c t = Some (l, s, e)" and t: "ch_valid c t" and u: "ch_valid c u"
  shows "ch_le c s u \<and> \<not> ch_le c e u \<longleftrightarrow> ch_year c u = ch_year c t \<and> ch_month c u = ch_month c t"
proof -
  let ?i = "\<lambda>t. month_index (ch_year c t) (ch_month c t)"
  have "ch_le c s u \<longleftrightarrow> ?i t \<le> ?i u"
    using period_cases [OF p] midnight_least u by blast
  moreover have "ch_le c e u \<longleftrightarrow> ?i e \<le> ?i u"
    using period_cases [OF p] midnight_least midnight_fields u by (metis (full_types))
  moreover have "?i e = ?i t + 1" using end_index [OF p t] by simp
  ultimately show ?thesis using same_month [OF u t] by fastforce
qed

lemma defined:
  assumes t: "ch_valid c t"
  shows "calendar_period c t = None \<longleftrightarrow> ch_month c t = 12 \<and> ch_year c t = ch_max_year c"
proof -
  note mt = valid_month [OF t] and yt = valid_year [OF t]
  obtain s where s: "ch_midnight c (ch_year c t) (ch_month c t) 1 = Some s"
    using midnight_exists [of "ch_month c t" "ch_year c t"] mt yt by auto
  have "calendar_period c t = None \<longleftrightarrow> ch_add_months c s 1 = None"
    unfolding calendar_period_def s bind.bind_lunit by (cases "ch_add_months c s 1") simp_all
  moreover have "ch_add_months c s 1 = None \<longleftrightarrow> ch_month c t = 12 \<and> ch_year c t = ch_max_year c"
    using midnight_exists [of "ch_month c t + 1" "ch_year c t"] midnight_exists [of 1 "ch_year c t + 1"]
      mt yt next_month [OF s] by auto
  ultimately show ?thesis by simp
qed

lemma following:
  assumes p: "calendar_period c t = Some (l, s, e)" and t: "ch_valid c t"
    and q: "calendar_period c e = Some (l', s', e')"
  shows "s' = e"
proof -
  have "ch_midnight c (ch_year c e) (ch_month c e) 1 = Some e"
    using period_cases [OF p] midnight_fields by (auto split: if_splits)
  with period_cases [OF q] show ?thesis by simp
qed

lemma label_iff_start:
  assumes p: "calendar_period c t = Some (l, s, e)" and t: "ch_valid c t"
    and q: "calendar_period c u = Some (l', s', e')" and u: "ch_valid c u"
  shows "(l = l' \<longleftrightarrow> ch_le c s u \<and> \<not> ch_le c e u) \<and> (l = l' \<longleftrightarrow> s = s' \<and> e = e')"
proof -
  have "l = l' \<longleftrightarrow> ch_year c u = ch_year c t \<and> ch_month c u = ch_month c t"
    using period_cases [OF p] period_cases [OF q] valid_month [OF t] valid_month [OF u]
      period_label_inj [of "ch_month c t" "ch_month c u" "ch_year c t" "ch_year c u"] by auto
  moreover have "s = s' \<and> e = e' \<longleftrightarrow> ch_year c u = ch_year c t \<and> ch_month c u = ch_month c t"
    using p q period_cases [OF p] period_cases [OF q] midnight_fields
    by (metis option.inject)
  ultimately show ?thesis using window [OF p t u] by simp
qed

end

section \<open>The Gregorian calendar\<close>

text \<open>
  An instant in UTC by its civil fields: the year, the month, the day, the second of the day and
  the nanosecond, which reaches into a leap second. The years are those of chrono's \<^verbatim>\<open>NaiveDate\<close>.
\<close>

record civil =
  cv_year :: int
  cv_month :: nat
  cv_day :: nat
  cv_second :: nat
  cv_nano :: nat

definition is_leap :: "int \<Rightarrow> bool" where
  "is_leap y = (y mod 4 = 0 \<and> (y mod 100 \<noteq> 0 \<or> y mod 400 = 0))"

definition days_in_month :: "int \<Rightarrow> nat \<Rightarrow> nat" where
  "days_in_month y m =
     (if m = 2 then (if is_leap y then 29 else 28) else if m \<in> {4, 6, 9, 11} then 30 else 31)"

definition civil_valid :: "civil \<Rightarrow> bool" where
  "civil_valid d = (- 262143 \<le> cv_year d \<and> cv_year d \<le> 262142 \<and> 1 \<le> cv_month d \<and> cv_month d \<le> 12 \<and>
     1 \<le> cv_day d \<and> cv_day d \<le> days_in_month (cv_year d) (cv_month d) \<and>
     cv_second d < 86400 \<and> cv_nano d < 2000000000)"

definition civil_le :: "civil \<Rightarrow> civil \<Rightarrow> bool" where
  "civil_le d d' =
     (cv_year d < cv_year d' \<or> cv_year d = cv_year d' \<and>
      (cv_month d < cv_month d' \<or> cv_month d = cv_month d' \<and>
       (cv_day d < cv_day d' \<or> cv_day d = cv_day d' \<and>
        (cv_second d < cv_second d' \<or> cv_second d = cv_second d' \<and> cv_nano d \<le> cv_nano d'))))"

definition civil_if_valid :: "civil \<Rightarrow> civil option" where
  "civil_if_valid d = (if civil_valid d then Some d else None)"

text \<open>Months are added to the date, its day cut to the length of the month it reaches.\<close>

definition civil_add_months :: "civil \<Rightarrow> nat \<Rightarrow> civil option" where
  "civil_add_months d k =
     (let i = month_index (cv_year d) (cv_month d) + int k; y = i div 12; m = nat (i mod 12) + 1
      in civil_if_valid (d\<lparr>cv_year := y, cv_month := m, cv_day := min (cv_day d) (days_in_month y m)\<rparr>))"

definition civil_chrono :: "civil chrono_api" where
  "civil_chrono = \<lparr>ch_valid = civil_valid, ch_year = cv_year, ch_month = cv_month, ch_le = civil_le,
     ch_midnight = (\<lambda>y m d. civil_if_valid
       \<lparr>cv_year = y, cv_month = m, cv_day = d, cv_second = 0, cv_nano = 0\<rparr>),
     ch_add_months = civil_add_months, ch_min_year = - 262143, ch_max_year = 262142\<rparr>"

lemma days_in_month_pos [simp]: "Suc 0 \<le> days_in_month y m"
  by (simp add: days_in_month_def)

interpretation civil: calendar civil_chrono
proof
  fix y :: int and m :: nat and s t :: civil
  assume s: "ch_midnight civil_chrono y m 1 = Some s"
  then have s_eq: "s = \<lparr>cv_year = y, cv_month = m, cv_day = 1, cv_second = 0, cv_nano = 0\<rparr>" "civil_valid s"
    by (auto simp: civil_chrono_def civil_if_valid_def split: if_splits)
  show "ch_add_months civil_chrono s 1 =
    (if m < 12 then ch_midnight civil_chrono y (m + 1) 1 else ch_midnight civil_chrono (y + 1) 1 1)"
  proof (cases "m < 12")
    case True
    then have "(12 * y + int m) div 12 = y" "(12 * y + int m) mod 12 = int m" by simp_all
    with s_eq True show ?thesis
      by (simp add: civil_chrono_def civil_add_months_def month_index_def min_def)
  next
    case False
    with s_eq have "m = 12" by (simp add: civil_valid_def)
    then show ?thesis using s_eq
      by (simp add: civil_chrono_def civil_add_months_def month_index_def min_def add.commute)
  qed
  show "ch_le civil_chrono s t \<longleftrightarrow>
      month_index y m \<le> month_index (ch_year civil_chrono t) (ch_month civil_chrono t)"
    if "ch_valid civil_chrono t"
    using s_eq that by (auto simp: civil_chrono_def civil_le_def civil_valid_def month_index_def)
qed (auto simp: civil_chrono_def civil_valid_def civil_if_valid_def split: if_splits)

section \<open>Properties\<close>

text \<open>
  C37: The billing periods tile time: a period holds exactly the instants of its year and month,
  its end is excluded, and the period of its end starts there.
\<close>

theorem billing_periods_tile:
  assumes "calendar c" "ch_valid c t" "ch_valid c u" "calendar_period c t = Some (l, s, e)"
  shows "(ch_le c s u \<and> \<not> ch_le c e u \<longleftrightarrow> ch_year c u = ch_year c t \<and> ch_month c u = ch_month c t) \<and>
    ch_le c s t \<and> \<not> ch_le c e t \<and>
    (calendar_period c e = None \<or> map_option (\<lambda>p. fst (snd p)) (calendar_period c e) = Some e)"
  using calendar.window [OF assms(1,4,2,3)] calendar.window [OF assms(1,4,2,2)]
    calendar.following [OF assms(1,4,2)]
  by (cases "calendar_period c e") auto

abbreviation sample_instant :: civil where
  "sample_instant \<equiv> \<lparr>cv_year = 2026, cv_month = 12, cv_day = 31, cv_second = 86399, cv_nano = 0\<rparr>"

lemma sample_period:
  "calendar_period civil_chrono sample_instant = Some (''2026-12'',
     \<lparr>cv_year = 2026, cv_month = 12, cv_day = 1, cv_second = 0, cv_nano = 0\<rparr>,
     \<lparr>cv_year = 2027, cv_month = 1, cv_day = 1, cv_second = 0, cv_nano = 0\<rparr>)"
proof -
  have "period_label 2026 12 = ''2026-12''" by code_simp
  then show ?thesis
    by (simp add: calendar_period_def civil_chrono_def civil_add_months_def civil_if_valid_def
        civil_valid_def days_in_month_def month_index_def min_def)
qed

lemma sample_valid: "ch_valid civil_chrono sample_instant"
  by (simp add: civil_chrono_def civil_valid_def days_in_month_def)

theorem billing_periods_tile_witness:
  "ch_le civil_chrono \<lparr>cv_year = 2026, cv_month = 12, cv_day = 1, cv_second = 0, cv_nano = 0\<rparr> sample_instant \<and>
   \<not> ch_le civil_chrono \<lparr>cv_year = 2027, cv_month = 1, cv_day = 1, cv_second = 0, cv_nano = 0\<rparr> sample_instant"
  using billing_periods_tile [OF civil.calendar_axioms sample_valid sample_valid sample_period] by blast

text \<open>
  The label identifies the period: the periods of two instants have the same label exactly when
  the one instant lies in the window of the other, and then the windows are the same.
\<close>

theorem billing_period_label:
  assumes "calendar c" "ch_valid c t" "ch_valid c u"
    "calendar_period c t = Some (l, s, e)" "calendar_period c u = Some (l', s', e')"
  shows "(l = l' \<longleftrightarrow> ch_le c s u \<and> \<not> ch_le c e u) \<and> (l = l' \<longleftrightarrow> s = s' \<and> e = e')"
  using assms by (intro calendar.label_iff_start)

theorem billing_period_label_witness:
  "ch_le civil_chrono \<lparr>cv_year = 2026, cv_month = 12, cv_day = 1, cv_second = 0, cv_nano = 0\<rparr> sample_instant"
  using billing_period_label [OF civil.calendar_axioms sample_valid sample_valid sample_period sample_period]
  by blast

text \<open>
  C36: The period is defined for every instant but those of the last month chrono represents, where
  the addition of a month panics.
\<close>

theorem billing_period_defined:
  assumes "calendar c" "ch_valid c t"
  shows "calendar_period c t = None \<longleftrightarrow> ch_month c t = 12 \<and> ch_year c t = ch_max_year c"
  using assms by (rule calendar.defined)

theorem billing_period_defined_witness:
  "calendar_period civil_chrono \<lparr>cv_year = 262142, cv_month = 12, cv_day = 5, cv_second = 0, cv_nano = 0\<rparr> = None"
  by (subst billing_period_defined [OF civil.calendar_axioms])
    (simp_all add: civil_chrono_def civil_valid_def days_in_month_def)

end
