(* ===== verification/ServingLimits.thy ===== *)
theory ServingLimits imports Wire begin

text \<open>
  \<^verbatim>\<open>src/src/serving_limits.rs\<close>: the exchange of an org's usage for its serving limits and the
  owner's spend cap, with the encodings of its serde attributes. The module \<^verbatim>\<open>notice_kind\<close> is the
  four constants of its names.
\<close>

definition SERVING_PATH :: string where
  "SERVING_PATH = ''/v1/billing/serving''"

definition SPEND_CAP_PATH :: string where
  "SPEND_CAP_PATH = ''/v1/billing/spend-cap''"

record org_period_usage =
  op_slug :: string
  op_used :: u64
  op_tunnel_bytes :: u64
  op_held_plan_tunnel_bytes :: u64
  op_events_delivered :: u64
  op_held_plan_events_delivered :: u64

record serving_request =
  sr_period :: string
  sr_orgs :: "org_period_usage list"

record event_delivery_limit =
  ed_ceiling :: "u64 option"

datatype spend_cap_kind = DefaultCap | Custom | UncappedCap | NotOffered

fun cap_kind_variant :: "spend_cap_kind \<Rightarrow> string" where
  "cap_kind_variant DefaultCap = ''Default''"
| "cap_kind_variant Custom = ''Custom''"
| "cap_kind_variant UncappedCap = ''Uncapped''"
| "cap_kind_variant NotOffered = ''NotOffered''"

definition all_cap_kinds :: "spend_cap_kind list" where
  "all_cap_kinds = [DefaultCap, Custom, UncappedCap, NotOffered]"

record spend_cap =
  cap_kind :: spend_cap_kind
  cap_amount_minor :: "i64 option"
  cap_currency :: "string option"
  cap_unit_price_minor :: "string option"
  cap_default_amount_minor :: "i64 option"

record usage_notice =
  un_kind :: string
  un_sent_at :: string

record org_serving_limits =
  ol_slug :: string
  ol_period :: string
  ol_plan :: string
  ol_ceiling :: "u64 option"
  ol_included :: u64
  ol_pack_credits :: u64
  ol_payg_used :: u64
  ol_payg_limit :: "u64 option"
  ol_tunnel_bytes_ceiling :: "u64 option"
  ol_event_deliveries :: "event_delivery_limit option"
  ol_spend_cap :: spend_cap
  ol_notices :: "usage_notice list"
  ol_computed_at :: string

record serving_response =
  sp_period :: string
  sp_orgs :: "org_serving_limits list"

definition ALLOWANCE_80 :: string where
  "ALLOWANCE_80 = ''allowance_80''"

definition ALLOWANCE_100 :: string where
  "ALLOWANCE_100 = ''allowance_100''"

definition SPEND_CAP_80 :: string where
  "SPEND_CAP_80 = ''spend_cap_80''"

definition SPEND_CAP_100 :: string where
  "SPEND_CAP_100 = ''spend_cap_100''"

datatype spend_cap_setting = Default | Amount i64 | Uncapped

fun setting_variant :: "spend_cap_setting \<Rightarrow> string" where
  "setting_variant Default = ''Default''"
| "setting_variant (Amount _) = ''Amount''"
| "setting_variant Uncapped = ''Uncapped''"

record spend_cap_change =
  cc_org_slug :: "string option"
  cc_cap :: spend_cap_setting
  cc_actor :: "string option"

section \<open>Encoding and decoding\<close>

definition cap_kind_wire :: "spend_cap_kind \<Rightarrow> string" where
  "cap_kind_wire k = snake_case (cap_kind_variant k)"

definition setting_wire :: "spend_cap_setting \<Rightarrow> string" where
  "setting_wire s = snake_case (setting_variant s)"

definition enc_org_period_usage :: "org_period_usage \<Rightarrow> json" where
  "enc_org_period_usage u = JObject
     [(''slug'', JString (op_slug u)), (''used'', enc_u64 (op_used u)),
      (''tunnel_bytes'', enc_u64 (op_tunnel_bytes u)),
      (''held_plan_tunnel_bytes'', enc_u64 (op_held_plan_tunnel_bytes u)),
      (''events_delivered'', enc_u64 (op_events_delivered u)),
      (''held_plan_events_delivered'', enc_u64 (op_held_plan_events_delivered u))]"

definition dec_org_period_usage :: "json \<Rightarrow> org_period_usage option" where
  "dec_org_period_usage v = do {
     v \<leftarrow> as_struct [(''slug'', False), (''used'', False), (''tunnel_bytes'', True),
       (''held_plan_tunnel_bytes'', True), (''events_delivered'', True),
       (''held_plan_events_delivered'', True)] v;
     slug \<leftarrow> field ''slug'' dec_string v;
     used \<leftarrow> field ''used'' dec_u64 v;
     tunnel_bytes \<leftarrow> field_default ''tunnel_bytes'' dec_u64 0 v;
     held_plan_tunnel_bytes \<leftarrow> field_default ''held_plan_tunnel_bytes'' dec_u64 0 v;
     events_delivered \<leftarrow> field_default ''events_delivered'' dec_u64 0 v;
     held_plan_events_delivered \<leftarrow> field_default ''held_plan_events_delivered'' dec_u64 0 v;
     Some \<lparr>op_slug = slug, op_used = used, op_tunnel_bytes = tunnel_bytes,
       op_held_plan_tunnel_bytes = held_plan_tunnel_bytes, op_events_delivered = events_delivered,
       op_held_plan_events_delivered = held_plan_events_delivered\<rparr>
   }"

definition enc_serving_request :: "serving_request \<Rightarrow> json" where
  "enc_serving_request r = JObject
     [(''period'', JString (sr_period r)), (''orgs'', enc_list enc_org_period_usage (sr_orgs r))]"

definition dec_serving_request :: "json \<Rightarrow> serving_request option" where
  "dec_serving_request v = do {
     v \<leftarrow> as_struct [(''period'', False), (''orgs'', False)] v;
     period \<leftarrow> field ''period'' dec_string v;
     orgs \<leftarrow> field ''orgs'' (dec_list dec_org_period_usage) v;
     Some \<lparr>sr_period = period, sr_orgs = orgs\<rparr>
   }"

definition enc_event_delivery_limit :: "event_delivery_limit \<Rightarrow> json" where
  "enc_event_delivery_limit e = JObject [(''ceiling'', enc_option enc_u64 (ed_ceiling e))]"

definition dec_event_delivery_limit :: "json \<Rightarrow> event_delivery_limit option" where
  "dec_event_delivery_limit v = do {
     v \<leftarrow> as_struct [(''ceiling'', False)] v;
     ceiling \<leftarrow> field_option ''ceiling'' dec_u64 v;
     Some \<lparr>ed_ceiling = ceiling\<rparr>
   }"

definition enc_spend_cap :: "spend_cap \<Rightarrow> json" where
  "enc_spend_cap s = JObject
     [(''kind'', enc_variant cap_kind_wire (cap_kind s)),
      (''amount_minor'', enc_option enc_i64 (cap_amount_minor s)),
      (''currency'', enc_option JString (cap_currency s)),
      (''unit_price_minor'', enc_option JString (cap_unit_price_minor s)),
      (''default_amount_minor'', enc_option enc_i64 (cap_default_amount_minor s))]"

definition dec_spend_cap :: "json \<Rightarrow> spend_cap option" where
  "dec_spend_cap v = do {
     v \<leftarrow> as_struct [(''kind'', False), (''amount_minor'', False), (''currency'', False),
       (''unit_price_minor'', False), (''default_amount_minor'', False)] v;
     kind \<leftarrow> field ''kind'' (dec_variant cap_kind_wire all_cap_kinds) v;
     amount_minor \<leftarrow> field_option ''amount_minor'' dec_i64 v;
     currency \<leftarrow> field_option ''currency'' dec_string v;
     unit_price_minor \<leftarrow> field_option ''unit_price_minor'' dec_string v;
     default_amount_minor \<leftarrow> field_option ''default_amount_minor'' dec_i64 v;
     Some \<lparr>cap_kind = kind, cap_amount_minor = amount_minor, cap_currency = currency,
       cap_unit_price_minor = unit_price_minor, cap_default_amount_minor = default_amount_minor\<rparr>
   }"

definition enc_usage_notice :: "usage_notice \<Rightarrow> json" where
  "enc_usage_notice n = JObject [(''kind'', JString (un_kind n)), (''sent_at'', JString (un_sent_at n))]"

definition dec_usage_notice :: "(string \<Rightarrow> string option) \<Rightarrow> json \<Rightarrow> usage_notice option" where
  "dec_usage_notice read_time v = do {
     v \<leftarrow> as_struct [(''kind'', False), (''sent_at'', False)] v;
     kind \<leftarrow> field ''kind'' dec_string v;
     sent_at \<leftarrow> field ''sent_at'' (dec_time read_time) v;
     Some \<lparr>un_kind = kind, un_sent_at = sent_at\<rparr>
   }"

definition enc_org_serving_limits :: "org_serving_limits \<Rightarrow> json" where
  "enc_org_serving_limits l = JObject
     ([(''slug'', JString (ol_slug l)), (''period'', JString (ol_period l)), (''plan'', JString (ol_plan l)),
       (''ceiling'', enc_option enc_u64 (ol_ceiling l)), (''included'', enc_u64 (ol_included l)),
       (''pack_credits'', enc_u64 (ol_pack_credits l)), (''payg_used'', enc_u64 (ol_payg_used l)),
       (''payg_limit'', enc_option enc_u64 (ol_payg_limit l)),
       (''tunnel_bytes_ceiling'', enc_option enc_u64 (ol_tunnel_bytes_ceiling l))]
      @ (case ol_event_deliveries l of None \<Rightarrow> [] | Some e \<Rightarrow> [(''event_deliveries'', enc_event_delivery_limit e)])
      @ [(''spend_cap'', enc_spend_cap (ol_spend_cap l)),
         (''notices'', enc_list enc_usage_notice (ol_notices l)),
         (''computed_at'', JString (ol_computed_at l))])"

definition dec_org_serving_limits :: "(string \<Rightarrow> string option) \<Rightarrow> json \<Rightarrow> org_serving_limits option" where
  "dec_org_serving_limits read_time v = do {
     v \<leftarrow> as_struct [(''slug'', False), (''period'', False), (''plan'', False),
       (''ceiling'', False), (''included'', False), (''pack_credits'', False), (''payg_used'', False),
       (''payg_limit'', False), (''tunnel_bytes_ceiling'', True), (''event_deliveries'', True),
       (''spend_cap'', False), (''notices'', True), (''computed_at'', False)] v;
     slug \<leftarrow> field ''slug'' dec_string v;
     period \<leftarrow> field ''period'' dec_string v;
     plan \<leftarrow> field ''plan'' dec_string v;
     ceiling \<leftarrow> field_option ''ceiling'' dec_u64 v;
     included \<leftarrow> field ''included'' dec_u64 v;
     pack_credits \<leftarrow> field ''pack_credits'' dec_u64 v;
     payg_used \<leftarrow> field ''payg_used'' dec_u64 v;
     payg_limit \<leftarrow> field_option ''payg_limit'' dec_u64 v;
     tunnel_bytes_ceiling \<leftarrow> field_option ''tunnel_bytes_ceiling'' dec_u64 v;
     event_deliveries \<leftarrow> field_option ''event_deliveries'' dec_event_delivery_limit v;
     spend_cap \<leftarrow> field ''spend_cap'' dec_spend_cap v;
     notices \<leftarrow> field_default ''notices'' (dec_list (dec_usage_notice read_time)) [] v;
     computed_at \<leftarrow> field ''computed_at'' (dec_time read_time) v;
     Some \<lparr>ol_slug = slug, ol_period = period, ol_plan = plan, ol_ceiling = ceiling,
       ol_included = included, ol_pack_credits = pack_credits, ol_payg_used = payg_used,
       ol_payg_limit = payg_limit, ol_tunnel_bytes_ceiling = tunnel_bytes_ceiling,
       ol_event_deliveries = event_deliveries, ol_spend_cap = spend_cap, ol_notices = notices,
       ol_computed_at = computed_at\<rparr>
   }"

definition enc_serving_response :: "serving_response \<Rightarrow> json" where
  "enc_serving_response r = JObject
     [(''period'', JString (sp_period r)), (''orgs'', enc_list enc_org_serving_limits (sp_orgs r))]"

definition dec_serving_response :: "(string \<Rightarrow> string option) \<Rightarrow> json \<Rightarrow> serving_response option" where
  "dec_serving_response read_time v = do {
     v \<leftarrow> as_struct [(''period'', False), (''orgs'', True)] v;
     period \<leftarrow> field ''period'' dec_string v;
     orgs \<leftarrow> field_default ''orgs'' (dec_list (dec_org_serving_limits read_time)) [] v;
     Some \<lparr>sp_period = period, sp_orgs = orgs\<rparr>
   }"

text \<open>
  A setting is tagged by \<^verbatim>\<open>kind\<close>: the tag stands beside the fields of the variant, and fields the
  variant does not have are ignored.
\<close>

fun setting_fields :: "spend_cap_setting \<Rightarrow> (string \<times> json) list" where
  "setting_fields (Amount amount_minor) = [(''amount_minor'', enc_i64 amount_minor)]"
| "setting_fields _ = []"

definition enc_spend_cap_setting :: "spend_cap_setting \<Rightarrow> json" where
  "enc_spend_cap_setting s = JObject ((''kind'', JString (setting_wire s)) # setting_fields s)"

definition dec_spend_cap_setting :: "json \<Rightarrow> spend_cap_setting option" where
  "dec_spend_cap_setting v = do {
     (kind, rest) \<leftarrow> untag ''kind'' v;
     if kind = setting_wire Default then map_option (\<lambda>_. Default) (unit_content rest)
     else if kind = setting_wire (Amount 0)
     then map_option Amount
       (Option.bind (as_struct [(''amount_minor'', False)] rest) (field ''amount_minor'' dec_i64))
     else if kind = setting_wire Uncapped then map_option (\<lambda>_. Uncapped) (unit_content rest)
     else None
   }"

definition enc_spend_cap_change :: "spend_cap_change \<Rightarrow> json" where
  "enc_spend_cap_change c = JObject
     [(''org_slug'', enc_option JString (cc_org_slug c)), (''cap'', enc_spend_cap_setting (cc_cap c)),
      (''actor'', enc_option JString (cc_actor c))]"

definition dec_spend_cap_change :: "json \<Rightarrow> spend_cap_change option" where
  "dec_spend_cap_change v = do {
     v \<leftarrow> as_struct [(''org_slug'', True), (''cap'', False), (''actor'', True)] v;
     org_slug \<leftarrow> field_option ''org_slug'' dec_string v;
     cap \<leftarrow> field ''cap'' dec_spend_cap_setting v;
     actor \<leftarrow> field_option ''actor'' dec_string v;
     Some \<lparr>cc_org_slug = org_slug, cc_cap = cap, cc_actor = actor\<rparr>
   }"

section \<open>The codecs keep the contract\<close>

interpretation cap_kind_codec: variant_names cap_kind_wire all_cap_kinds
proof
  show "k \<in> set all_cap_kinds" for k by (cases k) (simp_all add: all_cap_kinds_def)
  show "distinct (map cap_kind_wire all_cap_kinds)" by code_simp
qed

lemmas serving_scalars = codec_simps string_codec.dec_enc_option u64_codec.dec_enc_option
  i64_codec.dec_enc_option u64_codec.roundtrip i64_codec.roundtrip cap_kind_codec.roundtrip
  time_codec.roundtrip

lemma setting_names [simp]:
  "setting_wire Default = ''default''" "setting_wire (Amount n) = ''amount''"
  "setting_wire Uncapped = ''uncapped''"
  by code_simp+

interpretation org_period_usage_codec: wire_value enc_org_period_usage dec_org_period_usage "\<lambda>_. True"
  by unfold_locales (simp_all add: enc_org_period_usage_def dec_org_period_usage_def serving_scalars)

interpretation serving_request_codec: wire_value enc_serving_request dec_serving_request "\<lambda>_. True"
  by unfold_locales
    (simp_all add: enc_serving_request_def dec_serving_request_def serving_scalars
       org_period_usage_codec.dec_enc_list)

interpretation event_delivery_limit_codec:
  wire_value enc_event_delivery_limit dec_event_delivery_limit "\<lambda>_. True"
  by unfold_locales (simp_all add: enc_event_delivery_limit_def dec_event_delivery_limit_def serving_scalars)

interpretation spend_cap_codec: wire_value enc_spend_cap dec_spend_cap "\<lambda>_. True"
  by unfold_locales (simp_all add: enc_spend_cap_def dec_spend_cap_def serving_scalars)

definition ok_usage_notice :: "(string \<Rightarrow> string option) \<Rightarrow> usage_notice \<Rightarrow> bool" where
  "ok_usage_notice read_time n = canonical read_time (un_sent_at n)"

interpretation usage_notice_codec: wire_value enc_usage_notice "dec_usage_notice read_time"
  "ok_usage_notice read_time" for read_time
  by unfold_locales
    (simp_all add: enc_usage_notice_def dec_usage_notice_def ok_usage_notice_def serving_scalars)

definition ok_org_serving_limits :: "(string \<Rightarrow> string option) \<Rightarrow> org_serving_limits \<Rightarrow> bool" where
  "ok_org_serving_limits read_time l =
     (list_all (ok_usage_notice read_time) (ol_notices l) \<and> canonical read_time (ol_computed_at l))"

lemma present_option:
  "dec_option dec_event_delivery_limit (enc_event_delivery_limit e) = Some (Some e)"
  using event_delivery_limit_codec.dec_enc_option [of "Some e"] by (simp add: enc_option_def)

interpretation org_serving_limits_codec: wire_value enc_org_serving_limits
  "dec_org_serving_limits read_time" "ok_org_serving_limits read_time" for read_time
proof
  fix l :: org_serving_limits
  show "ok_org_serving_limits read_time l \<Longrightarrow>
      dec_org_serving_limits read_time (enc_org_serving_limits l) = Some l"
    by (cases "ol_event_deliveries l")
      (simp_all add: enc_org_serving_limits_def dec_org_serving_limits_def ok_org_serving_limits_def
         serving_scalars present_option spend_cap_codec.roundtrip usage_notice_codec.dec_enc_list)
qed (simp add: enc_org_serving_limits_def)

interpretation serving_response_codec: wire_value enc_serving_response "dec_serving_response read_time"
  "\<lambda>r. list_all (ok_org_serving_limits read_time) (sp_orgs r)" for read_time
  by unfold_locales
    (simp_all add: enc_serving_response_def dec_serving_response_def serving_scalars
       org_serving_limits_codec.dec_enc_list)

interpretation spend_cap_setting_codec: wire_value enc_spend_cap_setting dec_spend_cap_setting "\<lambda>_. True"
proof
  show "dec_spend_cap_setting (enc_spend_cap_setting s) = Some s" for s
    by (cases s) (simp_all add: enc_spend_cap_setting_def dec_spend_cap_setting_def serving_scalars)
qed (simp add: enc_spend_cap_setting_def)

interpretation spend_cap_change_codec: wire_value enc_spend_cap_change dec_spend_cap_change "\<lambda>_. True"
  by unfold_locales
    (simp_all add: enc_spend_cap_change_def dec_spend_cap_change_def serving_scalars
       spend_cap_setting_codec.roundtrip)

section \<open>Properties\<close>

text \<open>
  The serving exchange survives the wire: the usage posted, the limits answered (an absent and
  an unlimited delivery hold kept apart) and a change of the spend cap decode to what was encoded.
\<close>

theorem serving_roundtrip:
  assumes "list_all (ok_org_serving_limits read_time) (sp_orgs r)"
  shows "dec_serving_request (enc_serving_request q) = Some q \<and>
    dec_serving_response read_time (enc_serving_response r) = Some r \<and>
    dec_spend_cap_change (enc_spend_cap_change c) = Some c"
  using serving_response_codec.roundtrip [OF assms] serving_request_codec.roundtrip [of q]
    spend_cap_change_codec.roundtrip [of c] by simp

definition sample_limits :: serving_response where
  "sample_limits = \<lparr>sp_period = ''2026-09'', sp_orgs = [\<lparr>ol_slug = ''acme'', ol_period = ''2026-09'',
     ol_plan = ''team'', ol_ceiling = None, ol_included = 1000, ol_pack_credits = 0, ol_payg_used = 7,
     ol_payg_limit = Some 0, ol_tunnel_bytes_ceiling = None,
     ol_event_deliveries = Some \<lparr>ed_ceiling = None\<rparr>,
     ol_spend_cap = \<lparr>cap_kind = NotOffered, cap_amount_minor = Some (-1), cap_currency = Some ''eur'',
       cap_unit_price_minor = None, cap_default_amount_minor = None\<rparr>,
     ol_notices = [\<lparr>un_kind = ALLOWANCE_80, un_sent_at = ''2026-09-19T00:00:00Z''\<rparr>],
     ol_computed_at = ''2026-09-20T00:00:00Z''\<rparr>]\<rparr>"

theorem serving_roundtrip_witness:
  "dec_serving_request (enc_serving_request \<lparr>sr_period = ''2026-09'', sr_orgs = []\<rparr>) =
     Some \<lparr>sr_period = ''2026-09'', sr_orgs = []\<rparr> \<and>
   dec_serving_response Some (enc_serving_response sample_limits) = Some sample_limits \<and>
   dec_spend_cap_change (enc_spend_cap_change \<lparr>cc_org_slug = None, cc_cap = Amount 0, cc_actor = None\<rparr>) =
     Some \<lparr>cc_org_slug = None, cc_cap = Amount 0, cc_actor = None\<rparr>"
  by (rule serving_roundtrip)
    (simp add: sample_limits_def ok_org_serving_limits_def ok_usage_notice_def canonical_def)

text \<open>
  C38: A spend cap setting is read by its tag alone: the two settings without an amount whatever else
  the object holds, an amount exactly with its number, and no other tag; as an array it is the tag and
  exactly what the tag takes. Opting out of the cap is never read from anything but the tag that says
  so.
\<close>

theorem spend_cap_by_tag:
  "(dec_spend_cap_setting v = Some Uncapped \<longleftrightarrow>
      json_get v ''kind'' = Some (JString ''uncapped'') \<or> v = JArray [JString ''uncapped'']) \<and>
   (dec_spend_cap_setting v = Some Default \<longleftrightarrow>
      json_get v ''kind'' = Some (JString ''default'') \<or> v = JArray [JString ''default'']) \<and>
   (dec_spend_cap_setting v = Some (Amount n) \<longleftrightarrow>
      json_get v ''kind'' = Some (JString ''amount'') \<and>
        Option.bind (json_get v ''amount_minor'') dec_i64 = Some n \<or>
      (\<exists>w. v = JArray [JString ''amount'', w] \<and> dec_i64 w = Some n))"
proof (cases v)
  case (JObject m)
  show ?thesis
  proof (cases "map_of m ''kind''")
    case (Some k)
    then show ?thesis
      by (cases k) (auto simp: JObject dec_spend_cap_setting_def codec_simps map_of_filter_key)
  qed (simp add: JObject dec_spend_cap_setting_def codec_simps)
next
  case (JArray vs)
  show ?thesis
  proof (cases vs)
    case (Cons k ws)
    then show ?thesis
      by (cases k; cases ws; cases "tl ws")
        (auto simp: JArray dec_spend_cap_setting_def codec_simps)
  qed (simp add: JArray dec_spend_cap_setting_def)
qed (simp_all add: dec_spend_cap_setting_def)

end
