(* ===== verification/Model.thy ===== *)
theory Model imports Wire begin

text \<open>
  \<^verbatim>\<open>src/src/model.rs\<close>: the domain model, with the encodings of its serde attributes. The
  identifiers and slugs come from another crate: their types are type variables and their codecs
  arguments, of which the round trips assume the codec contract and no more.
\<close>

definition ORG_STATUS_ACTIVE :: string where
  "ORG_STATUS_ACTIVE = ''active''"

definition ORG_STATUS_SUSPENDED :: string where
  "ORG_STATUS_SUSPENDED = ''suspended''"

definition ORG_STATUS_DECOMMISSIONING :: string where
  "ORG_STATUS_DECOMMISSIONING = ''decommissioning''"

record ('org, 'slug) org =
  org_id :: 'org
  org_slug :: 'slug
  org_name :: string
  org_plan_tier :: string
  org_status :: string
  org_created_at :: string

definition is_suspended :: "('org, 'slug) org \<Rightarrow> bool" where
  "is_suspended self = (org_status self = ORG_STATUS_SUSPENDED)"

definition is_decommissioning :: "('org, 'slug) org \<Rightarrow> bool" where
  "is_decommissioning self = (org_status self = ORG_STATUS_DECOMMISSIONING)"

record ('ws, 'org, 'slug) workspace =
  ws_id :: 'ws
  ws_org_id :: 'org
  ws_slug :: 'slug
  ws_name :: string
  ws_quota :: json
  ws_created_at :: string

record ('env, 'ws) environment =
  env_id :: 'env
  env_workspace_id :: 'ws
  env_slug :: string
  env_name :: string
  env_created_at :: string

datatype instance_state = Enrolling | Online | Stale | Departed | Quarantined

fun state_variant :: "instance_state \<Rightarrow> string" where
  "state_variant Enrolling = ''Enrolling''"
| "state_variant Online = ''Online''"
| "state_variant Stale = ''Stale''"
| "state_variant Departed = ''Departed''"
| "state_variant Quarantined = ''Quarantined''"

definition all_states :: "instance_state list" where
  "all_states = [Enrolling, Online, Stale, Departed, Quarantined]"

fun state_as_str :: "instance_state \<Rightarrow> string" where
  "state_as_str Enrolling = ''enrolling''"
| "state_as_str Online = ''online''"
| "state_as_str Stale = ''stale''"
| "state_as_str Departed = ''departed''"
| "state_as_str Quarantined = ''quarantined''"

datatype provider_name = Static | Kube | SelfRegistration | DnsService

fun provider_variant :: "provider_name \<Rightarrow> string" where
  "provider_variant Static = ''Static''"
| "provider_variant Kube = ''Kube''"
| "provider_variant SelfRegistration = ''SelfRegistration''"
| "provider_variant DnsService = ''DnsService''"

definition all_providers :: "provider_name list" where
  "all_providers = [Static, Kube, SelfRegistration, DnsService]"

fun provider_as_str :: "provider_name \<Rightarrow> string" where
  "provider_as_str Static = ''static''"
| "provider_as_str Kube = ''kube''"
| "provider_as_str SelfRegistration = ''self_registration''"
| "provider_as_str DnsService = ''dns_service''"

record instance_placement =
  pl_cell_id :: string
  pl_region :: string
  pl_namespace :: string

definition default_placement :: instance_placement where
  "default_placement = \<lparr>pl_cell_id = [], pl_region = [], pl_namespace = []\<rparr>"

definition is_placed :: "instance_placement \<Rightarrow> bool" where
  "is_placed self = (pl_cell_id self \<noteq> [])"

definition default_instance_size :: string where
  "default_instance_size = ''s''"

record ('inst, 'org, 'ws, 'env) gateway_instance =
  in_id :: 'inst
  in_org_id :: 'org
  in_workspace_id :: 'ws
  in_environment_id :: 'env
  in_instance_uid :: string
  in_version :: string
  in_labels :: "(string \<times> string) list"
  in_state :: instance_state
  in_last_seen_at :: "string option"
  in_last_activity_at :: "string option"
  in_idle_warned_at :: "string option"
  in_discovered_via :: provider_name
  in_addressable :: "string list"
  in_size :: string
  in_placement :: instance_placement
  in_created_at :: string

record plugin_entry =
  pe_id :: string
  pe_oci_ref :: string
  pe_digest :: string
  pe_enabled :: bool
  pe_enforce :: bool
  pe_config :: json

record ('uuid, 'org, 'ws) plugin_set =
  ps_id :: 'uuid
  ps_org_id :: 'org
  ps_workspace_id :: 'ws
  ps_name :: string
  ps_entries :: "plugin_entry list"
  ps_capability_grants :: "(string \<times> string list) list"
  ps_content_hash :: string
  ps_created_at :: string

record 'user user =
  us_id :: 'user
  us_federation_sub :: "string option"
  us_email :: string
  us_name :: "string option"
  us_created_at :: string

section \<open>Encoding and decoding\<close>

record 'a codec =
  enc_of :: "'a \<Rightarrow> json"
  dec_of :: "json \<Rightarrow> 'a option"

definition state_wire :: "instance_state \<Rightarrow> string" where
  "state_wire s = snake_case (state_variant s)"

definition provider_wire :: "provider_name \<Rightarrow> string" where
  "provider_wire p = snake_case (provider_variant p)"

definition enc_org :: "'org codec \<Rightarrow> 'slug codec \<Rightarrow> ('org, 'slug) org \<Rightarrow> json" where
  "enc_org oc sc org = JObject
     [(''id'', enc_of oc (org_id org)), (''slug'', enc_of sc (org_slug org)),
      (''name'', JString (org_name org)), (''plan_tier'', JString (org_plan_tier org)),
      (''status'', JString (org_status org)), (''created_at'', JString (org_created_at org))]"

definition dec_org ::
  "'org codec \<Rightarrow> 'slug codec \<Rightarrow> (string \<Rightarrow> string option) \<Rightarrow> json \<Rightarrow> ('org, 'slug) org option" where
  "dec_org oc sc read_time v = do {
     v \<leftarrow> as_struct [(''id'', False), (''slug'', False), (''name'', False),
       (''plan_tier'', False), (''status'', False), (''created_at'', False)] v;
     id \<leftarrow> field ''id'' (dec_of oc) v;
     slug \<leftarrow> field ''slug'' (dec_of sc) v;
     name \<leftarrow> field ''name'' dec_string v;
     plan_tier \<leftarrow> field ''plan_tier'' dec_string v;
     status \<leftarrow> field ''status'' dec_string v;
     created_at \<leftarrow> field ''created_at'' (dec_time read_time) v;
     Some \<lparr>org_id = id, org_slug = slug, org_name = name, org_plan_tier = plan_tier,
       org_status = status, org_created_at = created_at\<rparr>
   }"

definition enc_workspace :: "'ws codec \<Rightarrow> 'org codec \<Rightarrow> 'slug codec \<Rightarrow> ('ws, 'org, 'slug) workspace \<Rightarrow> json" where
  "enc_workspace wc oc sc w = JObject
     [(''id'', enc_of wc (ws_id w)), (''org_id'', enc_of oc (ws_org_id w)),
      (''slug'', enc_of sc (ws_slug w)), (''name'', JString (ws_name w)), (''quota'', ws_quota w),
      (''created_at'', JString (ws_created_at w))]"

definition dec_workspace ::
  "'ws codec \<Rightarrow> 'org codec \<Rightarrow> 'slug codec \<Rightarrow> (string \<Rightarrow> string option) \<Rightarrow> json \<Rightarrow>
     ('ws, 'org, 'slug) workspace option" where
  "dec_workspace wc oc sc read_time v = do {
     v \<leftarrow> as_struct [(''id'', False), (''org_id'', False), (''slug'', False),
       (''name'', False), (''quota'', False), (''created_at'', False)] v;
     id \<leftarrow> field ''id'' (dec_of wc) v;
     org_id \<leftarrow> field ''org_id'' (dec_of oc) v;
     slug \<leftarrow> field ''slug'' (dec_of sc) v;
     name \<leftarrow> field ''name'' dec_string v;
     quota \<leftarrow> field ''quota'' Some v;
     created_at \<leftarrow> field ''created_at'' (dec_time read_time) v;
     Some \<lparr>ws_id = id, ws_org_id = org_id, ws_slug = slug, ws_name = name, ws_quota = quota,
       ws_created_at = created_at\<rparr>
   }"

definition enc_environment :: "'env codec \<Rightarrow> 'ws codec \<Rightarrow> ('env, 'ws) environment \<Rightarrow> json" where
  "enc_environment ec wc e = JObject
     [(''id'', enc_of ec (env_id e)), (''workspace_id'', enc_of wc (env_workspace_id e)),
      (''slug'', JString (env_slug e)), (''name'', JString (env_name e)),
      (''created_at'', JString (env_created_at e))]"

definition dec_environment ::
  "'env codec \<Rightarrow> 'ws codec \<Rightarrow> (string \<Rightarrow> string option) \<Rightarrow> json \<Rightarrow> ('env, 'ws) environment option" where
  "dec_environment ec wc read_time v = do {
     v \<leftarrow> as_struct [(''id'', False), (''workspace_id'', False), (''slug'', False),
       (''name'', False), (''created_at'', False)] v;
     id \<leftarrow> field ''id'' (dec_of ec) v;
     workspace_id \<leftarrow> field ''workspace_id'' (dec_of wc) v;
     slug \<leftarrow> field ''slug'' dec_string v;
     name \<leftarrow> field ''name'' dec_string v;
     created_at \<leftarrow> field ''created_at'' (dec_time read_time) v;
     Some \<lparr>env_id = id, env_workspace_id = workspace_id, env_slug = slug, env_name = name,
       env_created_at = created_at\<rparr>
   }"

definition enc_placement :: "instance_placement \<Rightarrow> json" where
  "enc_placement p = JObject
     [(''cell_id'', JString (pl_cell_id p)), (''region'', JString (pl_region p)),
      (''namespace'', JString (pl_namespace p))]"

definition dec_placement :: "json \<Rightarrow> instance_placement option" where
  "dec_placement v = do {
     v \<leftarrow> as_struct [(''cell_id'', True), (''region'', True), (''namespace'', True)] v;
     cell_id \<leftarrow> field_default ''cell_id'' dec_string [] v;
     region \<leftarrow> field_default ''region'' dec_string [] v;
     namespace \<leftarrow> field_default ''namespace'' dec_string [] v;
     Some \<lparr>pl_cell_id = cell_id, pl_region = region, pl_namespace = namespace\<rparr>
   }"

definition enc_instance ::
  "'inst codec \<Rightarrow> 'org codec \<Rightarrow> 'ws codec \<Rightarrow> 'env codec \<Rightarrow> ('inst, 'org, 'ws, 'env) gateway_instance \<Rightarrow> json" where
  "enc_instance ic oc wc ec i = JObject
     [(''id'', enc_of ic (in_id i)), (''org_id'', enc_of oc (in_org_id i)),
      (''workspace_id'', enc_of wc (in_workspace_id i)),
      (''environment_id'', enc_of ec (in_environment_id i)),
      (''instance_uid'', JString (in_instance_uid i)), (''version'', JString (in_version i)),
      (''labels'', enc_map JString (in_labels i)), (''state'', enc_variant state_wire (in_state i)),
      (''last_seen_at'', enc_option JString (in_last_seen_at i)),
      (''last_activity_at'', enc_option JString (in_last_activity_at i)),
      (''idle_warned_at'', enc_option JString (in_idle_warned_at i)),
      (''discovered_via'', enc_variant provider_wire (in_discovered_via i)),
      (''addressable'', enc_list JString (in_addressable i)), (''size'', JString (in_size i)),
      (''placement'', enc_placement (in_placement i)), (''created_at'', JString (in_created_at i))]"

definition dec_instance ::
  "'inst codec \<Rightarrow> 'org codec \<Rightarrow> 'ws codec \<Rightarrow> 'env codec \<Rightarrow> (string \<Rightarrow> string option) \<Rightarrow> json \<Rightarrow>
     ('inst, 'org, 'ws, 'env) gateway_instance option" where
  "dec_instance ic oc wc ec read_time v = do {
     v \<leftarrow> as_struct [(''id'', False), (''org_id'', False), (''workspace_id'', False),
       (''environment_id'', False), (''instance_uid'', False), (''version'', False),
       (''labels'', False), (''state'', False), (''last_seen_at'', False),
       (''last_activity_at'', True), (''idle_warned_at'', True), (''discovered_via'', False),
       (''addressable'', True), (''size'', True), (''placement'', True), (''created_at'', False)] v;
     id \<leftarrow> field ''id'' (dec_of ic) v;
     org_id \<leftarrow> field ''org_id'' (dec_of oc) v;
     workspace_id \<leftarrow> field ''workspace_id'' (dec_of wc) v;
     environment_id \<leftarrow> field ''environment_id'' (dec_of ec) v;
     instance_uid \<leftarrow> field ''instance_uid'' dec_string v;
     version \<leftarrow> field ''version'' dec_string v;
     labels \<leftarrow> field ''labels'' (dec_map dec_string) v;
     state \<leftarrow> field ''state'' (dec_variant state_wire all_states) v;
     last_seen_at \<leftarrow> field_option ''last_seen_at'' (dec_time read_time) v;
     last_activity_at \<leftarrow> field_option ''last_activity_at'' (dec_time read_time) v;
     idle_warned_at \<leftarrow> field_option ''idle_warned_at'' (dec_time read_time) v;
     discovered_via \<leftarrow> field ''discovered_via'' (dec_variant provider_wire all_providers) v;
     addressable \<leftarrow> field_default ''addressable'' (dec_list dec_string) [] v;
     size \<leftarrow> field_default ''size'' dec_string default_instance_size v;
     placement \<leftarrow> field_default ''placement'' dec_placement default_placement v;
     created_at \<leftarrow> field ''created_at'' (dec_time read_time) v;
     Some \<lparr>in_id = id, in_org_id = org_id, in_workspace_id = workspace_id,
       in_environment_id = environment_id, in_instance_uid = instance_uid, in_version = version,
       in_labels = labels, in_state = state, in_last_seen_at = last_seen_at,
       in_last_activity_at = last_activity_at, in_idle_warned_at = idle_warned_at,
       in_discovered_via = discovered_via, in_addressable = addressable, in_size = size,
       in_placement = placement, in_created_at = created_at\<rparr>
   }"

definition enc_plugin_entry :: "plugin_entry \<Rightarrow> json" where
  "enc_plugin_entry p = JObject
     [(''id'', JString (pe_id p)), (''oci_ref'', JString (pe_oci_ref p)), (''digest'', JString (pe_digest p)),
      (''enabled'', JBool (pe_enabled p)), (''enforce'', JBool (pe_enforce p)), (''config'', pe_config p)]"

definition dec_plugin_entry :: "json \<Rightarrow> plugin_entry option" where
  "dec_plugin_entry v = do {
     v \<leftarrow> as_struct [(''id'', False), (''oci_ref'', False), (''digest'', False),
       (''enabled'', False), (''enforce'', False), (''config'', False)] v;
     id \<leftarrow> field ''id'' dec_string v;
     oci_ref \<leftarrow> field ''oci_ref'' dec_string v;
     digest \<leftarrow> field ''digest'' dec_string v;
     enabled \<leftarrow> field ''enabled'' dec_bool v;
     enforce \<leftarrow> field ''enforce'' dec_bool v;
     config \<leftarrow> field ''config'' Some v;
     Some \<lparr>pe_id = id, pe_oci_ref = oci_ref, pe_digest = digest, pe_enabled = enabled,
       pe_enforce = enforce, pe_config = config\<rparr>
   }"

definition enc_plugin_set ::
  "'uuid codec \<Rightarrow> 'org codec \<Rightarrow> 'ws codec \<Rightarrow> ('uuid, 'org, 'ws) plugin_set \<Rightarrow> json" where
  "enc_plugin_set uc oc wc p = JObject
     [(''id'', enc_of uc (ps_id p)), (''org_id'', enc_of oc (ps_org_id p)),
      (''workspace_id'', enc_of wc (ps_workspace_id p)), (''name'', JString (ps_name p)),
      (''entries'', enc_list enc_plugin_entry (ps_entries p)),
      (''capability_grants'', enc_map (enc_list JString) (ps_capability_grants p)),
      (''content_hash'', JString (ps_content_hash p)), (''created_at'', JString (ps_created_at p))]"

definition dec_plugin_set ::
  "'uuid codec \<Rightarrow> 'org codec \<Rightarrow> 'ws codec \<Rightarrow> (string \<Rightarrow> string option) \<Rightarrow> json \<Rightarrow>
     ('uuid, 'org, 'ws) plugin_set option" where
  "dec_plugin_set uc oc wc read_time v = do {
     v \<leftarrow> as_struct [(''id'', False), (''org_id'', False), (''workspace_id'', False),
       (''name'', False), (''entries'', False), (''capability_grants'', False),
       (''content_hash'', False), (''created_at'', False)] v;
     id \<leftarrow> field ''id'' (dec_of uc) v;
     org_id \<leftarrow> field ''org_id'' (dec_of oc) v;
     workspace_id \<leftarrow> field ''workspace_id'' (dec_of wc) v;
     name \<leftarrow> field ''name'' dec_string v;
     entries \<leftarrow> field ''entries'' (dec_list dec_plugin_entry) v;
     capability_grants \<leftarrow> field ''capability_grants'' (dec_map (dec_list dec_string)) v;
     content_hash \<leftarrow> field ''content_hash'' dec_string v;
     created_at \<leftarrow> field ''created_at'' (dec_time read_time) v;
     Some \<lparr>ps_id = id, ps_org_id = org_id, ps_workspace_id = workspace_id, ps_name = name,
       ps_entries = entries, ps_capability_grants = capability_grants,
       ps_content_hash = content_hash, ps_created_at = created_at\<rparr>
   }"

definition enc_user :: "'user codec \<Rightarrow> 'user user \<Rightarrow> json" where
  "enc_user uc u = JObject
     [(''id'', enc_of uc (us_id u)), (''federation_sub'', enc_option JString (us_federation_sub u)),
      (''email'', JString (us_email u)), (''name'', enc_option JString (us_name u)),
      (''created_at'', JString (us_created_at u))]"

definition dec_user :: "'user codec \<Rightarrow> (string \<Rightarrow> string option) \<Rightarrow> json \<Rightarrow> 'user user option" where
  "dec_user uc read_time v = do {
     v \<leftarrow> as_struct [(''id'', False), (''federation_sub'', False), (''email'', False),
       (''name'', False), (''created_at'', False)] v;
     id \<leftarrow> field ''id'' (dec_of uc) v;
     federation_sub \<leftarrow> field_option ''federation_sub'' dec_string v;
     email \<leftarrow> field ''email'' dec_string v;
     name \<leftarrow> field_option ''name'' dec_string v;
     created_at \<leftarrow> field ''created_at'' (dec_time read_time) v;
     Some \<lparr>us_id = id, us_federation_sub = federation_sub, us_email = email, us_name = name,
       us_created_at = created_at\<rparr>
   }"

section \<open>The codecs keep the contract\<close>

interpretation state_codec: variant_names state_wire all_states
proof
  show "s \<in> set all_states" for s by (cases s) (simp_all add: all_states_def)
  show "distinct (map state_wire all_states)" by code_simp
qed

interpretation provider_codec: variant_names provider_wire all_providers
proof
  show "p \<in> set all_providers" for p by (cases p) (simp_all add: all_providers_def)
  show "distinct (map provider_wire all_providers)" by code_simp
qed

abbreviation lawful_id :: "'a codec \<Rightarrow> bool" where
  "lawful_id c \<equiv> wire_value (enc_of c) (dec_of c) (\<lambda>_. True)"

lemma lawful_id_roundtrip: "lawful_id c \<Longrightarrow> dec_of c (enc_of c x) = Some x"
  by (simp add: wire_value_def wire_codec_def)

lemmas model_scalars = codec_simps lawful_id_roundtrip string_codec.dec_enc_option
  state_codec.roundtrip provider_codec.roundtrip string_codec.dec_enc_list time_codec.roundtrip

interpretation placement_codec: wire_value enc_placement dec_placement "\<lambda>_. True"
  by unfold_locales (simp_all add: enc_placement_def dec_placement_def codec_simps)

interpretation plugin_entry_codec: wire_value enc_plugin_entry dec_plugin_entry "\<lambda>_. True"
  by unfold_locales (simp_all add: enc_plugin_entry_def dec_plugin_entry_def codec_simps)

interpretation strings_codec: wire_value "enc_list JString" "dec_list dec_string" "\<lambda>_. True"
proof
  show "dec_list dec_string (enc_list JString xs) = Some xs" for xs
    by (rule string_codec.dec_enc_list) (simp add: trivially_ok)
qed (simp add: enc_list_def)

definition ok_instance :: "(string \<Rightarrow> string option) \<Rightarrow> ('inst, 'org, 'ws, 'env) gateway_instance \<Rightarrow> bool" where
  "ok_instance read_time i =
     (wf_map (in_labels i) \<and> pred_option (canonical read_time) (in_last_seen_at i) \<and>
      pred_option (canonical read_time) (in_last_activity_at i) \<and>
      pred_option (canonical read_time) (in_idle_warned_at i) \<and> canonical read_time (in_created_at i))"

definition ok_plugin_set :: "(string \<Rightarrow> string option) \<Rightarrow> ('uuid, 'org, 'ws) plugin_set \<Rightarrow> bool" where
  "ok_plugin_set read_time p =
     (wf_map (ps_capability_grants p) \<and> canonical read_time (ps_created_at p))"

lemma instance_codec:
  assumes "lawful_id ic" "lawful_id oc" "lawful_id wc" "lawful_id ec"
  shows "wire_value (enc_instance ic oc wc ec) (dec_instance ic oc wc ec read_time) (ok_instance read_time)"
  by unfold_locales
    (simp_all add: enc_instance_def dec_instance_def ok_instance_def model_scalars assms
       time_codec.dec_enc_option placement_codec.roundtrip string_codec.dec_enc_map)

lemma plugin_set_codec:
  assumes "lawful_id uc" "lawful_id oc" "lawful_id wc"
  shows "wire_value (enc_plugin_set uc oc wc) (dec_plugin_set uc oc wc read_time) (ok_plugin_set read_time)"
  by unfold_locales
    (simp_all add: enc_plugin_set_def dec_plugin_set_def ok_plugin_set_def model_scalars assms
       plugin_entry_codec.dec_enc_list strings_codec.dec_enc_map)

lemma org_codec:
  assumes "lawful_id oc" "lawful_id sc"
  shows "wire_value (enc_org oc sc) (dec_org oc sc read_time) (\<lambda>org. canonical read_time (org_created_at org))"
  by unfold_locales (simp_all add: enc_org_def dec_org_def model_scalars assms)

lemma workspace_codec:
  assumes "lawful_id wc" "lawful_id oc" "lawful_id sc"
  shows "wire_value (enc_workspace wc oc sc) (dec_workspace wc oc sc read_time)
    (\<lambda>w. canonical read_time (ws_created_at w))"
  by unfold_locales (simp_all add: enc_workspace_def dec_workspace_def model_scalars assms)

lemma environment_codec:
  assumes "lawful_id ec" "lawful_id wc"
  shows "wire_value (enc_environment ec wc) (dec_environment ec wc read_time)
    (\<lambda>e. canonical read_time (env_created_at e))"
  by unfold_locales (simp_all add: enc_environment_def dec_environment_def model_scalars assms)

lemma user_codec:
  assumes "lawful_id uc"
  shows "wire_value (enc_user uc) (dec_user uc read_time) (\<lambda>u. canonical read_time (us_created_at u))"
  by unfold_locales (simp_all add: enc_user_def dec_user_def model_scalars assms)

section \<open>Properties\<close>

text \<open>
  An instance survives the wire and the database, whatever its identifiers are, as long as
  they do themselves.
\<close>

theorem instance_roundtrip:
  assumes "lawful_id ic" "lawful_id oc" "lawful_id wc" "lawful_id ec" "ok_instance read_time i"
  shows "dec_instance ic oc wc ec read_time (enc_instance ic oc wc ec i) = Some i"
  using wire_codec.roundtrip [OF wire_value.axioms(1), OF instance_codec] assms by blast

abbreviation uuid_text :: "string codec" where
  "uuid_text \<equiv> \<lparr>enc_of = JString, dec_of = dec_string\<rparr>"

lemma uuid_text_lawful: "lawful_id uuid_text"
  by (simp add: string_codec.wire_value_axioms)

definition sample_instance :: "(string, string, string, string) gateway_instance" where
  "sample_instance = \<lparr>in_id = ''i1'', in_org_id = ''o1'', in_workspace_id = ''w1'',
     in_environment_id = ''e1'', in_instance_uid = ''uid'', in_version = ''1.2.3'',
     in_labels = [(''region'', ''eu'')], in_state = Online,
     in_last_seen_at = Some ''2026-09-20T00:00:00Z'', in_last_activity_at = None,
     in_idle_warned_at = None, in_discovered_via = SelfRegistration, in_addressable = [],
     in_size = default_instance_size, in_placement = default_placement,
     in_created_at = ''2026-09-19T00:00:00Z''\<rparr>"

lemma sample_instance_ok: "ok_instance Some sample_instance"
  by (simp add: sample_instance_def ok_instance_def wf_map_def canonical_def)

theorem instance_roundtrip_witness:
  "dec_instance uuid_text uuid_text uuid_text uuid_text Some
     (enc_instance uuid_text uuid_text uuid_text uuid_text sample_instance) = Some sample_instance"
  by (rule instance_roundtrip) (rule uuid_text_lawful sample_instance_ok)+

definition without :: "string list \<Rightarrow> json \<Rightarrow> json" where
  "without ks v = (case v of JObject m \<Rightarrow> JObject (filter (\<lambda>(k, _). k \<notin> set ks) m) | _ \<Rightarrow> v)"

text \<open>
  An instance recorded before a field existed still decodes: without the defaulted fields, it
  has no activity, no idle warning and no address, the smallest size and no placement, and the
  fields it had are kept.
\<close>

theorem older_instance:
  assumes "lawful_id ic" "lawful_id oc" "lawful_id wc" "lawful_id ec" "ok_instance read_time i"
  shows "dec_instance ic oc wc ec read_time
      (without [''last_activity_at'', ''idle_warned_at'', ''addressable'', ''size'', ''placement'']
        (enc_instance ic oc wc ec i)) =
    Some (i\<lparr>in_last_activity_at := None, in_idle_warned_at := None, in_addressable := [],
      in_size := ''s'', in_placement := \<lparr>pl_cell_id = [], pl_region = [], pl_namespace = []\<rparr>\<rparr>)"
  using assms
  by (simp add: enc_instance_def dec_instance_def without_def ok_instance_def model_scalars
      time_codec.dec_enc_option placement_codec.roundtrip string_codec.dec_enc_map
      default_instance_size_def default_placement_def)

theorem older_instance_witness:
  "dec_instance uuid_text uuid_text uuid_text uuid_text Some
      (without [''last_activity_at'', ''idle_warned_at'', ''addressable'', ''size'', ''placement'']
        (enc_instance uuid_text uuid_text uuid_text uuid_text sample_instance)) =
    Some (sample_instance\<lparr>in_last_activity_at := None, in_idle_warned_at := None, in_addressable := [],
      in_size := ''s'', in_placement := \<lparr>pl_cell_id = [], pl_region = [], pl_namespace = []\<rparr>\<rparr>)"
  by (rule older_instance) (rule uuid_text_lawful sample_instance_ok)+

text \<open>
  The names the code prints are the names on the wire: for the state of an instance and for
  the provider that found it, the hand-written name is the one serde reads back to the value, and
  no other text is read as it.
\<close>

theorem model_names:
  "(dec_variant state_wire all_states (JString t) = Some s \<longleftrightarrow> t = state_as_str s) \<and>
   (dec_variant provider_wire all_providers (JString t) = Some p \<longleftrightarrow> t = provider_as_str p)"
proof -
  have "list_all (\<lambda>s. state_as_str s = state_wire s) all_states"
    "list_all (\<lambda>p. provider_as_str p = provider_wire p) all_providers" by code_simp+
  then have "state_as_str s = state_wire s" "provider_as_str p = provider_wire p"
    using state_codec.complete [of s] provider_codec.complete [of p] by (simp_all add: list_all_iff)
  then show ?thesis
    by (auto simp: dec_variant_def state_codec.find_name provider_codec.find_name)
qed

end
