(* ===== verification/Errors.thy ===== *)
theory Errors imports Prelude begin

text \<open>
  \<^verbatim>\<open>src/src/error.rs\<close>: the error every API of the crate returns. The errors it wraps come from
  other crates: their types are type variables, and what they print an argument.
\<close>

datatype ('lic, 'db, 'serde, 'other) core_error =
    NotFound string
  | Conflict string
  | InvalidArgument string
  | Unauthorized string
  | Forbidden string
  | License 'lic
  | QuotaExceeded (quota_resource: string) (quota_current: u64) (quota_max: u64)
  | Unsupported (unsupported_provider: string) (unsupported_operation: string)
  | Db 'db
  | Serde 'serde
  | Internal 'other

type_synonym ('lic, 'db, 'serde, 'other, 'a) result = "('lic, 'db, 'serde, 'other) core_error + 'a"

record ('lic, 'db, 'serde, 'other) displays =
  show_license :: "'lic \<Rightarrow> string"
  show_db :: "'db \<Rightarrow> string"
  show_serde :: "'serde \<Rightarrow> string"
  show_other :: "'other \<Rightarrow> string"

fun show_error :: "('lic, 'db, 'serde, 'other) displays \<Rightarrow> ('lic, 'db, 'serde, 'other) core_error \<Rightarrow> string" where
  "show_error d (NotFound s) = ''not found: '' @ s"
| "show_error d (Conflict s) = ''conflict: '' @ s"
| "show_error d (InvalidArgument s) = ''invalid argument: '' @ s"
| "show_error d (Unauthorized s) = ''unauthorized: '' @ s"
| "show_error d (Forbidden s) = ''forbidden: '' @ s"
| "show_error d (License e) = ''license: '' @ show_license d e"
| "show_error d (QuotaExceeded resource current maximum) =
     ''quota exceeded: '' @ resource @ '': current='' @ show_dec (uint current) @ '', max='' @ show_dec (uint maximum)"
| "show_error d (Unsupported provider operation) =
     ''provider '' @ provider @ '' unsupported: '' @ operation"
| "show_error d (Db e) = ''db: '' @ show_db d e"
| "show_error d (Serde e) = ''serde: '' @ show_serde d e"
| "show_error d (Internal e) = ''internal: '' @ show_other d e"

section \<open>What the text says\<close>

lemma show_dec_inj: "0 \<le> a \<Longrightarrow> 0 \<le> b \<Longrightarrow> show_dec a = show_dec b \<Longrightarrow> a = b"
  by (metis decimal_val_show_dec)

lemma last_field_unique:
  fixes c :: char
  assumes "s @ c # xs = t @ c # ys" "c \<notin> set xs" "c \<notin> set ys"
  shows "s = t \<and> xs = ys"
proof -
  have "rsplit_once c (s @ c # xs) = Some (s, xs)" using assms(2) by (rule rsplit_once_append)
  moreover have "rsplit_once c (t @ c # ys) = Some (t, ys)" using assms(3) by (rule rsplit_once_append)
  ultimately have "Some (s, xs) = Some (t, ys)" by (simp only: assms(1))
  then show ?thesis by simp
qed

lemma show_dec_no_equals [simp]: "0 \<le> n \<Longrightarrow> CHR ''='' \<notin> set (show_dec n)"
  using show_dec_digits [of n] by (auto simp: list_all_iff is_ascii_digit_def)

lemma show_dec_no_comma [simp]: "0 \<le> n \<Longrightarrow> CHR '','' \<notin> set (show_dec n)"
  using show_dec_digits [of n] by (auto simp: list_all_iff is_ascii_digit_def)

lemma quota_text_inj:
  assumes "r @ '': current='' @ show_dec (uint a) @ '', max='' @ show_dec (uint (m :: u64)) =
    r' @ '': current='' @ show_dec (uint (a' :: u64)) @ '', max='' @ show_dec (uint (m' :: u64))"
  shows "r = r' \<and> a = a' \<and> m = m'"
proof -
  have "(r @ '': current='' @ show_dec (uint a) @ '', max'') @ CHR ''='' # show_dec (uint m) =
      (r' @ '': current='' @ show_dec (uint a') @ '', max'') @ CHR ''='' # show_dec (uint m')"
    using assms by simp
  then have m: "show_dec (uint m) = show_dec (uint m')"
    and "r @ '': current='' @ show_dec (uint a) @ '', max'' =
      r' @ '': current='' @ show_dec (uint a') @ '', max''"
    using last_field_unique by (metis show_dec_no_equals uint_nonnegative)+
  then have "(r @ '': current'') @ CHR ''='' # show_dec (uint a) =
      (r' @ '': current'') @ CHR ''='' # show_dec (uint a')" by simp
  then have "show_dec (uint a) = show_dec (uint a')" "r @ '': current'' = r' @ '': current''"
    using last_field_unique by (metis show_dec_no_equals uint_nonnegative)+
  with m show ?thesis using show_dec_inj by (metis append_same_eq uint_nonnegative word_uint_eq_iff)
qed

section \<open>Properties\<close>

text \<open>The errors whose payload is the crate's own.\<close>

fun own_error :: "('lic, 'db, 'serde, 'other) core_error \<Rightarrow> bool" where
  "own_error (License _) = False"
| "own_error (Db _) = False"
| "own_error (Serde _) = False"
| "own_error (Internal _) = False"
| "own_error (Unsupported _ _) = False"
| "own_error _ = True"

text \<open>
  The text of an error tells which error it is: an error of the crate's own making prints like
  no other error, of its kind or of another one, however the resource of a quota is spelled and
  whatever the wrapped errors print.
\<close>

theorem error_text_identifies:
  assumes "own_error e" "show_error d e = show_error d e'"
  shows "e = e'"
  using assms by (cases e; cases e') (auto dest: quota_text_inj [simplified])

abbreviation plain_displays :: "(string, string, string, string) displays" where
  "plain_displays \<equiv> \<lparr>show_license = (\<lambda>e. e), show_db = (\<lambda>e. e), show_serde = (\<lambda>e. e), show_other = (\<lambda>e. e)\<rparr>"

theorem error_text_identifies_witness:
  "\<forall>e. show_error plain_displays e = ''quota exceeded: calls: current=7, max=5'' \<longleftrightarrow> e = QuotaExceeded ''calls'' 7 5"
proof -
  have "show_dec 7 = ''7''" "show_dec 5 = ''5''" by code_simp+
  then have "show_error plain_displays (QuotaExceeded ''calls'' 7 5) = ''quota exceeded: calls: current=7, max=5''"
    by simp
  then show ?thesis
    using error_text_identifies [of "QuotaExceeded ''calls'' 7 5" plain_displays] by (metis own_error.simps(11))
qed

end
