(* ===== verification/Provider.thy ===== *)
theory Provider imports Model Errors begin

text \<open>
  \<^verbatim>\<open>src/src/provider.rs\<close>: the discovery abstraction. The trait is the record of its methods, with
  the stream of \<^verbatim>\<open>watch\<close> as the list of the items it yields; its implementations are in other
  crates. Rust's \<^verbatim>\<open>InstanceEvent::Departed\<close> is \<^verbatim>\<open>InstanceDeparted\<close>, apart from the state.
\<close>

datatype departed_reason = GracefulShutdown | HeartbeatTimeout | OperatorRevoked | ProviderRemoved

fun departed_variant :: "departed_reason \<Rightarrow> string" where
  "departed_variant GracefulShutdown = ''GracefulShutdown''"
| "departed_variant HeartbeatTimeout = ''HeartbeatTimeout''"
| "departed_variant OperatorRevoked = ''OperatorRevoked''"
| "departed_variant ProviderRemoved = ''ProviderRemoved''"

definition all_departed_reasons :: "departed_reason list" where
  "all_departed_reasons = [GracefulShutdown, HeartbeatTimeout, OperatorRevoked, ProviderRemoved]"

datatype ('inst, 'org, 'ws, 'env) instance_event =
    Added "('inst, 'org, 'ws, 'env) gateway_instance"
  | Updated "('inst, 'org, 'ws, 'env) gateway_instance"
  | InstanceDeparted 'inst departed_reason

record addressable_endpoint =
  ae_scheme :: string
  ae_host :: string
  ae_port :: u16
  ae_path_prefix :: string

record ('ws, 'env) registration_claim =
  rc_workspace_id :: 'ws
  rc_environment_id :: 'env
  rc_instance_uid :: string
  rc_version :: string
  rc_labels :: "(string \<times> string) list"
  rc_capabilities :: "string list"
  rc_addressable_endpoints :: "addressable_endpoint list"
  rc_discovered_via :: provider_name

record ('lic, 'db, 'serde, 'other, 'inst, 'org, 'ws, 'env) instance_provider =
  ip_name :: string
  ip_list :: "'org \<Rightarrow> ('lic, 'db, 'serde, 'other, ('inst, 'org, 'ws, 'env) gateway_instance list) result"
  ip_watch :: "'org \<Rightarrow> ('lic, 'db, 'serde, 'other, ('inst, 'org, 'ws, 'env) instance_event) result list"
  ip_register :: "'org \<Rightarrow> ('ws, 'env) registration_claim \<Rightarrow>
    ('lic, 'db, 'serde, 'other, ('inst, 'org, 'ws, 'env) gateway_instance) result"
  ip_deregister :: "'org \<Rightarrow> 'inst \<Rightarrow> ('lic, 'db, 'serde, 'other, unit) result"

text \<open>The bodies the trait gives the optional operations.\<close>

definition default_register ::
  "'org \<Rightarrow> ('ws, 'env) registration_claim \<Rightarrow>
     ('lic, 'db, 'serde, 'other, ('inst, 'org, 'ws, 'env) gateway_instance) result" where
  "default_register org claim = Inl (Unsupported ''default'' ''register'')"

definition default_deregister :: "'org \<Rightarrow> 'inst \<Rightarrow> ('lic, 'db, 'serde, 'other, unit) result" where
  "default_deregister org inst = Inl (Unsupported ''default'' ''deregister'')"

definition is_live :: "instance_state \<Rightarrow> bool" where
  "is_live state = (case state of Online \<Rightarrow> True | Stale \<Rightarrow> True | _ \<Rightarrow> False)"

section \<open>Encoding and decoding\<close>

definition departed_wire :: "departed_reason \<Rightarrow> string" where
  "departed_wire r = snake_case (departed_variant r)"

text \<open>An enum with data is an object of one entry, under the name of its variant.\<close>

fun enc_event ::
  "'inst codec \<Rightarrow> 'org codec \<Rightarrow> 'ws codec \<Rightarrow> 'env codec \<Rightarrow> ('inst, 'org, 'ws, 'env) instance_event \<Rightarrow> json" where
  "enc_event ic oc wc ec (Added i) = JObject [(''Added'', enc_instance ic oc wc ec i)]"
| "enc_event ic oc wc ec (Updated i) = JObject [(''Updated'', enc_instance ic oc wc ec i)]"
| "enc_event ic oc wc ec (InstanceDeparted inst reason) = JObject
     [(''Departed'', JObject [(''id'', enc_of ic inst), (''reason'', enc_variant departed_wire reason)])]"

definition dec_departed :: "'inst codec \<Rightarrow> json \<Rightarrow> ('inst \<times> departed_reason) option" where
  "dec_departed ic v = do {
     is_struct v;
     id \<leftarrow> field ''id'' (dec_of ic) v;
     reason \<leftarrow> field ''reason'' (dec_variant departed_wire all_departed_reasons) v;
     Some (id, reason)
   }"

fun dec_event ::
  "'inst codec \<Rightarrow> 'org codec \<Rightarrow> 'ws codec \<Rightarrow> 'env codec \<Rightarrow> (string \<Rightarrow> string option) \<Rightarrow> json \<Rightarrow>
     ('inst, 'org, 'ws, 'env) instance_event option" where
  "dec_event ic oc wc ec read_time (JObject [(variant, v)]) =
     (if variant = ''Added'' then map_option Added (dec_instance ic oc wc ec read_time v)
      else if variant = ''Updated'' then map_option Updated (dec_instance ic oc wc ec read_time v)
      else if variant = ''Departed'' then map_option (case_prod InstanceDeparted) (dec_departed ic v)
      else None)"
| "dec_event ic oc wc ec read_time _ = None"

definition enc_endpoint :: "addressable_endpoint \<Rightarrow> json" where
  "enc_endpoint a = JObject
     [(''scheme'', JString (ae_scheme a)), (''host'', JString (ae_host a)),
      (''port'', enc_u64 (ucast (ae_port a))), (''path_prefix'', JString (ae_path_prefix a))]"

text \<open>A port is read from a number that fits its 16 bits.\<close>

definition dec_u16 :: "json \<Rightarrow> u16 option" where
  "dec_u16 v = Option.bind (dec_u64 v) (\<lambda>n. if uint n < 2 ^ 16 then Some (ucast n) else None)"

definition dec_endpoint :: "json \<Rightarrow> addressable_endpoint option" where
  "dec_endpoint v = do {
     v \<leftarrow> as_struct [(''scheme'', False), (''host'', False), (''port'', False),
       (''path_prefix'', False)] v;
     scheme \<leftarrow> field ''scheme'' dec_string v;
     host \<leftarrow> field ''host'' dec_string v;
     port \<leftarrow> field ''port'' dec_u16 v;
     path_prefix \<leftarrow> field ''path_prefix'' dec_string v;
     Some \<lparr>ae_scheme = scheme, ae_host = host, ae_port = port, ae_path_prefix = path_prefix\<rparr>
   }"

section \<open>The codecs keep the contract\<close>

interpretation departed_codec: variant_names departed_wire all_departed_reasons
proof
  show "r \<in> set all_departed_reasons" for r by (cases r) (simp_all add: all_departed_reasons_def)
  show "distinct (map departed_wire all_departed_reasons)" by code_simp
qed

interpretation u16_codec: wire_value "\<lambda>n :: u16. enc_u64 (ucast n)" dec_u16 "\<lambda>_. True"
proof
  show "dec_u16 (enc_u64 (ucast n)) = Some n" for n :: u16
    using uint_lt2p [of n] by (simp add: dec_u16_def u64_codec.roundtrip uint_up_ucast is_up ucast_up_ucast_id)
qed (simp add: enc_u64_def)

interpretation endpoint_codec: wire_value enc_endpoint dec_endpoint "\<lambda>_. True"
  by unfold_locales (simp_all add: enc_endpoint_def dec_endpoint_def codec_simps u16_codec.roundtrip)

fun ok_event :: "(string \<Rightarrow> string option) \<Rightarrow> ('inst, 'org, 'ws, 'env) instance_event \<Rightarrow> bool" where
  "ok_event read_time (Added i) = ok_instance read_time i"
| "ok_event read_time (Updated i) = ok_instance read_time i"
| "ok_event read_time (InstanceDeparted _ _) = True"

section \<open>Properties\<close>

text \<open>
  A discovery event survives the wire, and its variants are not confused: the event decoded is
  the event encoded, the reason of a departure included.
\<close>

theorem event_roundtrip:
  assumes "lawful_id ic" "lawful_id oc" "lawful_id wc" "lawful_id ec" "ok_event read_time e"
  shows "dec_event ic oc wc ec read_time (enc_event ic oc wc ec e) = Some e"
proof -
  have "dec_instance ic oc wc ec read_time (enc_instance ic oc wc ec i) = Some i" if "ok_instance read_time i" for i
    using wire_codec.roundtrip [OF wire_value.axioms(1), OF instance_codec] assms that by blast
  then show ?thesis
    using assms
    by (cases e) (simp_all add: dec_departed_def codec_simps lawful_id_roundtrip departed_codec.roundtrip)
qed

theorem event_roundtrip_witness:
  "dec_event uuid_text uuid_text uuid_text uuid_text Some
     (enc_event uuid_text uuid_text uuid_text uuid_text (Updated sample_instance)) =
   Some (Updated sample_instance)"
  by (rule event_roundtrip) (rule uuid_text_lawful | simp add: sample_instance_ok)+

end
