(* ===== verification/EnvAliases.thy ===== *)
theory EnvAliases imports Prelude "HOL-Library.AList" "HOL-Library.Monad_Syntax" begin

text \<open>
  \<^verbatim>\<open>src/src/env_aliases.rs\<close>: the long spelling of the control plane's environment variables. The
  environment is the list of its variables as \<^verbatim>\<open>vars_os\<close> yields them, names and values as bytes.
\<close>

type_synonym process_environment = "(string \<times> string) list"

text \<open>\<^verbatim>\<open>std::env::set_var\<close>: None where it panics.\<close>

definition set_var :: "string \<Rightarrow> string \<Rightarrow> process_environment \<Rightarrow> process_environment option" where
  "set_var k v env =
     (if k = [] \<or> CHR ''='' \<in> set k \<or> CHR 0x00 \<in> set k \<or> CHR 0x00 \<in> set v then None
      else Some (AList.update k v env))"

definition SHORT :: string where
  "SHORT = ''MCPG_CP_''"

definition LONG :: string where
  "LONG = ''MCPG_CONTROL_PLANE_''"

definition short_form :: "process_environment \<Rightarrow> string \<times> string \<Rightarrow> (string \<times> string) option" where
  "short_form env = (\<lambda>(key, v). do {
     (if valid_utf8 key then Some () else None);
     suffix \<leftarrow> strip_prefix LONG key;
     (if map_of env (SHORT @ suffix) \<noteq> None then None else Some (SHORT @ suffix, v))
   })"

fun set_all :: "(string \<times> string) list \<Rightarrow> process_environment \<Rightarrow> process_environment option" where
  "set_all [] env = Some env"
| "set_all ((short, v) # pending) env = Option.bind (set_var short v env) (set_all pending)"

definition mirror_long_to_short :: "process_environment \<Rightarrow> process_environment option" where
  "mirror_long_to_short env =
     (let pending = List.map_filter (short_form env) env in set_all pending env)"

text \<open>
  What the environment of a Unix process holds: each name once, an equals sign at most as its first
  character, no null byte.
\<close>

definition wf_environment :: "process_environment \<Rightarrow> bool" where
  "wf_environment env =
     (distinct (map fst env) \<and>
      list_all (\<lambda>(k, v). k \<noteq> [] \<and> CHR ''='' \<notin> set (tl k) \<and> CHR 0x00 \<notin> set k \<and> CHR 0x00 \<notin> set v) env)"

section \<open>The variables it sets\<close>

lemma option_eqI: "(\<And>v. x = Some v \<longleftrightarrow> y = Some v) \<Longrightarrow> x = y"
  by (cases x; cases y) auto

lemma short_form_Some:
  "short_form env (k, v) = Some (s, w) \<longleftrightarrow>
     w = v \<and> valid_utf8 k \<and> (\<exists>x. k = LONG @ x \<and> s = SHORT @ x) \<and> map_of env s = None"
  by (auto simp: short_form_def strip_prefix_Some_iff Option.bind_eq_Some_conv split: if_splits)

lemma set_all_Some:
  assumes "list_all (\<lambda>(k, v). k \<noteq> [] \<and> CHR ''='' \<notin> set k \<and> CHR 0x00 \<notin> set k \<and> CHR 0x00 \<notin> set v) ps"
    and "distinct (map fst ps)"
  shows "\<exists>env'. set_all ps env = Some env' \<and>
    (\<forall>k. map_of env' k = (case map_of ps k of Some v \<Rightarrow> Some v | None \<Rightarrow> map_of env k))"
  using assms
proof (induction ps arbitrary: env)
  case (Cons p ps)
  obtain s v where p: "p = (s, v)" by (cases p)
  from Cons.prems p obtain env' where env': "set_all ps (AList.update s v env) = Some env'"
    "\<And>k. map_of env' k = (case map_of ps k of Some w \<Rightarrow> Some w | None \<Rightarrow> map_of (AList.update s v env) k)"
    using Cons.IH [of "AList.update s v env"] by auto
  have "set_all (p # ps) env = Some env'"
    using Cons.prems p env'(1) by (simp add: set_var_def)
  moreover have "map_of ps s = None" using Cons.prems p by (simp add: map_of_eq_None_iff)
  ultimately show ?case using env'(2) p by (auto simp: update_conv' split: option.split)
qed simp

lemma map_filter_none: "(\<And>x. x \<in> set xs \<Longrightarrow> f x = None) \<Longrightarrow> List.map_filter f xs = []"
  by (induction xs) auto

lemma pending_names:
  assumes "wf_environment env"
  shows "distinct (map fst (List.map_filter (short_form env) env))"
proof -
  have "distinct (map fst (List.map_filter (short_form env) xs))" if "distinct (map fst xs)" for xs
    using that
  proof (induction xs)
    case (Cons p xs)
    obtain k v where p: "p = (k, v)" by (cases p)
    have "s \<notin> fst ` set (List.map_filter (short_form env) xs)" if "short_form env (k, v) = Some (s, w)" for s w
    proof
      assume "s \<in> fst ` set (List.map_filter (short_form env) xs)"
      then obtain k' v' w' where "(k', v') \<in> set xs" "short_form env (k', v') = Some (s, w')"
        by (auto simp: in_set_map_filter)
      with that have "k = k'" by (auto simp: short_form_Some)
      with Cons.prems p \<open>(k', v') \<in> set xs\<close> show False by force
    qed
    with Cons p show ?case by (auto split: option.split)
  qed simp
  then show ?thesis using assms by (simp add: wf_environment_def)
qed

lemma pending_lookup:
  assumes wf: "wf_environment env"
  shows "map_of (List.map_filter (short_form env) env) s = Some v \<longleftrightarrow>
    map_of env s = None \<and> (\<exists>x. s = SHORT @ x \<and> valid_utf8 (LONG @ x) \<and> map_of env (LONG @ x) = Some v)"
proof -
  have "distinct (map fst env)" using wf by (simp add: wf_environment_def)
  then show ?thesis
    using map_of_eq_Some_iff [OF pending_names [OF wf]] map_of_eq_Some_iff
    by (fastforce simp: in_set_map_filter short_form_Some)
qed

lemma pending_settable:
  assumes "wf_environment env"
  shows "list_all (\<lambda>(k, v). k \<noteq> [] \<and> CHR ''='' \<notin> set k \<and> CHR 0x00 \<notin> set k \<and> CHR 0x00 \<notin> set v)
    (List.map_filter (short_form env) env)"
  using assms
  by (fastforce simp: list_all_iff in_set_map_filter short_form_Some wf_environment_def SHORT_def LONG_def)

section \<open>Properties\<close>

text \<open>
  C39: Mirroring never panics in the environment of a process, and afterwards each variable has a
  known value: one that was set keeps its value, so the short form wins; a short form that was
  unset has the value of its long form, when the long name is text; any other one stays unset.
\<close>

theorem mirror_spec:
  assumes "wf_environment env"
  shows "\<exists>env'. mirror_long_to_short env = Some env' \<and>
    (\<forall>k. map_of env' k =
       (case map_of env k of
          Some v \<Rightarrow> Some v
        | None \<Rightarrow>
            (case strip_prefix SHORT k of
               Some x \<Rightarrow> if valid_utf8 (LONG @ x) then map_of env (LONG @ x) else None
             | None \<Rightarrow> None)))"
proof -
  let ?ps = "List.map_filter (short_form env) env"
  obtain env' where env': "mirror_long_to_short env = Some env'"
    "\<And>k. map_of env' k = (case map_of ?ps k of Some v \<Rightarrow> Some v | None \<Rightarrow> map_of env k)"
    using set_all_Some [OF pending_settable pending_names, OF assms assms]
    by (auto simp: mirror_long_to_short_def)
  have "map_of ?ps k = (case map_of env k of Some _ \<Rightarrow> None | None \<Rightarrow>
      (case strip_prefix SHORT k of
         Some x \<Rightarrow> if valid_utf8 (LONG @ x) then map_of env (LONG @ x) else None
       | None \<Rightarrow> None))" (is "_ = ?r k") for k
  proof -
    have "map_of ?ps k = Some v \<longleftrightarrow> ?r k = Some v" for v
      by (auto simp: pending_lookup [OF assms] strip_prefix_Some_iff split: option.split if_splits)
    then show ?thesis by (rule option_eqI)
  qed
  with env' show ?thesis by (auto split: option.split)
qed

lemma sample_utf8: "valid_utf8 ''MCPG_CONTROL_PLANE_DB''"
  by (simp add: byte_in_def)

lemma sample_environment: "wf_environment [(''MCPG_CONTROL_PLANE_DB'', ''x'')]"
  by (simp add: wf_environment_def)

theorem mirror_spec_witness:
  "\<exists>env'. mirror_long_to_short [(''MCPG_CONTROL_PLANE_DB'', ''x'')] = Some env' \<and> map_of env' ''MCPG_CP_DB'' = Some ''x''"
proof -
  from mirror_spec [OF sample_environment] obtain env' where
    env': "mirror_long_to_short [(''MCPG_CONTROL_PLANE_DB'', ''x'')] = Some env'"
    and "\<forall>k. map_of env' k = (case map_of [(''MCPG_CONTROL_PLANE_DB'', ''x'')] k of
          Some v \<Rightarrow> Some v
        | None \<Rightarrow> (case strip_prefix SHORT k of
             Some x \<Rightarrow> if valid_utf8 (LONG @ x) then map_of [(''MCPG_CONTROL_PLANE_DB'', ''x'')] (LONG @ x) else None
           | None \<Rightarrow> None))"
    by blast
  from this(2) [THEN spec, of "''MCPG_CP_DB''"] have "map_of env' ''MCPG_CP_DB'' = Some ''x''"
    using sample_utf8 by (simp add: strip_prefix_def SHORT_def LONG_def del: valid_utf8.simps)
  with env' show ?thesis by blast
qed

text \<open>
  Mirroring settles the environment: a second run sets nothing more. The variables it writes
  are short forms, so no long form and no unrelated variable changes.
\<close>

theorem mirror_idempotent:
  assumes "wf_environment env" "mirror_long_to_short env = Some env'"
  shows "List.map_filter (short_form env') env' = [] \<and> mirror_long_to_short env' = Some env' \<and>
    (\<forall>k. strip_prefix SHORT k = None \<longrightarrow> map_of env' k = map_of env k)"
proof -
  note spec = set_all_Some [OF pending_settable pending_names, OF assms(1) assms(1), of env]
  have lookup: "map_of env' k = (case map_of (List.map_filter (short_form env) env) k of
      Some v \<Rightarrow> Some v | None \<Rightarrow> map_of env k)" for k
    using spec assms(2) by (auto simp: mirror_long_to_short_def)
  have other: "map_of env' k = map_of env k" if "strip_prefix SHORT k = None" for k
    using that lookup [of k] pending_lookup [OF assms(1), of k]
    by (auto split: option.splits)
  have "short_form env' (k, v) = None" if "(k, v) \<in> set env'" for k v
  proof (rule ccontr)
    assume "short_form env' (k, v) \<noteq> None"
    then obtain x where x: "k = LONG @ x" "valid_utf8 k" "map_of env' (SHORT @ x) = None"
      by (auto simp: short_form_Some)
    have "strip_prefix SHORT k = None" by (simp add: x SHORT_def LONG_def strip_prefix_def)
    then have "map_of env k = map_of env' k" by (simp add: other)
    moreover have "map_of env' k \<noteq> None" using that by (auto simp: map_of_eq_None_iff intro: rev_image_eqI)
    ultimately obtain w where "map_of env k = Some w" by auto
    with x lookup [of "SHORT @ x"] pending_lookup [OF assms(1), of "SHORT @ x" w] show False
      by (auto split: option.splits)
  qed
  then have "List.map_filter (short_form env') env' = []"
    by (intro map_filter_none) auto
  with other show ?thesis by (auto simp: mirror_long_to_short_def)
qed

theorem mirror_idempotent_witness:
  "mirror_long_to_short [(''MCPG_CONTROL_PLANE_DB'', ''x''), (''MCPG_CP_DB'', ''x'')] =
     Some [(''MCPG_CONTROL_PLANE_DB'', ''x''), (''MCPG_CP_DB'', ''x'')]"
proof -
  have "mirror_long_to_short [(''MCPG_CONTROL_PLANE_DB'', ''x'')] =
      Some [(''MCPG_CONTROL_PLANE_DB'', ''x''), (''MCPG_CP_DB'', ''x'')]"
    using sample_utf8
    by (simp add: mirror_long_to_short_def short_form_def strip_prefix_def set_var_def SHORT_def LONG_def
        del: valid_utf8.simps)
  from mirror_idempotent [OF sample_environment this] show ?thesis by blast
qed

end
