(* ===== verification/TlsInit.thy ===== *)
theory TlsInit imports Main begin

text \<open>
  \<^verbatim>\<open>src/src/tls_init.rs\<close>: the installation of the process's TLS provider. What rustls holds is
  library state, a parameter \<^verbatim>\<open>'w\<close> with its operation \<^verbatim>\<open>install_default\<close>, which may fail; the
  \<^verbatim>\<open>Once\<close> of the code is a flag, set when its closure has returned.
\<close>

record 'w process =
  init_done :: bool
  rustls_state :: 'w

definition install_default_crypto_provider :: "('w \<Rightarrow> bool \<times> 'w) \<Rightarrow> 'w process \<Rightarrow> 'w process" where
  "install_default_crypto_provider install_default s =
     (if init_done s then s
      else s\<lparr>init_done := True, rustls_state := snd (install_default (rustls_state s))\<rparr>)"

text \<open>However often it is called, rustls is asked once, and whether it succeeds does not matter.\<close>

lemma installs_once:
  "(install_default_crypto_provider install_default ^^ Suc n) s = install_default_crypto_provider install_default s"
  by (induction n) (simp_all add: install_default_crypto_provider_def)

text \<open>rustls documents that a provider that is installed stays: then the first to come wins.\<close>

lemma installed_stays:
  assumes "\<And>w p. provider w = Some p \<Longrightarrow> provider (snd (install_default w)) = Some p"
    and "provider (rustls_state s) = Some p"
  shows "provider (rustls_state ((install_default_crypto_provider install_default ^^ n) s)) = Some p"
  using assms by (induction n) (simp_all add: install_default_crypto_provider_def)

end
