(* ===== verification/Migrations.thy ===== *)
theory Migrations
  imports Model
begin

text \<open>
  \<^verbatim>\<open>src/src/migrations.rs\<close>: the schema migrations. A migrator is the list of the SQL texts \<^verbatim>\<open>sqlx\<close> embeds,
  in order, and an argument here; what the crate says of it is its test, that the newest check on the
  status of an org allows every status the control plane writes. The three migrations of
  \<^verbatim>\<open>migrations/postgres\<close> that alter \<^verbatim>\<open>orgs\<close> are quoted; the SQL is read as the test reads it.
\<close>

section \<open>Reading a migration\<close>

definition line_feed :: string where
  "line_feed = [CHR 0x0A]"

text \<open>\<^verbatim>\<open>s.lines()\<close>: without the line ends, and no last line when the text ends with one.\<close>

definition without_cr :: "string \<Rightarrow> string" where
  "without_cr l = (case strip_suffix [CHR 0x0D] l of Some l' \<Rightarrow> l' | None \<Rightarrow> l)"

definition lines_of :: "string \<Rightarrow> string list" where
  "lines_of s =
     (let ls = split_on CHR 0x0A s in
      map without_cr (butlast ls) @ (if last ls = [] then [] else [last ls]))"

text \<open>\<^verbatim>\<open>s.split_whitespace()\<close>: the word that is read so far, and the rest of the text.\<close>

function words_from :: "string \<Rightarrow> string \<Rightarrow> string list" where
  "words_from word s =
     (case s of
        [] \<Rightarrow> (if word = [] then [] else [word])
      | c # s' \<Rightarrow>
          (case ws_at_start s of
             Some w \<Rightarrow> (if word = [] then [] else [word]) @ words_from [] (drop (length w) s)
           | None \<Rightarrow> words_from (word @ [c]) s'))"
  by pat_completeness auto
termination
  by (relation "measure (\<lambda>(word, s). length s)") (auto dest!: ws_at_start_SomeD simp: prefix_def)

declare words_from.simps [simp del]

definition split_whitespace :: "string \<Rightarrow> string list" where
  "split_whitespace s = words_from [] s"

text \<open>The statements of a migration: no comment lines, and one space between words.\<close>

definition statements :: "string \<Rightarrow> string list" where
  "statements sql =
     (let code = filter (\<lambda>line. \<not> prefix ''--'' (trim_start line)) (lines_of sql) in
      map (\<lambda>stmt. join_with '' '' (split_whitespace stmt)) (split_on CHR '';'' (join_with line_feed code)))"

definition puts_status_check :: "string \<Rightarrow> bool" where
  "puts_status_check stmt = (prefix ''ALTER TABLE orgs'' stmt \<and> contains_str ''CHECK (status IN'' stmt)"

text \<open>The newest statement that sets the check; None where the test panics.\<close>

definition status_check :: "string list \<Rightarrow> string option" where
  "status_check migrator = find puts_status_check (rev (concat (map statements migrator)))"

definition the_postgres_org_status_check_allows_every_org_status :: "string list \<Rightarrow> bool" where
  "the_postgres_org_status_check_allows_every_org_status migrator =
     (case status_check migrator of
        None \<Rightarrow> False
      | Some check \<Rightarrow>
          list_all (\<lambda>status. contains_str ([CHR 0x27] @ status @ [CHR 0x27]) check)
            [ORG_STATUS_ACTIVE, ORG_STATUS_SUSPENDED, ORG_STATUS_DECOMMISSIONING])"

section \<open>The migrations of the orgs table\<close>

definition org_status_sql :: string where
  "org_status_sql = concat (map (\<lambda>line. line @ line_feed)
     [''-- Org lifecycle status, for suspending a delinquent / non-paying tenant'',
      ''-- WITHOUT deleting it. '' @ quoted ''active'' @ '' (default) tenants behave as before;'',
      ''-- '' @ quoted ''suspended'' @ '' tenants are blocked from creating/modifying gateways'',
      ''-- (publish) but remain fully readable (UI / audit / admin recovery).'',
      ''-- Hard deletion stays separate (the '' @ quoted ''deleted_at'' @ '' soft-delete column).'',
      ''ALTER TABLE orgs'',
      ''    ADD COLUMN status TEXT NOT NULL DEFAULT '' @ [CHR 0x27] @ ''active'' @ [CHR 0x27],
      ''        CHECK (status IN ('' @ [CHR 0x27] @ ''active'' @ [CHR 0x27] @ '', '' @ [CHR 0x27]
        @ ''suspended'' @ [CHR 0x27] @ ''));'',
      [],
      ''-- Suspension is checked on the publish hot path; index the lookup.'',
      ''CREATE INDEX IF NOT EXISTS orgs_status_idx ON orgs (status);''])"

definition orgs_live_slug_sql :: string where
  "orgs_live_slug_sql = concat (map (\<lambda>line. line @ line_feed)
     [''-- Org slug uniqueness must span LIVE rows only. The inline UNIQUE from init'',
      ''-- covered soft-deleted rows too, so decommissioning an org left its slug'',
      ''-- permanently occupied and re-signup with the same name failed forever.'',
      ''-- Same shape as '' @ quoted ''instance_slugs_live_slug_idx'' @ '': a partial unique index keeps'',
      ''-- the fail-closed arbiter for live tenants (two live orgs can never share a'',
      ''-- slug) while a soft-deleted row no longer blocks a new live one. Reads'',
      ''-- already exclude deleted rows ('' @ quoted ''WHERE deleted_at IS NULL'' @ '').'',
      ''ALTER TABLE orgs DROP CONSTRAINT orgs_slug_key;'',
      ''CREATE UNIQUE INDEX orgs_live_slug_idx ON orgs (slug) WHERE deleted_at IS NULL;''])"

definition org_status_decommissioning_sql :: string where
  "org_status_decommissioning_sql = concat (map (\<lambda>line. line @ line_feed)
     [''-- '' @ quoted ''decommissioning'' @ '': an org the delete handler has handed to the'',
      ''-- decommission reconciler, until the reconciler finalises it with the'',
      ''-- '' @ quoted ''deleted_at'' @ '' soft-delete. The status check allows it next to '' @ quoted ''active'' @ '' and'',
      ''-- '' @ quoted ''suspended'' @ ''.'',
      ''ALTER TABLE orgs DROP CONSTRAINT IF EXISTS orgs_status_check;'',
      ''ALTER TABLE orgs ADD CONSTRAINT orgs_status_check'',
      ''    CHECK (status IN ('' @ [CHR 0x27] @ ''active'' @ [CHR 0x27] @ '', '' @ [CHR 0x27] @ ''suspended''
        @ [CHR 0x27] @ '', '' @ [CHR 0x27] @ ''decommissioning'' @ [CHR 0x27] @ ''));''])"

section \<open>The check on the status of an org\<close>

lemma find_append: "find P (xs @ ys) = (case find P xs of Some x \<Rightarrow> Some x | None \<Rightarrow> find P ys)"
  by (induction xs) simp_all

lemma status_check_append:
  "status_check (ms @ ms') = (case status_check ms' of Some check \<Rightarrow> Some check | None \<Rightarrow> status_check ms)"
  by (simp add: status_check_def find_append cong del: option.case_cong_weak)

lemma org_status_checks:
  "status_check [org_status_sql] = Some (''ALTER TABLE orgs ADD COLUMN status TEXT NOT NULL DEFAULT ''
     @ [CHR 0x27] @ ''active'' @ [CHR 0x27] @ '' CHECK (status IN ('' @ [CHR 0x27] @ ''active'' @ [CHR 0x27]
     @ '', '' @ [CHR 0x27] @ ''suspended'' @ [CHR 0x27] @ ''))'')"
  "status_check [orgs_live_slug_sql] = None"
  "status_check [org_status_decommissioning_sql] = Some (''ALTER TABLE orgs ADD CONSTRAINT orgs_status_check ''
     @ ''CHECK (status IN ('' @ [CHR 0x27] @ ''active'' @ [CHR 0x27] @ '', '' @ [CHR 0x27] @ ''suspended''
     @ [CHR 0x27] @ '', '' @ [CHR 0x27] @ ''decommissioning'' @ [CHR 0x27] @ ''))'')"
  by code_simp+

text \<open>
  Every status the control plane writes is allowed once the last migration of the status has
  run, whatever ran before it and whatever runs after it that sets no check; before it, the status of an org
  that is being decommissioned was refused.
\<close>

theorem org_statuses_allowed:
  assumes "status_check later = None" "status_check earlier = None"
  shows "the_postgres_org_status_check_allows_every_org_status (ms @ org_status_decommissioning_sql # later)"
    and "\<not> the_postgres_org_status_check_allows_every_org_status (ms @ org_status_sql # earlier)"
proof -
  have newest: "status_check (ms @ m # ms') = status_check [m]"
    if "status_check ms' = None" "status_check [m] \<noteq> None" for m ms'
    using that status_check_append [of ms "m # ms'"] status_check_append [of "[m]" ms']
    by (auto split: option.splits)
  have "the_postgres_org_status_check_allows_every_org_status [org_status_decommissioning_sql]"
    "\<not> the_postgres_org_status_check_allows_every_org_status [org_status_sql]"
    by code_simp+
  with newest [OF assms(1), of org_status_decommissioning_sql] newest [OF assms(2), of org_status_sql] org_status_checks
  show "the_postgres_org_status_check_allows_every_org_status (ms @ org_status_decommissioning_sql # later)"
    and "\<not> the_postgres_org_status_check_allows_every_org_status (ms @ org_status_sql # earlier)"
    by (simp_all add: the_postgres_org_status_check_allows_every_org_status_def)
qed

theorem org_statuses_allowed_witness:
  "the_postgres_org_status_check_allows_every_org_status
     [org_status_sql, orgs_live_slug_sql, org_status_decommissioning_sql]"
  "\<not> the_postgres_org_status_check_allows_every_org_status [org_status_sql, orgs_live_slug_sql]"
  using org_statuses_allowed [of "[]" "[orgs_live_slug_sql]" "[org_status_sql, orgs_live_slug_sql]"]
    org_statuses_allowed [of "[]" "[orgs_live_slug_sql]" "[]"] org_status_checks(2)
  by (simp_all add: status_check_def)

end
