(* ===== verification/BuildScript.thy ===== *)
theory BuildScript
  imports Prelude "HOL-Library.AList"
begin

text \<open>
  \<^verbatim>\<open>src/build.rs\<close>: the build script, which compiles the gRPC contract. The vendored \<^verbatim>\<open>protoc\<close> and the
  compiler are library code: where they are found (None where the call fails), and what a
  compilation in an environment comes to, are arguments.
\<close>

record compilation =
  build_client :: bool
  build_server :: bool
  protos :: "string list"
  includes_of :: "string list"

definition proto_files :: "string list" where
  "proto_files = [''proto/mcpg/cp/v1/agent.proto'']"

text \<open>What it prints, the environment it leaves and the result; None where it panics.\<close>

definition build_main ::
    "string option \<Rightarrow> string option \<Rightarrow> ((string \<times> string) list \<Rightarrow> compilation \<Rightarrow> string + unit) \<Rightarrow>
       (string \<times> string) list \<Rightarrow> (string list \<times> (string \<times> string) list \<times> (string + unit)) option" where
  "build_main protoc_bin_path include_path compile env =
     (let printed = map (\<lambda>f. ''cargo:rerun-if-changed='' @ f) proto_files @ [''cargo:rerun-if-env-changed=PROTOC''];
          run = (\<lambda>env includes. Some (printed, env, compile env
            \<lparr>build_client = True, build_server = True, protos = proto_files, includes_of = includes\<rparr>))
      in if map_of env ''PROTOC'' = None
         then (case protoc_bin_path of
                 None \<Rightarrow> None
               | Some protoc \<Rightarrow>
                   (case include_path of
                      None \<Rightarrow> None
                    | Some wkt_include \<Rightarrow> run (AList.update ''PROTOC'' protoc env) [''proto'', wkt_include]))
         else run env [''proto''])"

text \<open>
  A \<^verbatim>\<open>protoc\<close> from outside wins: the script keeps it, needs no vendored one and adds no include
  path; without one it sets the vendored one for the compiler, with the includes beside it, and
  changes no other variable. It panics exactly when there is neither.
\<close>

theorem build_protoc:
  "(build_main bin inc compile env = None \<longleftrightarrow> map_of env ''PROTOC'' = None \<and> (bin = None \<or> inc = None)) \<and>
   (case build_main bin inc compile env of
      None \<Rightarrow> True
    | Some (printed, env', result) \<Rightarrow>
        map_of env' = (case map_of env ''PROTOC'' of
            Some _ \<Rightarrow> map_of env | None \<Rightarrow> (map_of env)(''PROTOC'' := bin)) \<and>
        result = compile env' \<lparr>build_client = True, build_server = True, protos = proto_files,
          includes_of = ''proto'' # (if map_of env ''PROTOC'' = None then [the inc] else [])\<rparr>)"
  by (cases "map_of env ''PROTOC''"; cases bin; cases inc)
    (simp_all add: build_main_def Let_def update_conv')

end
