(* ===== verification/GuardTests.thy ===== *)
theory GuardTests imports GuardReport begin

text \<open>
  The unit tests of \<^verbatim>\<open>src/src/publish_guard.rs\<close> that need no license, translated and evaluated on the
  model, one definition per test under its name. A document of a test stands as the value its text
  parses to: as YAML, or as TOML where the test writes TOML.
\<close>

section \<open>What the tests are written with\<close>

definition expect_err :: "'e + 'a \<Rightarrow> ('e \<Rightarrow> bool) \<Rightarrow> bool" where
  "expect_err result P = (case result of Inl e \<Rightarrow> P e | Inr _ \<Rightarrow> False)"

definition guarded_with :: "json \<Rightarrow> string set \<Rightarrow> publish_guard_error + unit" where
  "guarded_with cfg keys = check_published_config_with_secret_keys (\<lambda>_. Some cfg) (\<lambda>_. None) [] keys"

definition guarded :: "json \<Rightarrow> publish_guard_error + unit" where
  "guarded cfg = check_published_config (\<lambda>_. Some cfg) (\<lambda>_. None) []"

definition guarded_toml :: "json \<Rightarrow> publish_guard_error + unit" where
  "guarded_toml cfg = check_published_config (\<lambda>_. None) (\<lambda>_. Some cfg) []"

definition cloud_auth :: "json \<Rightarrow> cloud_auth_error + unit" where
  "cloud_auth cfg = require_cloud_auth (\<lambda>_. Some cfg) (\<lambda>_. None) []"

definition cloud_auth_toml :: "json \<Rightarrow> cloud_auth_error + unit" where
  "cloud_auth_toml cfg = require_cloud_auth (\<lambda>_. None) (\<lambda>_. Some cfg) []"

definition found :: "publish_guard_error \<Rightarrow> (string \<times> string) list" where
  "found err = sort (map (\<lambda>v. (kind v, snippet v)) (violations err))"

definition first_kind :: "publish_guard_error \<Rightarrow> string" where
  "first_kind err = kind (hd (violations err))"

definition has_kind :: "publish_guard_error \<Rightarrow> string \<Rightarrow> bool" where
  "has_kind err k = list_ex (\<lambda>v. kind v = k) (violations err)"

section \<open>Secrets and environment\<close>

definition secret_ref_config :: "string \<Rightarrow> json" where
  "secret_ref_config name =
     (JObject [(''mcp'', JObject [(''capabilities'', JObject [(''tools'', JArray [JObject
      [(''backend'', JObject [(''headers'', JObject [(''authorization'', JString
      (''Bearer ${secret.'' @ name @ ''}''))]), (''kind'', JString ''http'')]), (''name'', JString
      ''t'')]])])])])"

definition a_registered_secret_key_is_admitted_and_an_unregistered_one_is_refused :: bool where
  "a_registered_secret_key_is_admitted_and_an_unregistered_one_is_refused =
     (guarded_with (secret_ref_config ''API_TOKEN'') {''API_TOKEN''} = Inr () \<and>
      guarded_with (secret_ref_config ''OTHER'') {''API_TOKEN''} =
        Inl \<lparr>violations = [\<lparr>kind = ''unregistered_secret'', snippet = ''${secret.OTHER}''\<rparr>]\<rparr> \<and>
      expect_err (guarded_with (secret_ref_config ''api_token'') {''API_TOKEN''})
        (\<lambda>err. first_kind err = ''unregistered_secret'') \<and>
      expect_err (guarded_with (secret_ref_config '' API_TOKEN'') {'' API_TOKEN''})
        (\<lambda>err. first_kind err = ''unregistered_secret'') \<and>
      expect_err (guarded (secret_ref_config ''API_TOKEN''))
        (\<lambda>err. first_kind err = ''unregistered_secret'') \<and>
      (let mixed =
             (JObject [(''mcp'', JObject [(''capabilities'', JObject [(''tools'', JArray [JObject
              [(''backend'', JObject [(''ca'', JString ''file:///etc/x''), (''headers'', JObject
              [(''authorization'', JString ''Bearer ${secret.API_TOKEN}'')]), (''kind'', JString
              ''http''), (''token'', JString ''${secret.A}:${secret.B}'')]), (''name'', JString
              ''t'')]])])])])
       in expect_err (guarded_with mixed {''API_TOKEN'', ''B''})
            (\<lambda>err. found err = [(''host_secret_uri'', ''file:///etc/x''),
                             (''unregistered_secret'', ''${secret.A}'')])))"

definition env_interpolation_is_refused_even_for_a_registered_key :: bool where
  "env_interpolation_is_refused_even_for_a_registered_key =
     (let cfg = (\<lambda>name.
            (JObject [(''mcp'', JObject [(''capabilities'', JObject [(''tools'', JArray [JObject
             [(''backend'', JObject [(''headers'', JObject [(''authorization'', JString
             (''Bearer ${env.'' @ name @ ''}''))]), (''kind'', JString ''http'')]), (''name'',
             JString ''t'')]])])])]))
      in list_all (\<lambda>name. expect_err (guarded_with (cfg name) {name})
           (\<lambda>err. first_kind err = ''host_env_interpolation'' \<and>
             snippet (hd (violations err)) = ''${env.'' @ name @ ''}''))
           [''TENANT_X'', ''API_TOKEN'', ''MCPG_CP_ENROLLMENT_URL'', ''PATH''])"

definition secret_key_grammar :: bool where
  "secret_key_grammar =
     (list_all is_secret_key [''A'', ''_'', ''API_TOKEN'', ''api_token'', ''TENANT_S3_SECRET_KEY'',
        ''camelCase9'', ''_leading'', ''a1'', replicate SECRET_KEY_MAX_LEN CHR ''A''] \<and>
      list_all (\<lambda>bad. \<not> is_secret_key bad) [[], ''1A'', ''9'', ''A-B'', ''A B'', '' A'', ''A '', ''A.B'', ''A/B'',
        ''../A'', [CHR 0xC3, CHR 0x84], ''A'' @ [CHR 0x0A], replicate (SECRET_KEY_MAX_LEN + 1) CHR ''A''])"

definition secrets_digest_recipe :: "(string \<Rightarrow> string) \<Rightarrow> (string \<Rightarrow> string) \<Rightarrow> bool" where
  "secrets_digest_recipe sha256 hex_encode =
     (secrets_digest sha256 hex_encode [] = [] \<and>
      (let expected = hex_encode (sha256 (''API_TOKEN=t0k'' @ [CHR 0x0A] @ ''SIGNING_KEY=k3y'' @ [CHR 0x0A]))
       in secrets_digest sha256 hex_encode [(''SIGNING_KEY'', ''k3y''), (''API_TOKEN'', ''t0k'')] = expected \<and>
          secrets_digest sha256 hex_encode [(''API_TOKEN'', ''t0k''), (''SIGNING_KEY'', ''k3y'')] = expected \<and>
          secrets_digest sha256 hex_encode [(''API_TOKEN'', ''t0k''), (''SIGNING_KEY'', ''k3y!'')] \<noteq> expected \<and>
          secrets_digest sha256 hex_encode [(''API_TOKEN'', ''t0k'')] \<noteq> expected))"

definition allows_a_clean_config :: bool where
  "allows_a_clean_config =
     (guarded
        (JObject [(''gateway'', JObject [(''server'', JObject [(''bind_address'', JString
         ''0.0.0.0:8787'')])]), (''governance'', JObject [(''access'', JObject
         [(''resource_metadata'', JObject [(''resource'', JString
         ''https://edge-1.mcpg.cloud/mcp'')])])])]) = Inr ())"

definition rejects_bare_and_legacy_env_interpolation :: bool where
  "rejects_bare_and_legacy_env_interpolation =
     (expect_err (guarded (JObject [(''url'', JString ''${env.DATABASE_URL}'')])) (\<lambda>err. length (violations err) = 1 \<and> first_kind err = ''host_env_interpolation'') \<and>
      expect_err (guarded (JObject [(''token'', JString ''${env.MCPG_BOOTSTRAP}'')])) (\<lambda>err. first_kind err = ''host_env_interpolation'' \<and>
          contains_str ''host_env_interpolation'' (show_guard_error err)))"

definition reports_every_env_violation_at_once :: bool where
  "reports_every_env_violation_at_once =
     expect_err (guarded
       (JObject [(''a'', JString ''${env.A}''), (''b'', JString ''${env.B}''), (''c'', JString
        ''${env.C}'')])) (\<lambda>err. length (violations err) = 3)"

definition allows_well_formed_cred_token :: bool where
  "allows_well_formed_cred_token =
     (guarded (JObject [(''url'', JString ''postgres://app:${cred://vault/pw}@db/orders'')]) = Inr ())"

definition rejects_malformed_cred_token :: bool where
  "rejects_malformed_cred_token =
     expect_err (guarded (JObject [(''x'', JString ''${cred://vault}'')])) (\<lambda>err. first_kind err = ''malformed_cred_token'')"

definition rejects_host_secret_provider_uris :: bool where
  "rejects_host_secret_provider_uris =
     list_all (\<lambda>cfg. expect_err (guarded cfg) (\<lambda>err. has_kind err ''host_secret_uri''))
       [(JObject [(''secret'', JString ''env://AWS_SECRET_ACCESS_KEY'')]),
        (JObject [(''ca'', JString ''file:///var/run/secrets/token'')])]"

definition allows_external_secret_schemes :: bool where
  "allows_external_secret_schemes =
     (guarded (JObject [(''a'', JString ''vault://kv/data/db''), (''b'', JString
               ''aws-sm://prod/db-password'')]) = Inr ())"

definition allows_forbidden_token_in_a_comment :: bool where
  "allows_forbidden_token_in_a_comment =
     (guarded (JObject [(''gateway'', JObject [(''server'', JObject [(''bind_address'', JString
               ''0.0.0.0:8787'')])])]) = Inr ())"

definition allows_forbidden_token_in_a_key :: bool where
  "allows_forbidden_token_in_a_key =
     (guarded (JObject [(''annotations'', JObject [(''note-about-${env.X}-and-file://y'', JString
               ''harmless value'')])]) = Inr ())"

definition still_rejects_forbidden_token_in_a_value :: bool where
  "still_rejects_forbidden_token_in_a_value =
     expect_err (guarded (JObject [(''url'', JString ''${env.DATABASE_URL}'')])) (\<lambda>err. first_kind err = ''host_env_interpolation'')"

definition check_published_config_fails_closed_on_unparseable :: bool where
  "check_published_config_fails_closed_on_unparseable =
     expect_err (guarded (JString ''just a bare scalar, not an object''))
       (\<lambda>err. first_kind err = ''unparseable_config'')"

section \<open>The authentication gate\<close>

definition cloud_auth_allows_jwks_verifier :: bool where
  "cloud_auth_allows_jwks_verifier =
     (cloud_auth (JObject [(''governance'', JObject [(''access'', JObject [(''jwks'', JObject
                  [(''audience'', JString ''mcpg-acme''), (''url'', JString
                  ''https://idp.acme.com/.well-known/jwks.json'')])])])]) = Inr ())"

definition cloud_auth_allows_oidc_verifier :: bool where
  "cloud_auth_allows_oidc_verifier =
     (cloud_auth (JObject [(''governance'', JObject [(''access'', JObject [(''oidc_oauth'', JObject
                  [(''providers'', JArray [JObject [(''client_id'', JString ''gw''), (''issuer'',
                  JString ''https://idp.acme.com/'')]])])])])]) = Inr ())"

definition cloud_auth_allows_embedded_authorization_server :: bool where
  "cloud_auth_allows_embedded_authorization_server =
     (cloud_auth
        (JObject [(''governance'', JObject [(''access'', JObject [(''authorization_server'',
         JObject [(''clients'', JArray [JObject [(''client_id'', JString ''mcp-client''),
         (''client_secret'', JString ''${secret.MCP_CLIENT_SECRET}'')]]), (''issuer'', JString
         ''https://edge-1.mcpg.cloud''), (''signing_secret'', JString
         ''${secret.EMA_SIGNING_SECRET}''), (''trusted_idps'', JArray [JObject [(''issuer'',
         JString ''https://acme.okta.com'')]])]), (''resource_metadata'', JObject [(''resource'',
         JString ''https://edge-1.mcpg.cloud/mcp'')])])])]) = Inr () \<and>
      cloud_auth_toml
        (JObject [(''governance'', JObject [(''access'', JObject [(''authorization_server'',
         JObject [(''issuer'', JString ''https://edge-1.mcpg.cloud''), (''signing_secret'', JString
         ''${secret.EMA_SIGNING_SECRET}'')])])])]) = Inr ())"

definition cloud_auth_treats_an_absent_or_null_authorization_server_as_no_verifier :: bool where
  "cloud_auth_treats_an_absent_or_null_authorization_server_as_no_verifier =
     list_all (\<lambda>cfg. cloud_auth cfg = Inl NoVerifier)
       [(JObject [(''governance'', JObject [(''access'', JObject [])])]),
        (JObject [(''governance'', JObject [(''access'', JObject [(''authorization_server'',
         JNull)])])]),
        (JObject [(''governance'', JObject [(''access'', JObject [(''authorization_server'',
         JString ''https://edge-1.mcpg.cloud'')])])])]"

definition cloud_auth_error_names_every_verifier :: bool where
  "cloud_auth_error_names_every_verifier =
     (let msg = show_cloud_auth_error NoVerifier
      in list_all (\<lambda>key. contains_str (''governance.access.'' @ key) msg) VERIFIER_KEYS \<and>
         contains_str ''cloud.allow_anonymous: true'' msg)"

definition cloud_auth_rejects_unauthenticated_config :: bool where
  "cloud_auth_rejects_unauthenticated_config =
     (cloud_auth (JObject [(''gateway'', JObject [(''server'', JObject [(''bind_address'', JString
                  ''0.0.0.0:8787'')])])]) = Inl NoVerifier \<and>
      cloud_auth (JObject [(''governance'', JObject [(''access'', JObject [(''resource_metadata'',
                  JObject [(''resource'', JString ''https://x.mcpg.cloud/mcp'')])])])]) = Inl NoVerifier)"

definition cloud_auth_honors_explicit_opt_out :: bool where
  "cloud_auth_honors_explicit_opt_out =
     (cloud_auth (JObject [(''cloud'', JObject [(''allow_anonymous'', JBool True)]), (''gateway'',
                  JObject [(''server'', JObject [(''bind_address'', JString ''0.0.0.0:8787'')])])]) = Inr () \<and>
      cloud_auth (JObject [(''cloud'', JObject [(''allow_anonymous'', JBool False)])]) = Inl NoVerifier)"

definition cloud_auth_parses_toml_publishes :: bool where
  "cloud_auth_parses_toml_publishes =
     (cloud_auth_toml (JObject [(''governance'', JObject [(''access'', JObject [(''jwks'', JObject
                       [(''audience'', JString ''mcpg-acme''), (''url'', JString
                       ''https://idp.acme.com/.well-known/jwks.json'')])])])]) = Inr () \<and>
      cloud_auth_toml (JObject [(''gateway'', JObject [(''server'', JObject [(''bind_address'',
                       JString ''0.0.0.0:8787'')])])]) = Inl NoVerifier)"

definition cloud_auth_fails_closed_on_unparseable :: bool where
  "cloud_auth_fails_closed_on_unparseable = (cloud_auth (JString ''just a string'') = Inl Unparseable)"

definition cloud_auth_treats_null_jwks_as_no_verifier :: bool where
  "cloud_auth_treats_null_jwks_as_no_verifier =
     (cloud_auth (JObject [(''governance'', JObject [(''access'', JObject [(''jwks'', JNull)])])]) = Inl NoVerifier)"

section \<open>Managed blocks\<close>

definition refuses_the_events_settings_a_managed_gateway_must_not_run :: bool where
  "refuses_the_events_settings_a_managed_gateway_must_not_run =
     (expect_err (guarded
        (JObject [(''mcp'', JObject [(''capabilities'', JObject [(''events'', JArray [JObject
         [(''name'', JString ''orders.created''), (''source'', JObject [(''inbound'', JObject
         [(''allow_unsigned'', JBool True), (''source_id'', JString ''orders'')])])]])]),
         (''configurations'', JObject [(''events'', JObject [(''enabled'', JBool True), (''poll'',
         JObject [(''require_trust'', JString ''header_asserted'')]), (''push'', JObject
         [(''require_trust'', JString ''header_asserted'')]), (''webhook'', JObject [(''egress'',
         JObject [(''allowed_ports'', JArray [JNumber (PosInt 443), JNumber (PosInt 8443)])]),
         (''require_trust'', JString ''header_asserted''), (''ttl'', JObject [(''allow_no_expiry'',
         JBool True)]), (''verification'', JObject [(''allowlist'', JArray [JString
         ''hooks.example.com'']), (''modes'', JArray [JString ''challenge'', JString ''allowlist'',
         JString ''well_known''])])])])])])]))
        (\<lambda>err. map fst (found err) =
             [''events_callback_ports'', ''events_no_expiry'', ''events_trust_floor'',
              ''events_trust_floor'', ''events_trust_floor'', ''events_unsigned_inbound'',
              ''events_verification_mode'', ''events_verification_mode''] \<and>
           list_ex (\<lambda>(_, s). contains_str (''events['' @ quoted ''orders.created'' @ '']'') s) (found err) \<and>
           list_all (\<lambda>mode. list_ex (\<lambda>(_, s). contains_str (''events.'' @ mode @ ''.require_trust'') s) (found err))
             [''webhook'', ''poll'', ''push'']) \<and>
      guarded_with
        (JObject [(''mcp'', JObject [(''capabilities'', JObject [(''events'', JArray [JObject
         [(''name'', JString ''orders.created''), (''source'', JObject [(''inbound'', JObject
         [(''source_id'', JString ''orders''), (''verify'', JObject [(''profile'', JString
         ''standard_webhooks''), (''secrets'', JArray [JString ''${secret.SHOP}''])])])])]])]),
         (''configurations'', JObject [(''events'', JObject [(''enabled'', JBool True),
         (''webhook'', JObject [(''egress'', JObject [(''allowed_ports'', JArray [JNumber (PosInt
         443)])]), (''require_trust'', JString ''verified''), (''verification'', JObject
         [(''modes'', JArray [JString ''challenge''])])])])])])]) {''SHOP''} = Inr ())"

definition refuses_a_tenant_license_block :: bool where
  "refuses_a_tenant_license_block =
     (list_all (\<lambda>result. result = Inl \<lparr>violations = [\<lparr>kind = ''license_block'', snippet = ''license''\<rparr>]\<rparr>)
        [guarded (JObject [(''license'', JObject [(''non_production_use'', JBool True)])]),
         guarded (JObject [(''license'', JObject [(''pubkey_pem'', JString
                  ''-----BEGIN PUBLIC KEY-----''), (''token'', JString
                  ''eyJhbGciOiJFZERTQSJ9.e30.sig'')])]),
         guarded (JObject [(''license'', JObject [])]),
         guarded_toml (JObject [(''license'', JObject [(''non_production_use'', JBool True)])])] \<and>
      guarded (JObject [(''gateway'', JObject [(''server'', JObject [(''bind_address'', JString
               ''0.0.0.0:8787'')])]), (''license'', JNull)]) = Inr ())"

section \<open>Private networks\<close>

definition rejects_server_level_private_backends :: bool where
  "rejects_server_level_private_backends =
     expect_err (guarded (JObject [(''gateway'', JObject [(''server'', JObject
                          [(''allow_private_backends'', JBool True)])])])) (\<lambda>err. first_kind err = ''private_backends_enabled'')"

definition allows_server_level_private_backends_false :: bool where
  "allows_server_level_private_backends_false =
     (guarded (JObject [(''gateway'', JObject [(''server'', JObject [(''allow_private_backends'',
               JBool False)])])]) = Inr ())"

definition rejects_federation_private_backends_opt_in :: bool where
  "rejects_federation_private_backends_opt_in =
     expect_err (guarded
       (JObject [(''mcp'', JObject [(''federations'', JArray [JObject [(''name'', JString
        ''internal''), (''upstream'', JObject [(''upstream_safety'', JObject
        [(''allow_private_backends'', JBool True)]), (''url'', JString
        ''https://api.example.com/mcp'')])]])])])) (\<lambda>err. has_kind err ''private_backends_enabled'')"

definition rejects_binding_level_private_backends :: bool where
  "rejects_binding_level_private_backends =
     expect_err (guarded
       (JObject [(''mcp'', JObject [(''capabilities'', JObject [(''tools'', JArray [JObject
        [(''backend'', JObject [(''allow_private_backends'', JBool True), (''kind'', JString
        ''http''), (''url'', JString ''https://hass.local/api/states'')]), (''name'', JString
        ''hass.states.list'')]])])])]))
       (\<lambda>err. \<lparr>kind = ''private_backends_enabled'',
                snippet = ''mcp.capabilities.tools[].backend.allow_private_backends: true''\<rparr> \<in> set (violations err))"

definition reports_one_private_backends_violation_per_path :: bool where
  "reports_one_private_backends_violation_per_path =
     expect_err (guarded
       (JObject [(''mcp'', JObject [(''capabilities'', JObject [(''resources'', JArray [JObject
        [(''backend'', JObject [(''allow_private_backends'', JBool True), (''kind'', JString
        ''http'')]), (''name'', JString ''c'')]]), (''tools'', JArray [JObject [(''backend'',
        JObject [(''allow_private_backends'', JBool True), (''kind'', JString ''http'')]),
        (''name'', JString ''a'')], JObject [(''backend'', JObject [(''allow_private_backends'',
        JBool True), (''kind'', JString ''http'')]), (''name'', JString ''b'')]])])])]))
       (\<lambda>err. sort (map snippet (filter (\<lambda>v. kind v = ''private_backends_enabled'') (violations err))) =
          [''mcp.capabilities.resources[].backend.allow_private_backends: true'',
           ''mcp.capabilities.tools[].backend.allow_private_backends: true''])"

definition rejects_federation_upstream_with_private_ip_host :: bool where
  "rejects_federation_upstream_with_private_ip_host =
     (let cfg = (\<lambda>url.
            (JObject [(''mcp'', JObject [(''federations'', JArray [JObject [(''name'', JString
             ''internal''), (''upstream'', JObject [(''url'', JString url)])]])])]))
      in list_all (\<lambda>url. expect_err (guarded (cfg url)) (\<lambda>err. has_kind err ''private_federation_upstream''))
           [''http://10.0.0.5:9000/mcp'', ''https://127.0.0.1/mcp'', ''http://169.254.169.254/latest/meta-data'',
            ''http://192.168.1.1:8080/mcp'', ''http://[::1]:9000/mcp'', ''http://[fd00::1]/mcp'',
            ''https://localhost/mcp'', ''https://db.internal/mcp'',
            ''http://metadata.google.internal/computeMetadata/v1/''])"

definition allows_federation_upstream_with_public_host :: bool where
  "allows_federation_upstream_with_public_host =
     (guarded (JObject [(''mcp'', JObject [(''federations'', JArray [JObject [(''name'', JString
               ''partner''), (''upstream'', JObject [(''url'', JString
               ''https://mcp.partner.com/mcp'')])]])])]) = Inr ())"

definition allows_tunnel_upstream_as_the_sanctioned_private_path :: bool where
  "allows_tunnel_upstream_as_the_sanctioned_private_path =
     (guarded (JObject [(''mcp'', JObject [(''federations'', JArray [JObject [(''name'', JString
               ''private-gw''), (''upstream'', JObject [(''url'', JString
               ''tunnel://acme-internal/mcp'')])]])])]) = Inr ())"

definition gated_upstream_host_extracts_host_across_forms :: bool where
  "gated_upstream_host_extracts_host_across_forms =
     (gated_upstream_host ''https://h/mcp'' = Some ''h'' \<and>
      gated_upstream_host ''http://user:pw@10.0.0.1:80/x'' = Some ''10.0.0.1'' \<and>
      gated_upstream_host ''wss://[fe80::1]:443/mcp'' = Some ''fe80::1'' \<and>
      gated_upstream_host ''https://host.example.com?q=1'' = Some ''host.example.com'' \<and>
      gated_upstream_host ''tunnel://name/mcp'' = None \<and>
      gated_upstream_host ''stdio://'' = None \<and>
      gated_upstream_host ''not a url'' = None)"

definition is_private_or_local_host_classifies :: bool where
  "is_private_or_local_host_classifies =
     (list_all is_private_or_local_host [''127.0.0.1'', ''10.1.2.3'', ''192.168.0.1'', ''172.16.0.1'',
        ''169.254.169.254'', ''0.0.0.0'', ''::1'', ''fd12:3456::1'', ''fe80::1'', ''localhost'', ''svc.local'',
        ''db.internal'', ''metadata.google.internal'', ''LOCALHOST''] \<and>
      list_all (\<lambda>host. \<not> is_private_or_local_host host) [''8.8.8.8'', ''1.1.1.1'', ''203.0.113.10'',
        ''2606:4700:4700::1111'', ''api.example.com'', ''mcp.partner.io''])"

section \<open>The tests pass on the model\<close>

lemma secret_tests:
  "a_registered_secret_key_is_admitted_and_an_unregistered_one_is_refused"
  "env_interpolation_is_refused_even_for_a_registered_key"
  "secret_key_grammar"
  "allows_a_clean_config"
  "rejects_bare_and_legacy_env_interpolation"
  "reports_every_env_violation_at_once"
  "allows_well_formed_cred_token"
  "rejects_malformed_cred_token"
  "rejects_host_secret_provider_uris"
  "allows_external_secret_schemes"
  "allows_forbidden_token_in_a_comment"
  "allows_forbidden_token_in_a_key"
  "still_rejects_forbidden_token_in_a_value"
  "check_published_config_fails_closed_on_unparseable"
  by code_simp+

lemma authentication_tests:
  "cloud_auth_allows_jwks_verifier"
  "cloud_auth_allows_oidc_verifier"
  "cloud_auth_allows_embedded_authorization_server"
  "cloud_auth_treats_an_absent_or_null_authorization_server_as_no_verifier"
  "cloud_auth_error_names_every_verifier"
  "cloud_auth_rejects_unauthenticated_config"
  "cloud_auth_honors_explicit_opt_out"
  "cloud_auth_parses_toml_publishes"
  "cloud_auth_fails_closed_on_unparseable"
  "cloud_auth_treats_null_jwks_as_no_verifier"
  by code_simp+

lemma managed_block_tests:
  "refuses_the_events_settings_a_managed_gateway_must_not_run"
  "refuses_a_tenant_license_block"
  by code_simp+

lemma private_network_tests:
  "rejects_server_level_private_backends"
  "allows_server_level_private_backends_false"
  "rejects_federation_private_backends_opt_in"
  "rejects_binding_level_private_backends"
  "reports_one_private_backends_violation_per_path"
  "rejects_federation_upstream_with_private_ip_host"
  "allows_federation_upstream_with_public_host"
  "allows_tunnel_upstream_as_the_sanctioned_private_path"
  "gated_upstream_host_extracts_host_across_forms"
  "is_private_or_local_host_classifies"
  by code_simp+

text \<open>The digest test, for a hash without a collision among its three inputs.\<close>

lemma digest_test:
  assumes "inj_on (\<lambda>x. hex_encode (sha256 x))
    {digest_input [(''API_TOKEN'', ''t0k''), (''SIGNING_KEY'', ''k3y'')],
     digest_input [(''API_TOKEN'', ''t0k''), (''SIGNING_KEY'', ''k3y!'')], digest_input [(''API_TOKEN'', ''t0k'')]}"
  shows "secrets_digest_recipe sha256 hex_encode"
proof -
  let ?a = "[(''API_TOKEN'', ''t0k''), (''SIGNING_KEY'', ''k3y'')]"
  let ?b = "[(''API_TOKEN'', ''t0k''), (''SIGNING_KEY'', ''k3y!'')]" and ?c = "[(''API_TOKEN'', ''t0k'')]"
  have sorted: "sort ?a = ?a" "sort (rev ?a) = ?a" "sort ?b = ?b" "sort ?c = ?c"
    and inputs: "digest_input ?a = ''API_TOKEN=t0k'' @ [CHR 0x0A] @ ''SIGNING_KEY=k3y'' @ [CHR 0x0A]"
      "digest_input ?b \<noteq> digest_input ?a" "digest_input ?c \<noteq> digest_input ?a"
    by code_simp+
  have "hex_encode (sha256 (digest_input ?b)) \<noteq> hex_encode (sha256 (digest_input ?a))"
    "hex_encode (sha256 (digest_input ?c)) \<noteq> hex_encode (sha256 (digest_input ?a))"
    using inputs(2,3) inj_onD [OF assms, of "digest_input ?b" "digest_input ?a"]
      inj_onD [OF assms, of "digest_input ?c" "digest_input ?a"] by blast+
  with sorted show ?thesis
    unfolding secrets_digest_recipe_def Let_def inputs(1) [symmetric]
    by (simp add: secrets_digest_def del: sort_key_simps)
qed

end
