(* ===== verification/EntitlementTests.thy ===== *)
theory EntitlementTests imports GuardTests Entitlements begin

text \<open>
  The unit tests of the license half of \<^verbatim>\<open>src/src/publish_guard.rs\<close>, translated as in
  \<^verbatim>\<open>GuardTests\<close>. The license crate stays a parameter: a test takes its functions (\<^verbatim>\<open>lic\<close>), what a plan's
  claims are (\<^verbatim>\<open>claims_for\<close>) and, where it names it, the feature of platform coordination. The tests
  build claims from those of a plan, so claims are a record of the fields they touch. They are
  evaluated with a sample license of four plans.
\<close>

section \<open>What the tests are written with\<close>

record test_claims =
  tc_plan :: string
  tc_features :: "string list"
  tc_quota_plugins :: u64
  tc_event_types :: u64

type_synonym test_license = "test_claims license_api"

definition entitled_to :: "test_license \<Rightarrow> test_claims \<Rightarrow> json \<Rightarrow> publish_guard_error + unit" where
  "entitled_to lic claims cfg = check_config_entitlements lic (\<lambda>_. []) (\<lambda>_. Some cfg) (\<lambda>_. None) [] claims"

definition entitled_to_toml :: "test_license \<Rightarrow> test_claims \<Rightarrow> json \<Rightarrow> publish_guard_error + unit" where
  "entitled_to_toml lic claims cfg = check_config_entitlements lic (\<lambda>_. []) (\<lambda>_. None) (\<lambda>_. Some cfg) [] claims"

definition plugin_quota :: "test_license \<Rightarrow> test_claims \<Rightarrow> json \<Rightarrow> publish_guard_error + unit" where
  "plugin_quota lic claims cfg = check_plugin_quota lic (\<lambda>_. Some cfg) (\<lambda>_. None) [] claims"

definition event_type_quota :: "test_license \<Rightarrow> test_claims \<Rightarrow> json \<Rightarrow> publish_guard_error + unit" where
  "event_type_quota lic claims cfg = check_event_type_quota lic (\<lambda>_. Some cfg) (\<lambda>_. None) [] claims"

definition warnings_of :: "json \<Rightarrow> string list" where
  "warnings_of cfg = managed_publish_warnings (\<lambda>_. []) (\<lambda>_. Some cfg) (\<lambda>_. None) []"

text \<open>An entry of \<^verbatim>\<open>plugins_config\<close>, with the lines a test appends to it.\<close>

definition oci_entry :: "(string \<times> json) list \<Rightarrow> string \<times> string \<Rightarrow> json" where
  "oci_entry extra named =
     (case named of (plugin, short) \<Rightarrow>
        JObject ([(''id'', JString plugin),
          (''source'', JObject [(''oci'', JString (''ghcr.io/mcpg-dev/plugins/'' @ short @ '':1.0.0''))])] @ extra))"

definition plugins_config :: "(string \<times> string) list \<Rightarrow> json" where
  "plugins_config entries = JObject [(''plugins'', JArray (map (oci_entry []) entries))]"

section \<open>Plans and plugins\<close>

definition webhook_delivery_needs_its_feature :: "test_license \<Rightarrow> (string \<Rightarrow> test_claims) \<Rightarrow> bool" where
  "webhook_delivery_needs_its_feature lic claims_for =
     (let on = (JObject [(''mcp'', JObject [(''configurations'', JObject [(''events'', JObject
                [(''enabled'', JBool True)])])])]);
          off = (JObject [(''mcp'', JObject [(''configurations'', JObject [(''events'', JObject
                 [(''enabled'', JBool True), (''webhook'', JObject [(''enabled'', JBool
                 False)])])])])]);
          without = (claims_for ''pro'')\<lparr>tc_features :=
            filter (\<lambda>f. f \<noteq> FEATURE_EVENTS_WEBHOOKS lic) (tc_features (claims_for ''pro''))\<rparr>
      in list_all (\<lambda>plan. entitled_to lic (claims_for plan) on = Inr ())
           [''community'', ''pro'', ''team'', ''enterprise''] \<and>
         expect_err (entitled_to lic without on)
           (\<lambda>err. length (violations err) = 1 \<and> first_kind err = ''feature_not_licensed'' \<and>
             contains_str ''mcp.configurations.events.webhook'' (snippet (hd (violations err)))) \<and>
         entitled_to lic without off = Inr ())"

definition plugin_entitlements_follow_the_plan :: "test_license \<Rightarrow> (string \<Rightarrow> test_claims) \<Rightarrow> bool" where
  "plugin_entitlements_follow_the_plan lic claims_for =
     (let cfg = JObject [(''plugins'', JArray
            (map (oci_entry []) [(''dev.mcpg.backend.http'', ''backend-http''),
               (''dev.mcpg.policy.casbin'', ''policy-casbin''), (''dev.mcpg.identity.saml'', ''identity-saml''),
               (''dev.mcpg.payment.acp'', ''payment-acp'')]
             @ [oci_entry [(''disabled'', JBool True)] (''dev.mcpg.cluster.redis'', ''cluster-redis'')]))];
          not_among = (\<lambda>index id plan. (''plugin_not_entitled'',
            ''plugins['' @ index @ ''] '' @ quoted id @ '' is not among the plugins plan '' @ quoted plan
            @ '' entitles''));
          casbin = not_among ''1'' ''dev.mcpg.policy.casbin'';
          saml = (\<lambda>plan. (''feature_not_licensed'',
            ''plugins[2] '' @ quoted ''dev.mcpg.identity.saml'' @ '' needs the '' @ quoted ''sso.saml''
            @ '' license feature, which plan '' @ quoted plan @ '' does not grant''));
          payment = not_among ''3'' ''dev.mcpg.payment.acp'';
          redis = not_among ''4'' ''dev.mcpg.cluster.redis''
      in list_all (\<lambda>(plan, expected). expect_err (entitled_to lic (claims_for plan) cfg)
             (\<lambda>err. found err = sort (map (\<lambda>v. v plan) expected)))
           [(''community'', [casbin, saml, payment, redis]), (''pro'', [casbin, saml, redis]), (''team'', [redis])] \<and>
         entitled_to lic (claims_for ''enterprise'') cfg = Inr () \<and>
         expect_err (entitled_to_toml lic (claims_for ''community'')
             (plugins_config [(''dev.mcpg.policy.casbin'', ''policy-casbin'')]))
           (\<lambda>err. first_kind err = ''plugin_not_entitled''))"

definition plugin_entitlements_read_the_ref :: "test_license \<Rightarrow> (string \<Rightarrow> test_claims) \<Rightarrow> bool" where
  "plugin_entitlements_read_the_ref lic claims_for =
     (let community = claims_for ''community'';
          aliased = (\<lambda>id.
            (JObject [(''plugins'', JArray [JObject [(''id'', JString id), (''ref'', JString
             ''dev.mcpg.payment.acp''), (''source'', JObject [(''oci'', JString
             ''ghcr.io/mcpg-dev/plugins/payment-acp:1.0.0'')])]])]))
      in expect_err (entitled_to lic community (aliased ''pay''))
           (\<lambda>err. found err = [(''plugin_not_entitled'',
             ''plugins[0].ref '' @ quoted ''dev.mcpg.payment.acp'' @ '' is not among the plugins plan ''
             @ quoted ''community'' @ '' entitles'')]) \<and>
         expect_err (entitled_to lic community (aliased ''dev.mcpg.payment.acp''))
           (\<lambda>err. length (violations err) = 1 \<and> prefix ''plugins[0] '' (snippet (hd (violations err)))))"

definition a_tenant_cluster_block_is_ignored_with_a_warning ::
    "test_license \<Rightarrow> (string \<Rightarrow> test_claims) \<Rightarrow> bool" where
  "a_tenant_cluster_block_is_ignored_with_a_warning lic claims_for =
     (let redis =
            (JObject [(''cluster'', JObject [(''allow_plaintext_state'', JBool True), (''kind'',
             JString ''redis''), (''url'', JString ''${secret.REDIS_URL}'')])])
      in list_all (\<lambda>plan. entitled_to lic (claims_for plan) redis = Inr () \<and>
             entitled_to lic (claims_for plan) (JObject [(''cluster'', JObject [(''kind'', JString
                                                ''nats'')])]) = Inr ())
           [''community'', ''pro'', ''team'', ''enterprise''] \<and>
         length (warnings_of redis) = 1 \<and>
         prefix (quoted ''cluster'' @ '' is ignored'') (hd (warnings_of redis)) \<and>
         list_all (\<lambda>quiet. warnings_of quiet = [])
           [(JObject [(''gateway'', JObject [])]), (JObject [(''cluster'', JObject [])]), (JObject [(''cluster'', JNull)])] \<and>
         managed_publish_warnings (\<lambda>_. []) (\<lambda>_. None) (\<lambda>_. None) ''not: [valid'' = [])"

definition a_platform_injected_plugin_is_exempt_from_the_plan ::
    "test_license \<Rightarrow> (string \<Rightarrow> test_claims) \<Rightarrow> string \<Rightarrow> bool" where
  "a_platform_injected_plugin_is_exempt_from_the_plan lic claims_for platform_coordination =
     (let nats = plugins_config [(''dev.mcpg.cluster.nats'', ''cluster-nats'')];
          aliased =
            (JObject [(''plugins'', JArray [JObject [(''id'', JString ''coordinator''), (''ref'',
             JString ''dev.mcpg.cluster.nats''), (''source'', JObject [(''oci'', JString
             ''ghcr.io/mcpg-dev/plugins/cluster-nats:1.0.0'')])]])]);
          redis = plugins_config [(''dev.mcpg.cluster.redis'', ''cluster-redis'')];
          one = (claims_for ''community'')\<lparr>tc_quota_plugins := 1\<rparr>
      in list_all (\<lambda>plan.
             (let managed = (claims_for plan)\<lparr>tc_features := tc_features (claims_for plan) @ [platform_coordination]\<rparr>
              in entitled_to lic managed nats = Inr () \<and>
                 entitled_to lic managed aliased = Inr () \<and>
                 expect_err (entitled_to lic managed redis) (\<lambda>err. first_kind err = ''plugin_not_entitled'') \<and>
                 list_all (\<lambda>cfg. expect_err (entitled_to lic (claims_for plan) cfg)
                     (\<lambda>err. first_kind err = ''plugin_not_entitled'')) [nats, aliased]))
           [''community'', ''pro''] \<and>
         plugin_quota lic one (plugins_config [(''dev.mcpg.backend.http'', ''backend-http''),
             (''dev.mcpg.cluster.nats'', ''cluster-nats'')]) = Inr () \<and>
         expect_err (plugin_quota lic one (plugins_config [(''dev.mcpg.backend.http'', ''backend-http''),
             (''dev.mcpg.backend.mock'', ''backend-mock'')])) (\<lambda>_. True))"

definition the_coordinators_name_as_an_alias_does_not_exempt_another_plugin ::
    "test_license \<Rightarrow> (string \<Rightarrow> test_claims) \<Rightarrow> bool" where
  "the_coordinators_name_as_an_alias_does_not_exempt_another_plugin lic claims_for =
     (let one = (claims_for ''community'')\<lparr>tc_quota_plugins := 1\<rparr>;
          masked =
            (JObject [(''plugins'', JArray [JObject [(''id'', JString ''dev.mcpg.backend.http''),
             (''source'', JObject [(''oci'', JString
             ''ghcr.io/mcpg-dev/plugins/backend-http:1.0.0'')])], JObject [(''id'', JString
             ''dev.mcpg.cluster.nats''), (''ref'', JString ''dev.mcpg.backend.mock''), (''source'',
             JObject [(''oci'', JString ''ghcr.io/mcpg-dev/plugins/backend-mock:1.0.0'')])]])]);
          aliased =
            (JObject [(''plugins'', JArray [JObject [(''id'', JString ''dev.mcpg.backend.http''),
             (''source'', JObject [(''oci'', JString
             ''ghcr.io/mcpg-dev/plugins/backend-http:1.0.0'')])], JObject [(''id'', JString
             ''coordinator''), (''ref'', JString ''dev.mcpg.cluster.nats''), (''source'', JObject
             [(''oci'', JString ''ghcr.io/mcpg-dev/plugins/cluster-nats:1.0.0'')])]])])
      in expect_err (plugin_quota lic one masked) (\<lambda>err. first_kind err = ''plugin_quota_exceeded'') \<and>
         plugin_quota lic one aliased = Inr ())"

section \<open>Custom plugins\<close>

definition CUSTOM_PLUGIN_CONFIG :: json where
  "CUSTOM_PLUGIN_CONFIG =
     (JObject [(''gateway'', JObject [(''plugin_registry'', JObject [(''auth'', JObject
      [(''username'', JString ''acme'')]), (''cache_dir'', JString ''/var/lib/mcpg/plugin-cache''),
      (''default_registry'', JString ''registry.example.com/plugins''), (''insecure_registries'',
      JArray [JString ''registry.example.com'']), (''mirrors'', JArray [JObject [(''url'', JString
      ''registry.example.com/mirror'')]]), (''tls'', JObject [(''insecure'', JBool True)]),
      (''trusted_keys'', JArray [JObject [(''id'', JString ''acme''), (''pem'', JString
      ''-----BEGIN PUBLIC KEY-----'')]])])]), (''plugins'', JArray [JObject [(''class'', JString
      ''tool_gate''), (''id'', JString ''acme.tool''), (''source'', JObject [(''oci'', JString
      ''registry.example.com/plugins/acme-tool:1.0.0'')])], JObject [(''id'', JString
      ''dev.mcpg.backend.http''), (''signature'', JObject [(''trusted_keys'', JArray [JObject
      [(''id'', JString ''acme''), (''pem'', JString ''-----BEGIN PUBLIC KEY-----'')]])]),
      (''source'', JObject [(''oci'', JString
      ''ghcr.io/mcpg-dev/plugins/backend-http:1.0.0'')])]])])"

definition registry_and_trust_overrides_need_custom_plugins ::
    "test_license \<Rightarrow> (string \<Rightarrow> test_claims) \<Rightarrow> bool" where
  "registry_and_trust_overrides_need_custom_plugins lic claims_for =
     (list_all (\<lambda>plan. expect_err (entitled_to lic (claims_for plan) CUSTOM_PLUGIN_CONFIG)
         (\<lambda>err. found err = sort (map (\<lambda>path. (''feature_not_licensed'',
              path @ '' needs the '' @ quoted ''plugins.custom'' @ '' license feature, which plan ''
              @ quoted plan @ '' does not grant''))
            [''gateway.plugin_registry.auth'', ''gateway.plugin_registry.default_registry'',
             ''gateway.plugin_registry.insecure_registries'', ''gateway.plugin_registry.mirrors'',
             ''gateway.plugin_registry.tls'', ''gateway.plugin_registry.trusted_keys'',
             ''plugins[0].source.oci '' @ quoted ''registry.example.com/plugins/acme-tool:1.0.0'',
             ''plugins[1].signature.trusted_keys''])))
        [''community'', ''pro'', ''team''] \<and>
      entitled_to lic (claims_for ''enterprise'') CUSTOM_PLUGIN_CONFIG = Inr ())"

definition registry_settings_that_reach_no_custom_plugin_pass_on_every_plan ::
    "test_license \<Rightarrow> (string \<Rightarrow> test_claims) \<Rightarrow> bool" where
  "registry_settings_that_reach_no_custom_plugin_pass_on_every_plan lic claims_for =
     (let cfg =
            (JObject [(''gateway'', JObject [(''plugin_registry'', JObject [(''auth'', JObject []),
             (''cache_dir'', JString ''/var/lib/mcpg/plugin-cache''),
             (''default_signature_policy'', JString ''disabled''), (''mirrors'', JArray []),
             (''require_integrity_anchor'', JBool True), (''revocation_list_path'', JString
             ''/etc/mcpg/revoked.json''), (''tls'', JNull), (''trusted_keys'', JArray [])])]),
             (''plugins'', JArray [JObject [(''id'', JString ''dev.mcpg.backend.http''),
             (''signature'', JObject [(''policy'', JString ''enforce''), (''sha256'', JString
             ''0000000000000000000000000000000000000000000000000000000000000000''),
             (''trusted_keys'', JArray [])]), (''source'', JObject [(''oci'', JString
             ''oci://ghcr.io/mcpg-dev/plugins/backend-http:1.0.0'')])], JObject [(''id'', JString
             ''dev.mcpg.backend.mock''), (''source'', JObject [(''path'', JString
             ''/usr/local/lib/mcpg/plugins/dev.mcpg.backend.mock/plugin.so'')])]])])
      in list_all (\<lambda>plan. entitled_to lic (claims_for plan) cfg = Inr ())
           [''community'', ''pro'', ''team'', ''enterprise''])"

definition a_per_plugin_signature_policy_below_enforce_needs_custom_plugins ::
    "test_license \<Rightarrow> (string \<Rightarrow> test_claims) \<Rightarrow> bool" where
  "a_per_plugin_signature_policy_below_enforce_needs_custom_plugins lic claims_for =
     (let with_policy = (\<lambda>policy. JObject [(''plugins'', JArray
            [oci_entry [(''signature'', JObject [(''policy'', JString policy)])] (''dev.mcpg.backend.http'', ''backend-http'')])]);
          relaxed =
            (JObject [(''gateway'', JObject [(''plugin_registry'', JObject
             [(''default_signature_policy'', JString ''disabled'')])])]);
          strict =
            (JObject [(''gateway'', JObject [(''plugin_registry'', JObject
             [(''default_signature_policy'', JString ''enforce'')])])])
      in list_all (\<lambda>plan.
             list_all (\<lambda>policy. expect_err (entitled_to lic (claims_for plan) (with_policy policy))
                 (\<lambda>err. found err = [(''feature_not_licensed'',
                    ''plugins[0].signature.policy '' @ quoted policy @ '' needs the '' @ quoted ''plugins.custom''
                    @ '' license feature, which plan '' @ quoted plan @ '' does not grant'')]))
               [''disabled'', ''warn''] \<and>
             entitled_to lic (claims_for plan) (with_policy ''enforce'') = Inr ())
           [''community'', ''pro'', ''team''] \<and>
         entitled_to lic (claims_for ''enterprise'') (with_policy ''disabled'') = Inr () \<and>
         entitled_to lic (claims_for ''community'') relaxed = Inr () \<and>
         length (warnings_of relaxed) = 1 \<and>
         prefix (quoted ''gateway.plugin_registry.default_signature_policy: disabled'' @ '' is ignored'')
           (hd (warnings_of relaxed)) \<and>
         warnings_of strict = [])"

definition custom_plugins_follow_the_flag_or_the_plan :: "test_license \<Rightarrow> (string \<Rightarrow> test_claims) \<Rightarrow> bool" where
  "custom_plugins_follow_the_flag_or_the_plan lic claims_for =
     (let contracted = (claims_for ''team'')\<lparr>tc_features :=
            tc_features (claims_for ''team'') @ [FEATURE_CUSTOM_PLUGINS lic]\<rparr>;
          pinned = (claims_for ''enterprise'')\<lparr>tc_features :=
            filter (\<lambda>f. f \<noteq> FEATURE_CUSTOM_PLUGINS lic) (tc_features (claims_for ''enterprise''))\<rparr>
      in allows_custom_plugins lic contracted \<and>
         entitled_to lic contracted CUSTOM_PLUGIN_CONFIG = Inr () \<and>
         allows_custom_plugins lic pinned \<and>
         \<not> allows_custom_plugins lic (claims_for ''team''))"

section \<open>Quotas\<close>

definition plugin_count_is_capped_by_the_plan :: "test_license \<Rightarrow> (string \<Rightarrow> test_claims) \<Rightarrow> bool" where
  "plugin_count_is_capped_by_the_plan lic claims_for =
     (let entries = (\<lambda>n. JObject [(''plugins'', JArray (map (\<lambda>i.
            oci_entry [(''disabled'', JBool True)]
              (''dev.mcpg.transform.t'' @ show_dec (int i), ''transform-t'' @ show_dec (int i))) [0..<n]))]);
          community = claims_for ''community''
      in quota_plugins lic community = 25 \<and>
         plugin_quota lic community (entries 25) = Inr () \<and>
         plugin_quota lic community (JObject [(''gateway'', JObject [])]) = Inr () \<and>
         plugin_quota lic community (entries 26) = Inl \<lparr>violations = [\<lparr>kind = ''plugin_quota_exceeded'',
             snippet = ''plugins lists 26 entries and plan '' @ quoted ''community'' @ '' includes 25''\<rparr>]\<rparr> \<and>
         plugin_quota lic (claims_for ''enterprise'') (entries 400) = Inr () \<and>
         expect_err (plugin_quota lic community (JString ''just a string''))
           (\<lambda>err. first_kind err = ''unparseable_config''))"

definition declared_event_types_are_capped_by_the_plan :: "test_license \<Rightarrow> (string \<Rightarrow> test_claims) \<Rightarrow> bool" where
  "declared_event_types_are_capped_by_the_plan lic claims_for =
     (let types = (\<lambda>n. JObject [(''mcp'', JObject [(''capabilities'', JObject [(''events'', JArray (map (\<lambda>i.
            JObject [(''name'', JString (''orders.e'' @ show_dec (int i))),
              (''source'', JObject [(''inbound'', JObject [(''source_id'', JString (''e'' @ show_dec (int i)))])])])
            [0..<n]))])])]);
          community = claims_for ''community''
      in event_types_for lic community ''community'' = 10 \<and>
         event_type_quota lic community (types 10) = Inr () \<and>
         event_type_quota lic community (JObject [(''gateway'', JObject [])]) = Inr () \<and>
         event_type_quota lic community (types 11) = Inl \<lparr>violations = [\<lparr>kind = ''event_type_quota_exceeded'',
             snippet = ''mcp.capabilities.events declares 11 event types and plan '' @ quoted ''community''
               @ '' serves 10''\<rparr>]\<rparr> \<and>
         event_type_quota lic (claims_for ''enterprise'') (types 400) = Inr () \<and>
         expect_err (event_type_quota lic community (JString ''just a string''))
           (\<lambda>err. first_kind err = ''unparseable_config''))"

section \<open>The authorization server\<close>

definition authorization_server :: "(string \<times> json) list \<Rightarrow> json" where
  "authorization_server blocks =
     JObject [(''governance'', JObject [(''access'', JObject [(''authorization_server'', JObject blocks)])])]"

definition login_fields :: "(string \<times> json) list" where
  "login_fields =
     [(''interactive'', JObject [(''access_token_ttl_secs'', JNumber (PosInt 600))]),
      (''issuer'', JString ''https://edge-1.mcpg.cloud''),
      (''trusted_idps'', JArray [
         JObject [(''issuer'', JString ''https://acme.okta.com''),
           (''login'', JObject [(''client_id'', JString ''0oa1agent''),
              (''client_secret'', JString ''${secret.OKTA_CLIENT_SECRET}'')])],
         JObject [(''issuer'', JString ''https://other.example.com'')]])]"

definition LOGIN_CONFIG :: json where
  "LOGIN_CONFIG = authorization_server login_fields"

definition interactive_login_needs_the_enterprise_feature ::
    "test_license \<Rightarrow> (string \<Rightarrow> test_claims) \<Rightarrow> bool" where
  "interactive_login_needs_the_enterprise_feature lic claims_for =
     (list_all (\<lambda>plan. expect_err (entitled_to lic (claims_for plan) LOGIN_CONFIG)
         (\<lambda>err. let snippets = map snippet (violations err) in
            length (violations err) = 2 \<and>
            list_all (\<lambda>v. kind v = ''feature_not_licensed'' \<and>
              contains_str (quoted ''sso.interactive_login'') (snippet v) \<and>
              contains_str (''plan '' @ quoted plan) (snippet v)) (violations err) \<and>
            prefix (''governance.access.authorization_server.trusted_idps['' @ quoted ''https://acme.okta.com''
              @ ''].login'') (snippets ! 0) \<and>
            prefix ''governance.access.authorization_server.interactive'' (snippets ! 1)))
        [''community'', ''pro'', ''team''] \<and>
      entitled_to lic (claims_for ''enterprise'') LOGIN_CONFIG = Inr ())"

definition config_entitlements_see_only_present_blocks :: "test_license \<Rightarrow> (string \<Rightarrow> test_claims) \<Rightarrow> bool" where
  "config_entitlements_see_only_present_blocks lic claims_for =
     (let community = claims_for ''community'' in
      list_all (\<lambda>clean. entitled_to lic community clean = Inr ())
        [(JObject [(''gateway'', JObject [(''server'', JObject [(''bind_address'', JString
          ''0.0.0.0:8787'')])])]),
         (JObject [(''governance'', JObject [(''access'', JObject [(''authorization_server'',
          JObject [(''issuer'', JString ''https://x''), (''trusted_idps'', JArray [JObject
          [(''issuer'', JString ''https://acme.okta.com'')]])])])])]),
         (JObject [(''governance'', JObject [(''access'', JObject [(''authorization_server'',
          JObject [(''interactive'', JNull), (''trusted_idps'', JArray [JObject [(''issuer'',
          JString ''https://acme.okta.com''), (''login'', JNull)]])])])])])] \<and>
      expect_err (entitled_to_toml lic community
        (JObject [(''governance'', JObject [(''access'', JObject [(''authorization_server'',
         JObject [(''trusted_idps'', JArray [JObject [(''issuer'', JString
         ''https://acme.okta.com''), (''login'', JObject [(''client_id'', JString
         ''agent'')])]])])])])])) (\<lambda>err. length (violations err) = 1) \<and>
      expect_err (entitled_to lic community (JString ''just a string''))
        (\<lambda>err. first_kind err = ''unparseable_config''))"

definition CONSTRAINED_TOKENS_CONFIG :: json where
  "CONSTRAINED_TOKENS_CONFIG =
     (JObject [(''governance'', JObject [(''access'', JObject [(''authorization_server'', JObject
      [(''authorization_details'', JObject [(''types'', JArray [JObject [(''actions'', JArray
      [JString ''tools/call'']), (''type'', JString ''mcp_tool'')]])]), (''dpop'', JObject
      [(''enabled'', JBool True), (''nonce'', JString ''token_endpoint'')]), (''issuer'', JString
      ''https://edge-1.mcpg.cloud''), (''trusted_idps'', JArray [JObject [(''issuer'', JString
      ''https://acme.okta.com'')]])])])])])"

definition dpop_and_rich_authorization_need_the_enterprise_features ::
    "test_license \<Rightarrow> (string \<Rightarrow> test_claims) \<Rightarrow> bool" where
  "dpop_and_rich_authorization_need_the_enterprise_features lic claims_for =
     (list_all (\<lambda>plan. expect_err (entitled_to lic (claims_for plan) CONSTRAINED_TOKENS_CONFIG)
         (\<lambda>err. let snippets = map snippet (violations err) in
            length (violations err) = 2 \<and>
            list_all (\<lambda>v. kind v = ''feature_not_licensed'' \<and> contains_str (''plan '' @ quoted plan) (snippet v))
              (violations err) \<and>
            snippets ! 0 = ''governance.access.authorization_server.dpop needs the '' @ quoted ''oauth.dpop''
              @ '' license feature, which plan '' @ quoted plan @ '' does not grant'' \<and>
            snippets ! 1 = ''governance.access.authorization_server.authorization_details needs the ''
              @ quoted ''oauth.rich_authorization'' @ '' license feature, which plan '' @ quoted plan
              @ '' does not grant''))
        [''community'', ''pro'', ''team''] \<and>
      entitled_to lic (claims_for ''enterprise'') CONSTRAINED_TOKENS_CONFIG = Inr ())"

definition disabled_dpop_and_authorization_details_blocks_need_no_feature ::
    "test_license \<Rightarrow> (string \<Rightarrow> test_claims) \<Rightarrow> bool" where
  "disabled_dpop_and_authorization_details_blocks_need_no_feature lic claims_for =
     (let community = claims_for ''community'' in
      list_all (\<lambda>blocks. entitled_to lic community (authorization_server blocks) = Inr ())
        [[(''dpop'', JObject [(''enabled'', JBool False), (''nonce'', JString ''always''), (''required'', JBool False)])],
         [(''dpop'', JObject [])],
         [(''dpop'', JNull)],
         [(''authorization_details'', JObject [(''max_entries'', JNumber (PosInt 8))])],
         [(''authorization_details'', JObject [(''types'', JArray [])])],
         [(''authorization_details'', JNull)]] \<and>
      expect_err (entitled_to_toml lic community (authorization_server
          [(''authorization_details'', JObject [(''types'', JArray [JObject [(''type'', JString ''mcp_tool'')]])]),
           (''dpop'', JObject [(''enabled'', JBool True)])]))
        (\<lambda>err. length (violations err) = 2) \<and>
      entitled_to_toml lic community (authorization_server [(''dpop'', JObject [(''enabled'', JBool False)])]) = Inr ())"

definition one_refusal_names_every_authorization_server_feature ::
    "test_license \<Rightarrow> (string \<Rightarrow> test_claims) \<Rightarrow> bool" where
  "one_refusal_names_every_authorization_server_feature lic claims_for =
     (let every = authorization_server (login_fields @
            [(''dpop'', JObject [(''enabled'', JBool True)]),
             (''authorization_details'', JObject [(''types'', JArray [JObject [(''type'', JString ''mcp_tool'')]])])])
      in expect_err (entitled_to lic (claims_for ''team'') every)
           (\<lambda>err. map (\<lambda>v. case find (\<lambda>f. contains_str (quoted f) (snippet v))
                          [''sso.interactive_login'', ''oauth.dpop'', ''oauth.rich_authorization''] of
                        Some f \<Rightarrow> f | None \<Rightarrow> ''?'') (violations err) =
              [''sso.interactive_login'', ''sso.interactive_login'', ''oauth.dpop'', ''oauth.rich_authorization'']) \<and>
         entitled_to lic (claims_for ''enterprise'') every = Inr ())"

section \<open>The tests pass on the model\<close>

text \<open>
  A license crate in which the four plans grant what the tests say they grant.
\<close>

definition sample_violation :: "test_claims \<Rightarrow> string \<Rightarrow> license_error option" where
  "sample_violation claims plugin =
     (let above = (\<lambda>plans. if tc_plan claims \<in> set plans then None else Some OtherLicenseError) in
      if plugin = ''dev.mcpg.identity.saml''
      then (if ''sso.saml'' \<in> set (tc_features claims) then None else Some (FeatureNotLicensed ''sso.saml''))
      else if plugin = ''dev.mcpg.payment.acp'' then above [''pro'', ''team'', ''enterprise'']
      else if plugin = ''dev.mcpg.policy.casbin'' then above [''team'', ''enterprise'']
      else if plugin \<in> {''dev.mcpg.cluster.redis'', ''dev.mcpg.cluster.nats''} then above [''enterprise'']
      else None)"

definition sample_license :: test_license where
  "sample_license = \<lparr>has_feature = (\<lambda>claims feature. feature \<in> set (tc_features claims)), plan = tc_plan,
     quota_plugins = tc_quota_plugins, event_types_for = (\<lambda>claims _. tc_event_types claims),
     plugin_load_violation = sample_violation,
     admits_platform_coordinator = (\<lambda>claims plugin.
       plugin = ''dev.mcpg.cluster.nats'' \<and> ''platform.coordination'' \<in> set (tc_features claims)),
     plan_allows_custom_plugins = (\<lambda>plan. plan = ''enterprise''),
     FEATURE_DPOP = ''oauth.dpop'', FEATURE_EVENTS_WEBHOOKS = ''events.webhooks'',
     FEATURE_INTERACTIVE_LOGIN = ''sso.interactive_login'',
     FEATURE_RICH_AUTHORIZATION = ''oauth.rich_authorization'', FEATURE_CUSTOM_PLUGINS = ''plugins.custom'',
     PLATFORM_COORDINATOR_PLUGIN = ''dev.mcpg.cluster.nats''\<rparr>"

definition sample_claims :: "string \<Rightarrow> test_claims" where
  "sample_claims p = \<lparr>tc_plan = p,
     tc_features = ''events.webhooks'' #
       (if p \<in> {''team'', ''enterprise''} then [''sso.saml''] else []) @
       (if p = ''enterprise''
        then [''oauth.dpop'', ''sso.interactive_login'', ''oauth.rich_authorization'', ''plugins.custom''] else []),
     tc_quota_plugins = (if p = ''enterprise'' then 0 else 25),
     tc_event_types = (if p = ''enterprise'' then 0 else 10)\<rparr>"

lemma plan_tests:
  "webhook_delivery_needs_its_feature sample_license sample_claims"
  "plugin_entitlements_follow_the_plan sample_license sample_claims"
  "plugin_entitlements_read_the_ref sample_license sample_claims"
  "a_tenant_cluster_block_is_ignored_with_a_warning sample_license sample_claims"
  "a_platform_injected_plugin_is_exempt_from_the_plan sample_license sample_claims ''platform.coordination''"
  "the_coordinators_name_as_an_alias_does_not_exempt_another_plugin sample_license sample_claims"
  by code_simp+

lemma custom_plugin_tests:
  "registry_and_trust_overrides_need_custom_plugins sample_license sample_claims"
  "registry_settings_that_reach_no_custom_plugin_pass_on_every_plan sample_license sample_claims"
  "a_per_plugin_signature_policy_below_enforce_needs_custom_plugins sample_license sample_claims"
  "custom_plugins_follow_the_flag_or_the_plan sample_license sample_claims"
  by code_simp+

lemma authorization_server_tests:
  "interactive_login_needs_the_enterprise_feature sample_license sample_claims"
  "config_entitlements_see_only_present_blocks sample_license sample_claims"
  "dpop_and_rich_authorization_need_the_enterprise_features sample_license sample_claims"
  "disabled_dpop_and_authorization_details_blocks_need_no_feature sample_license sample_claims"
  "one_refusal_names_every_authorization_server_feature sample_license sample_claims"
  by code_simp+

text \<open>The quotas of configs of any length, so that their lengths are not counted out.\<close>

lemma quota_of_entries:
  "plugin_quota sample_license claims (JObject [(''plugins'', JArray (map (\<lambda>i.
      oci_entry [(''disabled'', JBool True)]
        (''dev.mcpg.transform.t'' @ show_dec (int i), ''transform-t'' @ show_dec (int i))) [0..<n]))]) =
    (if tc_quota_plugins claims = 0 \<or> n \<le> unat (tc_quota_plugins claims) then Inr ()
     else Inl \<lparr>violations = [\<lparr>kind = ''plugin_quota_exceeded'',
       snippet = ''plugins lists '' @ show_dec (int n) @ '' entries and plan '' @ quoted (tc_plan claims)
         @ '' includes '' @ show_dec (uint (tc_quota_plugins claims))\<rparr>]\<rparr>)"
proof -
  have "\<not> loads_platform_injected_plugin sample_license (oci_entry [(''disabled'', JBool True)]
      (''dev.mcpg.transform.t'' @ x, ''transform-t'' @ x))" for x
    by (simp add: loads_platform_injected_plugin_def oci_entry_def is_platform_injected_plugin_def
        PLATFORM_INJECTED_PLUGINS_def sample_license_def)
  then show ?thesis
    by (simp add: plugin_quota_def check_plugin_quota_def parse_structured_def filter_map o_def Let_def)
      (simp add: sample_license_def)
qed

lemma quota_of_types:
  "event_type_quota sample_license claims (JObject [(''mcp'', JObject [(''capabilities'', JObject
      [(''events'', JArray (map f [0..<n]))])])]) =
    (if tc_event_types claims = 0 \<or> n \<le> unat (tc_event_types claims) then Inr ()
     else Inl \<lparr>violations = [\<lparr>kind = ''event_type_quota_exceeded'',
       snippet = ''mcp.capabilities.events declares '' @ show_dec (int n) @ '' event types and plan ''
         @ quoted (tc_plan claims) @ '' serves '' @ show_dec (uint (tc_event_types claims))\<rparr>]\<rparr>)"
  by (simp add: event_type_quota_def check_event_type_quota_def parse_structured_def sample_license_def Let_def)

lemma quota_tests:
  "plugin_count_is_capped_by_the_plan sample_license sample_claims"
  "declared_event_types_are_capped_by_the_plan sample_license sample_claims"
proof -
  have dec: "show_dec 10 = ''10''" "show_dec 11 = ''11''" "show_dec 25 = ''25''" "show_dec 26 = ''26''" by code_simp+
  have none: "plugin_quota sample_license (sample_claims ''community'') (JObject [(''gateway'', JObject [])]) = Inr ()"
    "event_type_quota sample_license (sample_claims ''community'') (JObject [(''gateway'', JObject [])]) = Inr ()"
    "expect_err (plugin_quota sample_license (sample_claims ''community'') (JString ''just a string''))
      (\<lambda>err. first_kind err = ''unparseable_config'')"
    "expect_err (event_type_quota sample_license (sample_claims ''community'') (JString ''just a string''))
      (\<lambda>err. first_kind err = ''unparseable_config'')"
    by code_simp+
  have plans: "tc_quota_plugins (sample_claims ''community'') = 25" "tc_event_types (sample_claims ''community'') = 10"
    "tc_quota_plugins (sample_claims ''enterprise'') = 0" "tc_event_types (sample_claims ''enterprise'') = 0"
    "tc_plan (sample_claims ''community'') = ''community''"
    by (simp_all add: sample_claims_def)
  have lic: "quota_plugins sample_license claims = tc_quota_plugins claims"
    "event_types_for sample_license claims p = tc_event_types claims" for claims p
    by (simp_all add: sample_license_def)
  show "plugin_count_is_capped_by_the_plan sample_license sample_claims"
    unfolding plugin_count_is_capped_by_the_plan_def Let_def quota_of_entries lic plans none by (simp add: dec none)
  show "declared_event_types_are_capped_by_the_plan sample_license sample_claims"
    unfolding declared_event_types_are_capped_by_the_plan_def Let_def quota_of_types lic plans none
    by (simp add: dec none)
qed

end
