(* ===== verification/ReleaseTests.thy ===== *)
theory ReleaseTests imports GuardTests PluginLayout GatewayBuild begin

text \<open>
  The unit tests of \<^verbatim>\<open>src/src/target_validate.rs\<close>, \<^verbatim>\<open>src/src/plugin_layout.rs\<close> and
  \<^verbatim>\<open>src/src/gateway_build.rs\<close>, translated as in \<^verbatim>\<open>GuardTests\<close>. The JSON-schema library is an argument
  of the tests that validate; they are evaluated with one that knows the two schemas of the tests.
\<close>

section \<open>The release check\<close>

definition caps_with :: "json \<Rightarrow> gateway_capabilities" where
  "caps_with schema = \<lparr>manifest_version = 1, gateway_version_text = ''0.1.0-beta.23'',
     plugin_protocol_version = ''1.0'', plugin_abi_layout = [], config_schema = schema,
     baked_plugins = [\<lparr>bp_id = ''dev.mcpg.backend.http''\<rparr>]\<rparr>"

definition permissive :: json where
  "permissive = JObject [(''type'', JString ''object'')]"

type_synonym schema_library = "json \<Rightarrow> string + validator"

definition validated ::
    "schema_library \<Rightarrow> json \<Rightarrow> gateway_capabilities \<Rightarrow> plugin_policy \<Rightarrow> target_validation_error + unit" where
  "validated validator_for cfg caps policy =
     validate_against_gateway validator_for (\<lambda>_. Some cfg) (\<lambda>_. None) [] caps policy"

definition first_target_kind :: "target_validation_error \<Rightarrow> string" where
  "first_target_kind err = tv_kind (hd (tv_violations err))"

definition first_detail :: "target_validation_error \<Rightarrow> string" where
  "first_detail err = detail (hd (tv_violations err))"

definition floating_protocol_tag_passes :: "schema_library \<Rightarrow> bool" where
  "floating_protocol_tag_passes validator_for =
     (validated validator_for
        (JObject [(''plugins'', JArray [JObject [(''id'', JString ''dev.mcpg.backend.http''),
         (''source'', JObject [(''oci'', JString
         ''ghcr.io/mcpg-dev/plugins/backend-http:protocol-1'')])]])]) (caps_with permissive) FirstPartyOnly = Inr ())"

definition version_pin_and_digest_are_allowed_on_first_party :: "schema_library \<Rightarrow> bool" where
  "version_pin_and_digest_are_allowed_on_first_party validator_for =
     (validated validator_for
        (JObject [(''plugins'', JArray [JObject [(''id'', JString ''a''), (''source'', JObject
         [(''oci'', JString ''ghcr.io/mcpg-dev/plugins/backend-http:0.1.0-alpha.16'')])], JObject
         [(''id'', JString ''b''), (''source'', JObject [(''oci'', JString
         ''ghcr.io/mcpg-dev/plugins/backend-http@sha256:0000000000000000000000000000000000000000000000000000000000000000'')])]])]) (caps_with permissive) FirstPartyOnly = Inr ())"

definition third_party_ref_needs_enterprise :: "schema_library \<Rightarrow> bool" where
  "third_party_ref_needs_enterprise validator_for =
     (let cfg =
            (JObject [(''plugins'', JArray [JObject [(''id'', JString
             ''dev.instruction.backend.s3''), (''source'', JObject [(''oci'', JString
             ''ghcr.io/instruction-md/mcpg-plugin-instruction-s3@sha256:0000000000000000000000000000000000000000000000000000000000000000'')])]])])
      in expect_err (validated validator_for cfg (caps_with permissive) FirstPartyOnly)
           (\<lambda>err. first_target_kind err = ''plugin_not_first_party'') \<and>
         validated validator_for cfg (caps_with permissive) AllowCustom = Inr ())"

definition private_registry_is_third_party :: "schema_library \<Rightarrow> bool" where
  "private_registry_is_third_party validator_for =
     (let cfg =
            (JObject [(''plugins'', JArray [JObject [(''id'', JString ''a''), (''source'', JObject
             [(''oci'', JString ''registry.internal:5000/plugins/backend-http'')])]])])
      in expect_err (validated validator_for cfg (caps_with permissive) FirstPartyOnly)
           (\<lambda>err. first_target_kind err = ''plugin_not_first_party'') \<and>
         validated validator_for cfg (caps_with permissive) AllowCustom = Inr ())"

definition path_source_is_refused_when_the_release_bundles_nothing :: "schema_library \<Rightarrow> bool" where
  "path_source_is_refused_when_the_release_bundles_nothing validator_for =
     expect_err (validated validator_for
        (JObject [(''plugins'', JArray [JObject [(''id'', JString ''dev.mcpg.backend.http''),
         (''source'', JObject [(''path'', JString
         ''/usr/local/lib/mcpg/plugins/dev.mcpg.backend.http/plugin.so'')])]])]) ((caps_with permissive)\<lparr>baked_plugins := []\<rparr>) FirstPartyOnly)
       (\<lambda>err. first_target_kind err = ''plugin_source_not_supported'' \<and> contains_str ''source.oci'' (first_detail err))"

definition baked_path_passes_and_unknown_path_fails :: "schema_library \<Rightarrow> bool" where
  "baked_path_passes_and_unknown_path_fails validator_for =
     (let cfg = (\<lambda>plugin.
            (JObject [(''plugins'', JArray [JObject [(''id'', JString (''dev.mcpg.'' @ plugin)),
             (''source'', JObject [(''path'', JString (''/usr/local/lib/mcpg/plugins/dev.mcpg.'' @
             plugin @ ''/plugin.so''))])]])]))
      in validated validator_for (cfg ''backend.http'') (caps_with permissive) FirstPartyOnly = Inr () \<and>
         expect_err (validated validator_for (cfg ''backend.smb'') (caps_with permissive) FirstPartyOnly)
           (\<lambda>err. first_target_kind err = ''plugin_not_in_release''))"

definition closed_schema :: json where
  "closed_schema =
     (JObject [(''additionalProperties'', JBool False), (''properties'', JObject [(''gateway'',
      JObject [(''type'', JString ''object'')])]), (''type'', JString ''object'')])"

definition schema_violations_carry_paths :: "schema_library \<Rightarrow> bool" where
  "schema_violations_carry_paths validator_for =
     expect_err (validated validator_for (JObject [(''gatway'', JObject [(''x'', JNumber (PosInt
                                          1))])]) (caps_with closed_schema) FirstPartyOnly)
       (\<lambda>err. first_target_kind err = ''schema_mismatch'' \<and> contains_str ''gatway'' (first_detail err))"

definition future_manifest_fails_closed :: "schema_library \<Rightarrow> bool" where
  "future_manifest_fails_closed validator_for =
     expect_err (validated validator_for (JObject [(''gateway'', JObject [])]) ((caps_with permissive)\<lparr>manifest_version := 99\<rparr>) FirstPartyOnly)
       (\<lambda>err. first_target_kind err = ''manifest_not_understood'')"

text \<open>
  A schema library for these schemas: the keys of an object are those of \<^verbatim>\<open>properties\<close> where
  \<^verbatim>\<open>additionalProperties\<close> is false.
\<close>

definition sample_schemas :: schema_library where
  "sample_schemas schema =
     Inr (\<lambda>v. if json_get schema ''additionalProperties'' = Some (JBool False)
              then (case v of
                  JObject m \<Rightarrow> map (\<lambda>(k, _). ([], ''Additional properties are not allowed ('' @ k @ '')''))
                    (filter (\<lambda>(k, _). pointer [''properties'', k] schema = None) m)
                | _ \<Rightarrow> [])
              else [])"

lemma release_tests:
  "floating_protocol_tag_passes sample_schemas"
  "version_pin_and_digest_are_allowed_on_first_party sample_schemas"
  "third_party_ref_needs_enterprise sample_schemas"
  "private_registry_is_third_party sample_schemas"
  "path_source_is_refused_when_the_release_bundles_nothing sample_schemas"
  "baked_path_passes_and_unknown_path_fails sample_schemas"
  "schema_violations_carry_paths sample_schemas"
  "future_manifest_fails_closed sample_schemas"
  by code_simp+

section \<open>The layout check\<close>

definition RELEASE :: target_release where
  "RELEASE = \<lparr>tr_gateway_version = ''0.1.0-beta.66'',
     tr_abi_layout = ''sha256:00112233445566778899aabbccddeeff'', tr_platform = ''linux-amd64''\<rparr>"

definition a_source_resolves_to_the_artefacts_the_gateway_tries :: bool where
  "a_source_resolves_to_the_artefacts_the_gateway_tries =
     (let p = ''ghcr.io/mcpg-dev/plugins/identity-oidc'' in
      candidates p ''linux-amd64'' ''1'' = [p @ '':protocol-1-linux-amd64'', p @ '':protocol-1-wasi-wasm''] \<and>
      candidates (''oci://'' @ p @ '':0.1.0-alpha.46'') ''linux-arm64'' ''1'' =
        [p @ '':0.1.0-alpha.46-linux-arm64'', p @ '':0.1.0-alpha.46-wasi-wasm''] \<and>
      list_all (\<lambda>written. candidates written ''linux-amd64'' ''1'' = [written])
        [p @ '':0.1.0-alpha.46-linux-amd64'', p @ '':protocol-1-wasi-wasm'',
         p @ ''@sha256:'' @ replicate 64 CHR ''a''] \<and>
      candidates ''registry.local:5000/plugins/x'' ''linux-amd64'' ''1'' ! 0 =
        ''registry.local:5000/plugins/x:protocol-1-linux-amd64'')"

definition an_artefact_parses_into_host_repository_and_reference :: bool where
  "an_artefact_parses_into_host_repository_and_reference =
     (artefact_parse ''ghcr.io/mcpg-dev/plugins/identity-oidc:0.1.0-linux-amd64'' =
        Some \<lparr>ar_host = ''ghcr.io'', ar_repository = ''mcpg-dev/plugins/identity-oidc'',
          ar_reference = ''0.1.0-linux-amd64''\<rparr> \<and>
      (let digest = ''sha256:'' @ replicate 64 CHR ''b''
       in map_option ar_reference (artefact_parse (''ghcr.io/mcpg-dev/plugins/x@'' @ digest)) = Some digest) \<and>
      artefact_parse ''no-host'' = None \<and>
      artefact_parse ''ghcr.io/repo-without-tag'' = None)"

definition platforms_and_protocol_majors :: bool where
  "platforms_and_protocol_majors =
     (is_native_platform ''linux-amd64'' \<and> is_native_platform ''linux-musl-arm64'' \<and>
      \<not> is_native_platform ''wasi-wasm'' \<and> \<not> is_native_platform ''linux-x86'' \<and>
      protocol_major ''1.0'' = ''1'' \<and> protocol_major ''2'' = ''2'')"

definition probed :: "nat \<Rightarrow> packaged_layout \<Rightarrow> probed_plugin" where
  "probed index layout =
     (let reference = ''ghcr.io/mcpg-dev/plugins/p'' @ show_dec (int index) @ '':1.0.0'' in
      \<lparr>pp_index = index, pp_reference = reference,
       pp_artefact = (case layout of
           Recorded _ \<Rightarrow> Some (reference @ ''-linux-amd64'')
         | NotRecorded \<Rightarrow> Some (reference @ ''-linux-amd64'')
         | _ \<Rightarrow> None),
       pp_found = layout\<rparr>)"

definition a_first_party_plugin_of_another_layout_or_with_no_artefact_holds_the_publish :: bool where
  "a_first_party_plugin_of_another_layout_or_with_no_artefact_holds_the_publish =
     (let a = assess RELEASE
            [probed 0 (Recorded (tr_abi_layout RELEASE)),
             probed 1 (Recorded ''sha256:ffffffffffffffffffffffffffffffff''), probed 2 Missing] []
      in la_outcomes a = [''ok'', ''mismatch'', ''missing''] \<and>
         length (la_violations a) = 2 \<and>
         tv_kind (la_violations a ! 0) = ''plugin_abi_layout_mismatch'' \<and>
         prefix (''plugins[1]: '' @ quoted ''ghcr.io/mcpg-dev/plugins/p1:1.0.0-linux-amd64''
             @ '' was packaged for ABI layout sha256:ffffffffffffffffffffffffffffffff, and gateway ''
             @ ''0.1.0-beta.66 has sha256:00112233445566778899aabbccddeeff'')
           (detail (la_violations a ! 0)) \<and>
         tv_kind (la_violations a ! 1) = ''plugin_artifact_missing'' \<and>
         contains_str ''linux-amd64 or wasi-wasm'' (detail (la_violations a ! 1)) \<and>
         la_warnings a = [])"

definition what_cannot_be_judged_is_a_warning :: bool where
  "what_cannot_be_judged_is_a_warning =
     (let a = assess RELEASE
            [probed 0 NotRecorded, probed 1 NotRecorded, probed 2 (Unreadable ''registry answered 503'')]
            [(3, ''registry.example.com/team/plugin:2.0.0'')]
      in la_violations a = [] \<and>
         la_outcomes a = [''not_recorded'', ''not_recorded'', ''unreadable'', ''custom''] \<and>
         length (la_warnings a) = 3 \<and>
         contains_str ''registry answered 503'' (la_warnings a ! 0) \<and>
         prefix ''2 plugin(s) were packaged before ABI layout fingerprints'' (la_warnings a ! 1) \<and>
         contains_str (''plugins[3] '' @ quoted ''registry.example.com/team/plugin:2.0.0'') (la_warnings a ! 2))"

definition first_party_sources_are_split_from_the_rest :: bool where
  "first_party_sources_are_split_from_the_rest =
     (case split_sources
         [(0, ''ghcr.io/mcpg-dev/plugins/identity-oidc:1''), (1, ''oci://ghcr.io/mcpg-dev/plugins/backend-http''),
          (2, ''ghcr.io/someone/plugins/x:1'')] of
        (first, other) \<Rightarrow> map fst first = [0, 1] \<and> map fst other = [2])"

lemma layout_tests:
  "a_source_resolves_to_the_artefacts_the_gateway_tries"
  "an_artefact_parses_into_host_repository_and_reference"
  "platforms_and_protocol_majors"
  "a_first_party_plugin_of_another_layout_or_with_no_artefact_holds_the_publish"
  "what_cannot_be_judged_is_a_warning"
  "first_party_sources_are_split_from_the_rest"
  by code_simp+

section \<open>Gateway builds\<close>

definition builds_released_before_the_split_are_known :: bool where
  "builds_released_before_the_split_are_known =
     (list_all before_overflow_split [''0.1.0-beta.58'', ''0.1.0-beta.59'', ''v0.1.0-beta.1'', ''0.1.0-alpha.1'',
        ''0.0.2-beta.1'', ''0.1.0-canary.913'', ''0.1.0-canary.915'', ''0.1.0-canary.917'', ''0.1.0-canary.876'',
        ''0.0.1-beta.14''] \<and>
      list_all (\<lambda>new. \<not> before_overflow_split new) [''0.1.0-beta.60'', ''0.1.0-canary.920'', ''0.1.0'',
        ''1.0.0-rc.1'', ''v1.0.0'', ''0.0.0'', ''test'', []])"

definition versions_order_as_releases_do :: bool where
  "versions_order_as_releases_do =
     (let v = (\<lambda>s. the (parse_version s)); less = (\<lambda>a b. version_cmp a b = Less);
          floor_version = v ''1.0.0-rc.2''
      in less (v ''0.1.0-beta.9'') (v ''0.1.0-beta.10'') \<and>
         less (v ''0.1.0-beta.58'') (v ''0.1.0'') \<and>
         less (v ''0.1.0'') (v ''1.0.0-rc.1'') \<and>
         less (v ''1.0.0-rc.1'') (v ''1.0.0-rc.1.1'') \<and>
         less (v ''1.0.0-1'') (v ''1.0.0-rc'') \<and>
         v ''v1.2.3+build.5'' = v ''1.2.3'' \<and>
         show_version (v ''v1.0.0-rc.3'') = ''1.0.0-rc.3'' \<and>
         list_all (\<lambda>bad. parse_version bad = None)
           [''1.2'', ''1.2.3.4'', ''1.2.3-'', ''1..3'', ''x.y.z'', ''1.2.3-a..b''] \<and>
         at_least ''1.0.0-rc.2'' floor_version \<and>
         at_least ''v1.0.0'' floor_version \<and>
         \<not> at_least ''1.0.0-rc.1'' floor_version \<and>
         \<not> at_least ''dev'' floor_version)"

lemma build_tests: "builds_released_before_the_split_are_known" "versions_order_as_releases_do"
  by code_simp+

end
