(* ===== verification/WireTests.thy ===== *)
theory WireTests imports UsageReport PlanNotice SubscriptionChange ServingLimits BillingPeriod begin

text \<open>
  The unit tests of the wire types, of \<^verbatim>\<open>src/src/usage_report.rs\<close>, \<^verbatim>\<open>src/src/plan_notice.rs\<close>,
  \<^verbatim>\<open>src/src/subscription_change.rs\<close> and \<^verbatim>\<open>src/src/serving_limits.rs\<close>, translated and evaluated on the
  model, one definition per test under its name. A timestamp stands as the text chrono prints.
\<close>

section \<open>What the tests are written with\<close>

text \<open>\<^verbatim>\<open>v["name"]\<close>, which is null where there is no such field, and \<^verbatim>\<open>v[index]\<close>.\<close>

definition at_field :: "json \<Rightarrow> string \<Rightarrow> json" where
  "at_field v k = (case json_get v k of Some w \<Rightarrow> w | None \<Rightarrow> JNull)"

definition at_index :: "json \<Rightarrow> nat \<Rightarrow> json" where
  "at_index v i = (case v of JArray vs \<Rightarrow> if i < length vs then vs ! i else JNull | _ \<Rightarrow> JNull)"

abbreviation number :: "u64 \<Rightarrow> json" where
  "number n \<equiv> JNumber (PosInt n)"

section \<open>The usage report\<close>

definition pinned_report :: usage_report where
  "pinned_report =
     \<lparr>ur_period = ''2026-06'', ur_period_start = ''1970-01-01T00:00:00Z'', ur_period_end = ''1970-01-01T00:00:00Z'',
      ur_orgs = [\<lparr>ou_org_id = ''org-1'', ou_slug = ''acme'', ou_plan_tier = ''team'', ou_tool_calls = 1234,
        ou_instance_hours = [(''m'', 0x3FF8000000000000)], ou_tunnel_bytes = 4096,
        ou_held_plan_tunnel_bytes = 1024, ou_events_delivered = 512,
        ou_held_plan_events_delivered = 128, ou_events_ingested = 256\<rparr>],
      ur_failed = [\<lparr>fo_org_id = ''org-2'', fo_slug = ''globex'', fo_dimension = ''tool_calls''\<rparr>],
      ur_next_after = Some ''acme''\<rparr>"

definition the_wire_names_are_pinned :: bool where
  "the_wire_names_are_pinned =
     (let v = enc_usage_report pinned_report; org = at_index (at_field v ''orgs'') 0;
          failed = at_index (at_field v ''failed'') 0
      in at_field v ''period'' = JString ''2026-06'' \<and>
         list_all (\<lambda>name. \<not> is_null (at_field org name)) [''org_id'', ''slug'', ''plan_tier'', ''tool_calls''] \<and>
         at_field org ''tool_calls'' = number 1234 \<and>
         at_field (at_field org ''instance_hours'') ''m'' = JNumber (Float 0x3FF8000000000000) \<and>
         at_field org ''tunnel_bytes'' = number 4096 \<and>
         at_field org ''held_plan_tunnel_bytes'' = number 1024 \<and>
         at_field org ''events_delivered'' = number 512 \<and>
         at_field org ''held_plan_events_delivered'' = number 128 \<and>
         at_field org ''events_ingested'' = number 256 \<and>
         at_field failed ''slug'' = JString ''globex'' \<and>
         at_field failed ''dimension'' = JString ''tool_calls'' \<and>
         at_field v ''next_after'' = JString ''acme'' \<and>
         dec_usage_report Some v = Some pinned_report)"

definition an_older_report_still_parses :: bool where
  "an_older_report_still_parses =
     (case dec_usage_report Some (JObject
        [(''period'', JString ''2026-06''), (''period_start'', JString ''2026-06-01T00:00:00Z''),
         (''period_end'', JString ''2026-07-01T00:00:00Z''),
         (''orgs'', JArray [JObject [(''org_id'', JString ''org-1''), (''slug'', JString ''acme''),
            (''plan_tier'', JString ''community''), (''tool_calls'', number 7)]])]) of
        None \<Rightarrow> False
      | Some report \<Rightarrow>
          (let org = hd (ur_orgs report) in
           ou_tool_calls org = 7 \<and> ou_instance_hours org = [] \<and> ou_tunnel_bytes org = 0 \<and>
           ou_held_plan_tunnel_bytes org = 0 \<and> ou_events_delivered org = 0 \<and>
           ou_held_plan_events_delivered org = 0 \<and>
           ur_failed report = [] \<and> ur_next_after report = None))"

lemma usage_report_tests: "the_wire_names_are_pinned" "an_older_report_still_parses"
  by code_simp+

section \<open>The plan notice\<close>

definition pinned_notice :: plan_notice where
  "pinned_notice =
     \<lparr>pn_org_slug = ''acme'', pn_kind = GraceStarted, pn_reason = PlanEnded, pn_from_plan = ''team'',
      pn_to_plan = ''community'', pn_unpaid_renewal_plan = None, pn_lost_at = ''1970-01-01T00:16:40Z'',
      pn_grace_until = ''1970-01-01T00:33:20Z'', pn_immediate = False, pn_stopped_gateways = [],
      pn_resized_gateways = [], pn_closed_tunnels = 0\<rparr>"

definition the_notice_names_are_pinned :: bool where
  "the_notice_names_are_pinned =
     (let notice = pinned_notice; v = enc_plan_notice notice;
          unpaid = notice\<lparr>pn_reason := Downgraded, pn_unpaid_renewal_plan := Some ''pro''\<rparr>;
          u = enc_plan_notice unpaid;
          immediate = notice\<lparr>pn_reason := Suspended, pn_immediate := True\<rparr>;
          i = enc_plan_notice immediate
      in at_field v ''kind'' = JString ''grace_started'' \<and>
         at_field v ''reason'' = JString ''plan_ended'' \<and>
         at_field v ''from_plan'' = JString ''team'' \<and>
         json_get v ''stopped_gateways'' = None \<and>
         json_get v ''unpaid_renewal_plan'' = None \<and>
         json_get v ''immediate'' = None \<and>
         dec_plan_notice Some v = Some notice \<and>
         at_field u ''unpaid_renewal_plan'' = JString ''pro'' \<and>
         dec_plan_notice Some u = Some unpaid \<and>
         at_field i ''immediate'' = JBool True \<and>
         dec_plan_notice Some i = Some immediate \<and>
         list_all (\<lambda>r. reason_parse (reason_as_str r) = Some r)
           [Downgraded, PlanEnded, Unpaid, Revoked, Suspended])"

lemma plan_notice_tests: "the_notice_names_are_pinned"
  by code_simp

section \<open>The subscription change\<close>

definition a_change_request_reads_as_the_console_sends_it :: bool where
  "a_change_request_reads_as_the_console_sends_it =
     ((case dec_subscription_change (JObject [(''action'', JString ''change_plan''), (''plan'', JString ''team''),
          (''interval'', JString ''year'')]) of
         Some req \<Rightarrow> sc_action req = ChangePlan \<and> sc_plan req = Some ''team'' \<and>
           sc_interval req = Some Year \<and> sc_org_slug req = None
       | None \<Rightarrow> False) \<and>
      map_option sc_action (dec_subscription_change (JObject [(''action'', JString ''cancel'')])) = Some Cancel \<and>
      dec_subscription_change (JObject [(''action'', JString ''delete'')]) = None)"

definition outcomes_and_sources_are_snake_case_on_the_wire :: bool where
  "outcomes_and_sources_are_snake_case_on_the_wire =
     (enc_variant outcome_wire DowngradeScheduled = JString ''downgrade_scheduled'' \<and>
      enc_variant outcome_wire AwaitingPayment = JString ''awaiting_payment'' \<and>
      enc_variant source_wire SelfServe = JString ''self_serve'')"

definition a_view_without_a_pending_payment_reads :: bool where
  "a_view_without_a_pending_payment_reads =
     (map_option sv_pending_payment (dec_subscription_view Some (JObject
        [(''source'', JString ''self_serve''), (''plan'', JString ''pro''), (''offers'', JArray [])])) = Some None)"

lemma subscription_tests:
  "a_change_request_reads_as_the_console_sends_it"
  "outcomes_and_sources_are_snake_case_on_the_wire"
  "a_view_without_a_pending_payment_reads"
  by code_simp+

section \<open>Serving limits\<close>

text \<open>The calendar, and the readers and printers of RFC 3339 times, are chrono's: arguments.\<close>

definition a_period_is_the_calendar_month_in_utc ::
    "'t chrono_api \<Rightarrow> (string \<Rightarrow> 't option) \<Rightarrow> ('t \<Rightarrow> string) \<Rightarrow> bool" where
  "a_period_is_the_calendar_month_in_utc c parse_from_rfc3339 to_rfc3339 =
     (case Option.bind (parse_from_rfc3339 ''2026-09-30T23:59:59Z'') (calendar_period c) of
        None \<Rightarrow> False
      | Some (label, start, finish) \<Rightarrow>
          label = ''2026-09'' \<and>
          to_rfc3339 start = ''2026-09-01T00:00:00+00:00'' \<and>
          to_rfc3339 finish = ''2026-10-01T00:00:00+00:00'' \<and>
          (case calendar_period c finish of
             None \<Rightarrow> False
           | Some (label, _, finish) \<Rightarrow>
               label = ''2026-10'' \<and> to_rfc3339 finish = ''2026-11-01T00:00:00+00:00''))"

definition a_spend_cap_setting_is_tagged_by_kind :: bool where
  "a_spend_cap_setting_is_tagged_by_kind =
     (dec_spend_cap_setting (JObject [(''kind'', JString ''amount''), (''amount_minor'', number 0)]) = Some (Amount 0) \<and>
      dec_spend_cap_setting (JObject [(''kind'', JString ''uncapped'')]) = Some Uncapped \<and>
      dec_spend_cap_setting (JObject [(''kind'', JString ''unlimited'')]) = None)"

definition an_answer_without_event_deliveries_is_not_rated :: bool where
  "an_answer_without_event_deliveries_is_not_rated =
     (let answer =
            [(''slug'', JString ''acme''), (''period'', JString ''2026-09''), (''plan'', JString ''team''),
             (''ceiling'', JNull), (''included'', number 0), (''pack_credits'', number 0), (''payg_used'', number 0),
             (''payg_limit'', JNull),
             (''spend_cap'', JObject [(''kind'', JString ''uncapped''), (''amount_minor'', JNull), (''currency'', JNull),
                (''unit_price_minor'', JNull), (''default_amount_minor'', JNull)]),
             (''computed_at'', JString ''2026-09-20T00:00:00Z'')];
          uncapped = JObject (answer @ [(''event_deliveries'', JObject [(''ceiling'', JNull)])]);
          held = JObject (answer @ [(''event_deliveries'', JObject [(''ceiling'', number 7)])]);
          v = enc_org_period_usage \<lparr>op_slug = ''acme'', op_used = 1, op_tunnel_bytes = 2,
            op_held_plan_tunnel_bytes = 3, op_events_delivered = 4, op_held_plan_events_delivered = 5\<rparr>
      in (case dec_org_serving_limits Some (JObject answer) of
            None \<Rightarrow> False
          | Some l \<Rightarrow> ol_event_deliveries l = None \<and>
              json_get (enc_org_serving_limits l) ''event_deliveries'' = None) \<and>
         map_option ol_event_deliveries (dec_org_serving_limits Some uncapped) = Some (Some \<lparr>ed_ceiling = None\<rparr>) \<and>
         (case dec_org_serving_limits Some held of
            None \<Rightarrow> False
          | Some l \<Rightarrow> ol_event_deliveries l = Some \<lparr>ed_ceiling = Some 7\<rparr> \<and>
              at_field (at_field (enc_org_serving_limits l) ''event_deliveries'') ''ceiling'' = number 7) \<and>
         (case dec_org_period_usage (JObject [(''slug'', JString ''acme''), (''used'', number 3)]) of
            None \<Rightarrow> False
          | Some old \<Rightarrow> op_events_delivered old = 0 \<and> op_held_plan_events_delivered old = 0) \<and>
         at_field v ''events_delivered'' = number 4 \<and>
         at_field v ''held_plan_events_delivered'' = number 5)"

text \<open>RFC 3339 times of the Gregorian calendar, as far as the test needs them.\<close>

definition civil_rfc3339 :: "civil \<Rightarrow> string" where
  "civil_rfc3339 d =
     zero_padded 4 (cv_year d) @ ''-'' @ zero_padded 2 (int (cv_month d)) @ ''-'' @ zero_padded 2 (int (cv_day d))
     @ ''T'' @ zero_padded 2 (int (cv_second d div 3600)) @ '':'' @ zero_padded 2 (int (cv_second d div 60 mod 60))
     @ '':'' @ zero_padded 2 (int (cv_second d mod 60)) @ ''+00:00''"

definition last_of_september :: civil where
  "last_of_september = \<lparr>cv_year = 2026, cv_month = 9, cv_day = 30, cv_second = 86399, cv_nano = 0\<rparr>"

lemma period_test:
  "a_period_is_the_calendar_month_in_utc civil_chrono (\<lambda>s. Some last_of_september) civil_rfc3339"
proof -
  have dec: "show_dec 0 = ''0''" "show_dec 1 = ''1''" "show_dec 9 = ''9''" "show_dec 10 = ''10''"
    "show_dec 11 = ''11''" "show_dec 2026 = ''2026''"
    by code_simp+
  show ?thesis
    unfolding a_period_is_the_calendar_month_in_utc_def
    by (simp add: calendar_period_def civil_chrono_def civil_if_valid_def civil_valid_def civil_add_months_def
        last_of_september_def month_index_def days_in_month_def period_label_def zero_padded_def civil_rfc3339_def
        dec Let_def del: show_dec.simps)
qed

lemma serving_limits_tests:
  "a_spend_cap_setting_is_tagged_by_kind"
  "an_answer_without_event_deliveries_is_not_rated"
  by code_simp+

end
