(* ===== verification/RuntimeTests.thy ===== *)
theory RuntimeTests imports RateLimit EnvAliases Cipher GuardTests begin

text \<open>
  The unit tests of \<^verbatim>\<open>src/src/ratelimit.rs\<close>, \<^verbatim>\<open>src/src/env_aliases.rs\<close> and \<^verbatim>\<open>src/src/cipher.rs\<close>, translated
  as in \<^verbatim>\<open>GuardTests\<close>. What a test reads from its surroundings (the clock, the process id and
  environment, a random key and nonce) is an argument of it, as the cipher library is.
\<close>

section \<open>The rate limiter\<close>

abbreviation client_no :: "u8 \<Rightarrow> ip_addr" where
  "client_no n \<equiv> V4 10 0 0 n"

definition allows_burst_then_denies :: "nat \<Rightarrow> bool" where
  "allows_burst_then_denies t =
     (fst (run_checks (rl_new 60 3 False) [(client_no 1, t), (client_no 1, t), (client_no 1, t), (client_no 1, t)])
      = [True, True, True, False])"

definition refills_over_time :: "nat \<Rightarrow> bool" where
  "refills_over_time t =
     (let later = t + 1000000000 in
      fst (run_checks (rl_new 60 2 False)
        [(client_no 1, t), (client_no 1, t), (client_no 1, t), (client_no 1, later), (client_no 1, later)])
      = [True, True, False, True, False])"

definition buckets_are_per_ip :: "nat \<Rightarrow> bool" where
  "buckets_are_per_ip t =
     (fst (run_checks (rl_new 60 1 False) [(client_no 1, t), (client_no 1, t), (client_no 2, t)])
      = [True, False, True])"

definition zero_per_min_disables :: "nat \<Rightarrow> bool" where
  "zero_per_min_disables t =
     (\<not> rl_enabled (rl_new 0 0 False) \<and>
      list_all id (fst (run_checks (rl_new 0 0 False) (replicate 1000 (client_no 1, t)))))"

definition xff_used_only_when_trusted :: bool where
  "xff_used_only_when_trusted =
     (let xff = Some ''203.0.113.7, 10.0.0.1''; peer = Some (client_no 9);
          untrusted = rl_new 60 1 False; trusted = rl_new 60 1 True
      in client_ip untrusted xff peer = client_no 9 \<and>
         Some (client_ip trusted xff peer) = parse_ip ''203.0.113.7'' \<and>
         client_ip trusted None peer = client_no 9)"

lemma small_rounds:
  "f64_round 0 = 0" "f64_round 1 = 1" "f64_round 2 = 2" "f64_round 3 = 3"
  using f64_round_of_int [of 0] f64_round_of_int [of 1] f64_round_of_int [of 2] f64_round_of_int [of 3] by simp_all

lemma limiter_tests:
  "allows_burst_then_denies t" "refills_over_time t" "buckets_are_per_ip t" "zero_per_min_disables t"
  "xff_used_only_when_trusted"
proof -
  have secs: "as_secs_f64 0 = 0" "as_secs_f64 1000000000 = 1" by (simp_all add: as_secs_f64_def small_rounds)
  have bursts: "max 3 1 = (3 :: u32)" "max 2 1 = (2 :: u32)" by code_simp+
  have lims: "rl_new 60 3 False = \<lparr>buckets = [], capacity = 3, refill_per_sec = 1, trust_proxy = False\<rparr>"
    "rl_new 60 2 False = \<lparr>buckets = [], capacity = 2, refill_per_sec = 1, trust_proxy = False\<rparr>"
    "rl_new 60 1 False = \<lparr>buckets = [], capacity = 1, refill_per_sec = 1, trust_proxy = False\<rparr>"
    by (simp_all add: rl_new_def small_rounds bursts)
  show "allows_burst_then_denies t" "refills_over_time t" "buckets_are_per_ip t"
    unfolding allows_burst_then_denies_def refills_over_time_def buckets_are_per_ip_def lims
    by (simp_all add: check_at_def rl_enabled_def Let_def MAX_TRACKED_IPS_def saturating_duration_since_def
        secs small_rounds)
  show "zero_per_min_disables t"
    using zero_rate_disables [of 0 0 False "replicate 1000 (client_no 1, t)"]
    by (simp add: zero_per_min_disables_def list_all_iff)
  have "parse_ip ''203.0.113.7'' = Some (V4 203 0 113 7)"
    "trim_ws (hd (split_on CHR '','' ''203.0.113.7, 10.0.0.1'')) = ''203.0.113.7''" by code_simp+
  then show "xff_used_only_when_trusted"
    by (simp add: xff_used_only_when_trusted_def client_ip_def rl_new_fields)
qed

section \<open>The environment\<close>

definition mirrors_long_to_short_when_short_unset :: "string \<Rightarrow> process_environment \<Rightarrow> bool" where
  "mirrors_long_to_short_when_short_unset pid env =
     (let suffix = ''TEST_MIRROR_'' @ pid; short = SHORT @ suffix; long = LONG @ suffix
      in case Option.bind (map_option (AList.delete short) (set_var long ''long-value'' env)) mirror_long_to_short of
           Some env' \<Rightarrow> map_of env' short = Some ''long-value''
         | None \<Rightarrow> False)"

definition short_wins_when_both_set :: "string \<Rightarrow> process_environment \<Rightarrow> bool" where
  "short_wins_when_both_set pid env =
     (let suffix = ''TEST_PRECEDENCE_'' @ pid; short = SHORT @ suffix; long = LONG @ suffix
      in case Option.bind (Option.bind (set_var short ''short-wins'' env) (set_var long ''long-loses''))
                mirror_long_to_short of
           Some env' \<Rightarrow> map_of env' short = Some ''short-wins''
         | None \<Rightarrow> False)"

definition ignores_unrelated_vars :: "string \<Rightarrow> process_environment \<Rightarrow> bool" where
  "ignores_unrelated_vars pid env =
     (let other = ''UNRELATED_'' @ pid
      in case Option.bind (set_var other ''x'' env) mirror_long_to_short of
           Some env' \<Rightarrow> map_of env' other = Some ''x''
         | None \<Rightarrow> False)"

lemma environment_tests:
  "mirrors_long_to_short_when_short_unset ''4711'' [(''PATH'', ''/bin''), (''MCPG_CONTROL_PLANE_DB'', ''db'')]"
  "short_wins_when_both_set ''4711'' [(''PATH'', ''/bin''), (''MCPG_CONTROL_PLANE_DB'', ''db'')]"
  "ignores_unrelated_vars ''4711'' [(''PATH'', ''/bin''), (''MCPG_CONTROL_PLANE_DB'', ''db'')]"
  by code_simp+

section \<open>The ciphers\<close>

definition succeeds :: "'e + 'a \<Rightarrow> ('a \<Rightarrow> bool) \<Rightarrow> bool" where
  "succeeds result P = (case result of Inr x \<Rightarrow> P x | Inl _ \<Rightarrow> False)"

definition noop_passes_through :: bool where
  "noop_passes_through =
     succeeds (noop_encrypt ''acme'' ''hello'')
       (\<lambda>ct. ct = ''hello'' \<and> noop_decrypt ''acme'' ct = Inr ''hello'')"

definition local_round_trip :: "'k cipher_lib \<Rightarrow> string \<Rightarrow> bytes \<Rightarrow> bool" where
  "local_round_trip lib fresh_key nonce =
     succeeds (from_master_key_b64 lib fresh_key) (\<lambda>c.
       let pt = ''sensitive license payload'' in
       succeeds (local_encrypt lib c nonce ''acme'' pt) (\<lambda>ct.
         ct \<noteq> pt \<and> length ct = 12 + length pt + 16 \<and> local_decrypt lib c ''acme'' ct = Inr pt))"

definition local_rejects_cross_context_decrypt :: "'k cipher_lib \<Rightarrow> string \<Rightarrow> bytes \<Rightarrow> bool" where
  "local_rejects_cross_context_decrypt lib fresh_key nonce =
     succeeds (from_master_key_b64 lib fresh_key) (\<lambda>c.
       succeeds (local_encrypt lib c nonce ''acme'' ''payload'') (\<lambda>ct.
         local_decrypt lib c ''globex'' ct = Inl DecryptFailed))"

text \<open>\<^verbatim>\<open>ct[15] ^= 0x01\<close> flips the lowest bit of a byte.\<close>

definition flip_low_bit :: "char \<Rightarrow> char" where
  "flip_low_bit c = Char (\<not> digit0 c) (digit1 c) (digit2 c) (digit3 c) (digit4 c) (digit5 c) (digit6 c) (digit7 c)"

definition local_rejects_tampered_ciphertext :: "'k cipher_lib \<Rightarrow> string \<Rightarrow> bytes \<Rightarrow> bool" where
  "local_rejects_tampered_ciphertext lib fresh_key nonce =
     succeeds (from_master_key_b64 lib fresh_key) (\<lambda>c.
       succeeds (local_encrypt lib c nonce ''acme'' ''payload'') (\<lambda>ct.
         local_decrypt lib c ''acme'' (ct[15 := flip_low_bit (ct ! 15)]) = Inl DecryptFailed))"

definition local_rejects_truncated_ciphertext :: "'k cipher_lib \<Rightarrow> string \<Rightarrow> bool" where
  "local_rejects_truncated_ciphertext lib fresh_key =
     succeeds (from_master_key_b64 lib fresh_key) (\<lambda>c.
       local_decrypt lib c ''acme'' (replicate 5 CHR 0x00) = Inl Truncated)"

definition build_returns_noop_for_none :: "'k cipher_lib \<Rightarrow> bytes \<Rightarrow> bool" where
  "build_returns_noop_for_none lib nonce =
     succeeds (build lib None) (\<lambda>c. envelope_encrypt lib c nonce ''x'' ''hi'' = Inr ''hi'')"

definition rejects_short_master_key :: "'k cipher_lib \<Rightarrow> bool" where
  "rejects_short_master_key lib =
     (case from_master_key_b64 lib (b64_encode lib (replicate 16 CHR 0x00)) of
        Inl e \<Rightarrow> e = BadKey 16
      | Inr _ \<Rightarrow> False)"

definition refuses :: "cipher_error + 'c \<Rightarrow> cipher_error \<Rightarrow> bool" where
  "refuses result e = (case result of Inl e' \<Rightarrow> e' = e | Inr _ \<Rightarrow> False)"

definition build_strict_refuses_noop_when_encryption_required :: "'k cipher_lib \<Rightarrow> bool" where
  "build_strict_refuses_noop_when_encryption_required lib =
     (refuses (build_strict lib None True) EncryptionRequired \<and>
      refuses (build_strict lib (Some ''   '') True) EncryptionRequired)"

definition build_strict_allows_noop_when_not_required_and_local_with_key ::
    "'k cipher_lib \<Rightarrow> string \<Rightarrow> bytes \<Rightarrow> bool" where
  "build_strict_allows_noop_when_not_required_and_local_with_key lib fresh_key nonce =
     (succeeds (build_strict lib None False) (\<lambda>noop. envelope_encrypt lib noop nonce ''x'' ''hi'' = Inr ''hi'') \<and>
      succeeds (build_strict lib (Some fresh_key) True) (\<lambda>c.
        succeeds (envelope_encrypt lib c nonce ''acme'' ''secret'') (\<lambda>ct.
          ct \<noteq> ''secret'' \<and> envelope_decrypt lib c ''acme'' ct = Inr ''secret'')))"

text \<open>The mock server: what it answers to the two requests it knows, and 404 to any other.\<close>

definition mock_vault :: "'k cipher_lib \<Rightarrow> string \<Rightarrow> vault_request \<Rightarrow> http_outcome" where
  "mock_vault lib uri req =
     (if req_url req = uri @ ''/v1/transit/encrypt/mcpg'' \<and> req_token req = ''tok'' \<and>
         json_get (req_body req) ''plaintext'' = Some (JString (b64_encode lib ''sa-token-secret'')) \<and>
         json_get (req_body req) ''context'' = Some (JString (b64_encode lib ''cluster-1''))
      then transit_answer ''ciphertext'' ''vault:v1:ABCDEF''
      else if req_url req = uri @ ''/v1/transit/decrypt/mcpg'' \<and>
         json_get (req_body req) ''ciphertext'' = Some (JString ''vault:v1:ABCDEF'')
      then transit_answer ''plaintext'' (b64_encode lib ''sa-token-secret'')
      else Answered 404 ''404 Not Found'' (Inl []))"

definition vault_transit_encrypt_decrypt_over_http :: "'k cipher_lib \<Rightarrow> string \<Rightarrow> bool" where
  "vault_transit_encrypt_decrypt_over_http lib uri =
     succeeds (vault_new (Inr ()) \<lparr>vault_addr = uri, vault_token = ''tok'', vault_mount = ''transit'',
         vault_key = ''mcpg''\<rparr>) (\<lambda>(cfg, _).
       succeeds (vault_encrypt lib (mock_vault lib uri) cfg ''cluster-1'' ''sa-token-secret'') (\<lambda>ct.
         ct = ''vault:v1:ABCDEF'' \<and>
         vault_decrypt lib (mock_vault lib uri) cfg ''cluster-1'' ct = Inr ''sa-token-secret''))"

text \<open>
  A cipher library with a tag of 16 bytes: the associated data of the witnesses' library, filled up.
\<close>

definition tag16 :: "bytes \<Rightarrow> bytes" where
  "tag16 aad = take 16 (tagged aad @ replicate 16 CHR 0x00)"

definition sample_lib :: "bytes cipher_lib" where
  "sample_lib = open_lib\<lparr>aead_encrypt := (\<lambda>k nonce pt aad. Inr (tag16 aad @ pt)),
     aead_decrypt := (\<lambda>k nonce ct aad. strip_prefix (tag16 aad) ct)\<rparr>"

definition sample_key :: string where
  "sample_key = replicate 32 CHR ''k''"

definition sample_nonce :: bytes where
  "sample_nonce = replicate 12 CHR ''n''"

lemma cipher_tests:
  "noop_passes_through"
  "local_round_trip sample_lib sample_key sample_nonce"
  "local_rejects_cross_context_decrypt sample_lib sample_key sample_nonce"
  "local_rejects_tampered_ciphertext sample_lib sample_key sample_nonce"
  "local_rejects_truncated_ciphertext sample_lib sample_key"
  "build_returns_noop_for_none sample_lib sample_nonce"
  "rejects_short_master_key sample_lib"
  "build_strict_refuses_noop_when_encryption_required sample_lib"
  "build_strict_allows_noop_when_not_required_and_local_with_key sample_lib sample_key sample_nonce"
  "vault_transit_encrypt_decrypt_over_http sample_lib ''http://127.0.0.1:8200''"
  by code_simp+

end
