(* ===== verification/Spec2Isabelle.thy ===== *)
theory Spec2Isabelle
  imports GatewayBuild GuardReport PrivateBlocks Entitlements Capabilities PluginLayout RateRange RateLocks Cipher UsageReport PlanNotice
    SubscriptionChange BillingPeriod ServingLimits Provider EnvAliases TlsInit
    Migrations BuildScript EntitlementTests ReleaseTests WireTests RuntimeTests
begin

text \<open>
  A verification library for the crate \<^verbatim>\<open>mcpg-control-plane-core\<close>: the types and the pure
  decisions that the control plane server, its clients and the billing federation share. The crate
  has no main loop; a caller holds its values, calls its functions and acts on what they return. The
  definitions follow the Rust files under \<^verbatim>\<open>src/src\<close>, one group per type or function, with its
  name; a Rust name that clashes with one of HOL has a prefix or suffix.

  \<^bold>\<open>Parts and theories.\<close>

  The gates of a publish. A customer's config is a text, parsed as YAML and else as TOML to a
  \<^verbatim>\<open>serde_json\<close> value (\<^verbatim>\<open>Json\<close>). Theory \<^verbatim>\<open>Gate\<close> states the contract all gates share: refuse what
  does not parse, and admit exactly the documents of a verdict.
  \<^item> \<^verbatim>\<open>SecretScan\<close>, \<^verbatim>\<open>PublishGuard\<close>, \<^verbatim>\<open>GuardVerdict\<close>: \<^verbatim>\<open>publish_guard.rs\<close> but for its license half:
    the scan of every string for secret and environment tokens, the gating of private network
    targets, the events and license blocks, the secrets digest, \<^verbatim>\<open>require_cloud_auth\<close>. Addresses are
    parsed and classified in \<^verbatim>\<open>Net\<close> as \<^verbatim>\<open>std::net\<close> does; \<^verbatim>\<open>PrivateBlocks\<close> has the private ones as CIDR
    blocks. The verdicts are predicates on the
    document, apart from the accumulation of messages. \<^verbatim>\<open>GuardReport\<close> is what the list of violations
    tells its reader: which kinds it holds, and how it depends on the registered secrets.
  \<^item> \<^verbatim>\<open>Entitlements\<close>: the license half: licensed surfaces, plugin entitlements, custom plugins, the
    plugin and event-type quotas, and the warnings of a managed publish.
  \<^item> \<^verbatim>\<open>TargetValidate\<close>: \<^verbatim>\<open>target_validate.rs\<close>, a config against the capability manifest of a release,
    which \<^verbatim>\<open>Capabilities\<close> reads.
  \<^item> \<^verbatim>\<open>PluginLayout\<close>: \<^verbatim>\<open>plugin_layout.rs\<close>, the artefacts of a plugin source and their assessment.
  \<^item> \<^verbatim>\<open>GatewayBuild\<close> with \<^verbatim>\<open>Cmp\<close>: \<^verbatim>\<open>gateway_build.rs\<close>, version parsing, order and minimum builds.

  The request limiter. \<^verbatim>\<open>RateLimit\<close> is \<^verbatim>\<open>ratelimit.rs\<close>, over the rounding of doubles in \<^verbatim>\<open>F64\<close>.
  \<^verbatim>\<open>RateSpec\<close> is its abstract specification, one bucket per client, with the refinement, the service
  and memory guarantees. \<^verbatim>\<open>RateBound\<close> bounds what a client gets from checks in any order of their
  instants: the bucket refills by the advance of its stamp and by what the instants were set back.
  \<^verbatim>\<open>RateThreads\<close> is the limiter under threads, as a step relation, where a thread reads the clock before
  it takes the lock, with the bound that remains there; a check that holds the lock is one step.
  \<^verbatim>\<open>RateLocks\<close> has a step for each statement of a check instead, with the mutex as the code takes and
  drops it, and shows that the threads return exactly what they return in one step, and that no check
  is stuck. \<^verbatim>\<open>RateRange\<close> shows that no number a check rounds leaves the range of the normal doubles.

  Secrets at rest. \<^verbatim>\<open>Cipher\<close> is \<^verbatim>\<open>cipher.rs\<close>: the plaintext, local and Vault Transit ciphers.

  What is sent and stored. \<^verbatim>\<open>Wire\<close> gives the meaning of the serde derives: a codec is an encoder to
  JSON values and a decoder, and the locales \<^verbatim>\<open>wire_codec\<close>, \<^verbatim>\<open>wire_value\<close> and \<^verbatim>\<open>variant_names\<close> are its
  contract. \<^verbatim>\<open>UsageReport\<close>, \<^verbatim>\<open>PlanNotice\<close>, \<^verbatim>\<open>SubscriptionChange\<close>, \<^verbatim>\<open>ServingLimits\<close>, \<^verbatim>\<open>Model\<close> and
  \<^verbatim>\<open>Provider\<close> are the files of those names, each type with its encoder, its decoder and an
  interpretation of the contract. \<^verbatim>\<open>BillingPeriod\<close> is \<^verbatim>\<open>calendar_period\<close> of \<^verbatim>\<open>serving_limits.rs\<close>.

  The process. \<^verbatim>\<open>EnvAliases\<close> is \<^verbatim>\<open>env_aliases.rs\<close>, \<^verbatim>\<open>TlsInit\<close> is \<^verbatim>\<open>tls_init.rs\<close>, \<^verbatim>\<open>Errors\<close> is
  \<^verbatim>\<open>error.rs\<close>. \<^verbatim>\<open>Migrations\<close> is \<^verbatim>\<open>migrations.rs\<close>: a migrator as the list of its SQL
  texts, and the statuses of an org its checks allow. \<^verbatim>\<open>BuildScript\<close> is \<^verbatim>\<open>build.rs\<close>: the commands it gives to Cargo. \<^verbatim>\<open>Prelude\<close> has
  the string, UTF-8 and decimal operations of the Rust library, on the bytes of the strings, with their facts.
  This theory has the properties that span parts: all gates on one document, the plan and the
  release check, where the plugins of a publish come from, the exchanges with the federation, and
  the domain model.

  The unit tests of the crate are translated one by one, each a definition of the test's name that
  is evaluated to True: \<^verbatim>\<open>GuardTests\<close>, \<^verbatim>\<open>EntitlementTests\<close>, \<^verbatim>\<open>ReleaseTests\<close>, \<^verbatim>\<open>WireTests\<close>,
  \<^verbatim>\<open>RuntimeTests\<close>, and the one test of the migrations in \<^verbatim>\<open>Migrations\<close>. A config text of a test stands as the document that the
  YAML or TOML reader makes of it.

  \<^bold>\<open>Conventions.\<close> A string is the list of its bytes in UTF-8, so an index is a byte offset; a non-ASCII
  character of a message is its bytes. An unsigned or signed integer is a word of its width.
  A \<^verbatim>\<open>Result\<close> is a sum, its error on the left; a panic is None. A vector of violations that a check
  appends to is an argument that is returned longer. An \<^verbatim>\<open>f64\<close> of the limiter is a rational rounded
  after every operation to 53 bits; the exponents stay in the range of the normal doubles (\<^verbatim>\<open>RateRange\<close>). An \<^verbatim>\<open>f64\<close> on the wire is its
  bit pattern. An \<^verbatim>\<open>Instant\<close> is its nanoseconds.

  \<^bold>\<open>What is a parameter.\<close> The YAML, TOML and JSON-schema readers, the JSON printer, SHA-256, the
  license crate (\<^verbatim>\<open>license_api\<close>), AES-GCM, base64, the nonce and the HTTP exchange (\<^verbatim>\<open>cipher_lib\<close>),
  chrono (\<^verbatim>\<open>chrono_api\<close>, and the reading of a timestamp), the codecs of the identifiers, the
  errors of other crates, and the environment, compiler and files that the build script sees. What a theorem relies on of them is a hypothesis of it by name
  (\<^verbatim>\<open>calendar\<close>, \<^verbatim>\<open>aead_law\<close>, \<^verbatim>\<open>lawful_id\<close>, \<^verbatim>\<open>canonical\<close>), and its witness has a concrete instance.

  \<^bold>\<open>What the lemmas show.\<close> For each gate, that it admits exactly what its verdict says, and what an
  admitted config can therefore not do. For the limiter, its invariant, the bound on what a client
  gets, that the waiting client is served, the refinement, and that the mutex makes a check atomic. For the ciphers,
  authenticity, separation of contexts and round trips. For the versions, that the order is a
  preorder and printing parses back. For the wire, that each value decodes to itself and that
  older senders decode with the defaults. For the billing period, that the periods tile time.
  Where the code does not do what its comments say, a theorem gives the input that shows it.

  \<^bold>\<open>Bounds.\<close> No definition has fuel: each loop of the code ends by the length of what it scans, which
  its \<^verbatim>\<open>termination\<close> proof or its structural recursion shows.

  \<^bold>\<open>Not modelled.\<close> \<^verbatim>\<open>lib.rs\<close> declares the modules and re-exports their names; it has no operation.
  What the database does with the SQL of a migration, and the types that the build generates from
  the protocol files, are not code of the crate.
\<close>

section \<open>The gates of a publish\<close>

text \<open>The guard of the publish path and the validation against a release parse a config alike.\<close>

lemma parsers_agree: "target_parse_structured yaml toml raw = parse_structured yaml toml raw"
  by (simp add: target_parse_structured_def parse_structured_def split: option.split)

lemma plugin_entries_Oci:
  assumes "(idx, Oci reference) \<in> set (plugin_entries cfg)"
  shows "\<exists>entry \<in> set (plugin_list cfg). pointer [''source'', ''oci''] entry = Some (JString reference)"
proof -
  obtain es where es: "Option.bind (json_get cfg ''plugins'') as_array = Some es"
    using assms by (cases "Option.bind (json_get cfg ''plugins'') as_array") (simp_all add: plugin_entries_def)
  with assms obtain entry source where e: "(idx, entry) \<in> set (List.enumerate 0 es)"
    "json_get entry ''source'' = Some source" "Option.bind (json_get source ''oci'') as_str = Some reference"
    by (auto simp: plugin_entries_def in_set_map_filter split: option.splits)
  have get: "json_get v k = Some w \<Longrightarrow> pointer_step v k = Some w" for v k w
    by (cases v) (simp_all add: pointer_step_def)
  have "json_get source ''oci'' = Some (JString reference)"
    using e(3) by (auto simp: bind_eq_Some_conv as_str_Some_iff)
  with e(2) have "pointer [''source'', ''oci''] entry = Some (JString reference)"
    using get by simp
  moreover have "entry \<in> set (plugin_list cfg)"
    using e(1) es in_set_enumerate_eq [of "(idx, entry)" 0 es] by (auto simp: plugin_list_def)
  ultimately show ?thesis by blast
qed

lemma entitled_first_party:
  assumes "entitled lic claims cfg" "\<not> allows_custom_plugins lic claims"
    and "(idx, Oci reference) \<in> set (plugin_entries cfg)"
  shows "is_first_party_plugin_ref reference"
  using plugin_entries_Oci [OF assms(3)] assms(1,2)
  by (auto simp: entitled_def no_custom_plugins_def entry_first_party_def simp del: pointer.simps)

lemma source_violations_policy:
  assumes "\<And>idx reference. (idx, Oci reference) \<in> set xs \<Longrightarrow> is_first_party_plugin_ref reference"
  shows "map (source_violations caps FirstPartyOnly) xs = map (source_violations caps AllowCustom) xs"
proof (rule map_cong [OF refl])
  fix x assume "x \<in> set xs"
  with assms show "source_violations caps FirstPartyOnly x = source_violations caps AllowCustom x"
    by (cases x; cases "snd x") (auto simp: source_violations_def)
qed

text \<open>
  C6: All the gates of a publish judge one document: a text passes the guard, the authentication
  gate, the entitlements, both quotas and the validation against the release exactly when it parses
  to one document on which the verdicts of all six hold. No gate reads the text differently.
\<close>

theorem publish_gates_one_document:
  "check_published_config_with_secret_keys yaml toml raw keys = Inr () \<and>
   require_cloud_auth yaml toml raw = Inr () \<and>
   check_config_entitlements lic to_string yaml toml raw claims = Inr () \<and>
   check_plugin_quota lic yaml toml raw claims = Inr () \<and>
   check_event_type_quota lic yaml toml raw claims = Inr () \<and>
   validate_against_gateway validator_for yaml toml raw caps policy = Inr () \<longleftrightarrow>
   (\<exists>cfg. parse_structured yaml toml raw = Some cfg \<and> published_ok keys cfg \<and> auth_ok cfg \<and>
      entitled lic claims cfg \<and>
      within_quota (quota_plugins lic claims)
        (length (filter (\<lambda>e. \<not> loads_platform_injected_plugin lic e) (plugin_list cfg))) \<and>
      within_quota (event_types_for lic claims (plan lic claims))
        (case pointer [''mcp'', ''capabilities'', ''events''] cfg of
           Some (JArray types) \<Rightarrow> length types | _ \<Rightarrow> 0) \<and>
      target_ok validator_for caps policy cfg)"
  unfolding guard.admits_iff auth.admits_iff entitlement.admits_iff plugin_quota.admits_iff
    event_quota.admits_iff target.admits_iff parsers_agree
  by (cases "parse_structured yaml toml raw") (simp_all del: pointer.simps)

text \<open>
  C7: What the plan withholds, the release check need not repeat: when the entitlement gate admits
  a config without the custom-plugin right, every OCI source of it is first-party. None is left
  unchecked by the layout check, and the validation has the same answer under both plugin policies.
\<close>

theorem entitled_without_custom_plugins:
  assumes "check_config_entitlements lic to_string yaml toml raw claims = Inr ()"
    and "\<not> allows_custom_plugins lic claims"
  shows "split_sources (oci_plugin_sources yaml toml raw) = (oci_plugin_sources yaml toml raw, []) \<and>
    validate_against_gateway validator_for yaml toml raw caps FirstPartyOnly =
    validate_against_gateway validator_for yaml toml raw caps AllowCustom"
proof -
  obtain cfg where cfg: "target_parse_structured yaml toml raw = Some cfg" "entitled lic claims cfg"
    using assms(1) unfolding entitlement.admits_iff parsers_agree by blast
  note fp = entitled_first_party [OF cfg(2) assms(2)]
  have all: "\<forall>x \<in> set (oci_plugin_sources yaml toml raw). is_first_party_plugin_ref (snd x)"
    using fp by (auto simp: oci_plugin_sources_def cfg(1) in_set_map_filter split: plugin_source.splits)
  then have "partition (\<lambda>(_, r). is_first_party_plugin_ref r) (oci_plugin_sources yaml toml raw) =
      (oci_plugin_sources yaml toml raw, [])"
    by (simp add: split_def filter_id_conv filter_empty_conv o_def)
  moreover have "map (source_violations caps FirstPartyOnly) (plugin_entries cfg) =
      map (source_violations caps AllowCustom) (plugin_entries cfg)"
    using fp by (rule source_violations_policy)
  ultimately show ?thesis by (simp only: split_sources_def validate_against_gateway_def cfg(1) option.case simp_thms)
qed

definition bare_license :: "unit license_api" where
  "bare_license = \<lparr>has_feature = (\<lambda>_ _. False), plan = (\<lambda>_. ''community''), quota_plugins = (\<lambda>_. 0),
     event_types_for = (\<lambda>_ _. 0), plugin_load_violation = (\<lambda>_ _. None),
     admits_platform_coordinator = (\<lambda>_ _. False), plan_allows_custom_plugins = (\<lambda>_. False),
     FEATURE_DPOP = ''dpop'', FEATURE_EVENTS_WEBHOOKS = ''events_webhooks'',
     FEATURE_INTERACTIVE_LOGIN = ''interactive_login'', FEATURE_RICH_AUTHORIZATION = ''rich_authorization'',
     FEATURE_CUSTOM_PLUGINS = ''custom_plugins'', PLATFORM_COORDINATOR_PLUGIN = ''coordinator''\<rparr>"

definition one_plugin :: json where
  "one_plugin = JObject [(''plugins'', JArray [JObject [(''id'', JString ''oidc''),
     (''source'', JObject [(''oci'', JString ''oci://ghcr.io/mcpg-dev/plugins/oidc:1'')])]])]"

theorem entitled_without_custom_plugins_witness:
  "split_sources (oci_plugin_sources (\<lambda>_. Some one_plugin) (\<lambda>_. None) ''r'') =
     ([(0, ''oci://ghcr.io/mcpg-dev/plugins/oidc:1'')], [])"
proof -
  have "check_config_entitlements bare_license (\<lambda>_. []) (\<lambda>_. Some one_plugin) (\<lambda>_. None) ''r'' () = Inr ()"
    and "\<not> allows_custom_plugins bare_license ()"
    and s: "oci_plugin_sources (\<lambda>_. Some one_plugin) (\<lambda>_. None) ''r'' = [(0, ''oci://ghcr.io/mcpg-dev/plugins/oidc:1'')]"
    by code_simp+
  from entitled_without_custom_plugins [OF this(1,2)] show ?thesis by (simp only: s)
qed

text \<open>
  C8: Where the plugins of a customer without the custom-plugin right come from. When a release accepts
  such a config that the entitlement gate admits, every path source of it ends with the id of a plugin
  the release carries or has that id as a component (which is all \<^verbatim>\<open>path_known\<close> asks), and each
  artefact the layout check looks up for an OCI source that does not begin with \<^verbatim>\<open>oci://oci://\<close>, when
  it parses, is in the platform's registry, below the platform's plugin repositories. A reference that
  repeats its scheme is excluded: \<^verbatim>\<open>repeated_oci_scheme\<close> shows that its artefact is elsewhere.
\<close>

theorem publish_fetches_first_party:
  assumes "check_config_entitlements lic to_string yaml toml raw claims = Inr ()"
    and "validate_against_gateway validator_for yaml toml raw caps policy = Inr ()"
    and "\<not> allows_custom_plugins lic claims"
    and "parse_structured yaml toml raw = Some cfg" "(idx, source) \<in> set (plugin_entries cfg)"
  shows "case source of
      Path path \<Rightarrow> path_known caps path
    | Oci reference \<Rightarrow>
        (\<not> prefix ''oci://oci://'' reference \<longrightarrow>
           list_all (\<lambda>c. case artefact_parse c of
               Some a \<Rightarrow> ar_host a = ''ghcr.io'' \<and> prefix ''mcpg-dev/plugins/'' (ar_repository a)
             | None \<Rightarrow> True) (candidates reference platform major))"
proof -
  have cfg: "entitled lic claims cfg" "target_ok validator_for caps policy cfg"
    using assms(1,2,4) unfolding entitlement.admits_iff target.admits_iff parsers_agree by simp_all
  show ?thesis
  proof (cases source)
    case (Path path)
    with cfg(2) assms(5) show ?thesis by (fastforce simp: target_ok_def list_all_iff)
  next
    case (Oci reference)
    with entitled_first_party [OF cfg(1) assms(3)] assms(5) have "is_first_party_plugin_ref reference" by simp
    from first_party_artefact [OF this] Oci show ?thesis
      by (auto simp: list_all_iff split: option.split)
  qed
qed

definition open_manifest :: gateway_capabilities where
  "open_manifest = \<lparr>manifest_version = 1, gateway_version_text = [], plugin_protocol_version = ''1.0'',
     plugin_abi_layout = [], config_schema = JBool True, baked_plugins = []\<rparr>"

theorem publish_fetches_first_party_witness:
  "list_all (\<lambda>c. case artefact_parse c of
       Some a \<Rightarrow> ar_host a = ''ghcr.io'' \<and> prefix ''mcpg-dev/plugins/'' (ar_repository a)
     | None \<Rightarrow> True) (candidates ''oci://ghcr.io/mcpg-dev/plugins/oidc:1'' ''linux-amd64'' ''1'')"
proof -
  have "check_config_entitlements bare_license (\<lambda>_. []) (\<lambda>_. Some one_plugin) (\<lambda>_. None) ''r'' () = Inr ()"
    and "validate_against_gateway (\<lambda>_. Inr (\<lambda>_. [])) (\<lambda>_. Some one_plugin) (\<lambda>_. None) ''r'' open_manifest FirstPartyOnly = Inr ()"
    and "\<not> allows_custom_plugins bare_license ()"
    and "parse_structured (\<lambda>_. Some one_plugin) (\<lambda>_. None) ''r'' = Some one_plugin"
    and "(0, Oci ''oci://ghcr.io/mcpg-dev/plugins/oidc:1'') \<in> set (plugin_entries one_plugin)"
    by code_simp+
  from publish_fetches_first_party [OF this, of "''linux-amd64''" "''1''"] show ?thesis by simp
qed

section \<open>The exchanges with the billing federation\<close>





section \<open>The domain model\<close>

text \<open>
  C35: the persisted shapes survive their JSON encoding: an org, a workspace, an environment, a user, a
  plugin set and a discovery event with its instance decode to what was encoded, for any codecs of
  the identifiers and slugs (of another crate) that decode what they encode, and for timestamps that
  are read as they are written.
\<close>

theorem domain_model_roundtrip:
  assumes "lawful_id oc" "lawful_id wc" "lawful_id ec" "lawful_id ic" "lawful_id uc" "lawful_id sc"
    and "canonical read_time (org_created_at org)" "canonical read_time (ws_created_at ws)"
    and "canonical read_time (env_created_at env)" "canonical read_time (us_created_at us)"
    and "ok_plugin_set read_time ps" "ok_event read_time ev"
  shows "dec_org oc sc read_time (enc_org oc sc org) = Some org \<and>
    dec_workspace wc oc sc read_time (enc_workspace wc oc sc ws) = Some ws \<and>
    dec_environment ec wc read_time (enc_environment ec wc env) = Some env \<and>
    dec_user uc read_time (enc_user uc us) = Some us \<and>
    dec_plugin_set uc oc wc read_time (enc_plugin_set uc oc wc ps) = Some ps \<and>
    dec_event ic oc wc ec read_time (enc_event ic oc wc ec ev) = Some ev"
proof (intro conjI)
  note decodes = wire_codec.roundtrip [OF wire_value.axioms(1)]
  show "dec_org oc sc read_time (enc_org oc sc org) = Some org"
    by (rule decodes [OF org_codec [OF assms(1,6)] assms(7)])
  show "dec_workspace wc oc sc read_time (enc_workspace wc oc sc ws) = Some ws"
    by (rule decodes [OF workspace_codec [OF assms(2,1,6)] assms(8)])
  show "dec_environment ec wc read_time (enc_environment ec wc env) = Some env"
    by (rule decodes [OF environment_codec [OF assms(3,2)] assms(9)])
  show "dec_user uc read_time (enc_user uc us) = Some us"
    by (rule decodes [OF user_codec [OF assms(5)] assms(10)])
  show "dec_plugin_set uc oc wc read_time (enc_plugin_set uc oc wc ps) = Some ps"
    by (rule decodes [OF plugin_set_codec [OF assms(5,1,2)] assms(11)])
  show "dec_event ic oc wc ec read_time (enc_event ic oc wc ec ev) = Some ev"
    by (rule event_roundtrip [OF assms(4,1,2,3,12)])
qed

theorem domain_model_roundtrip_witness:
  "dec_event uuid_text uuid_text uuid_text uuid_text Some
     (enc_event uuid_text uuid_text uuid_text uuid_text (Added sample_instance)) = Some (Added sample_instance)"
  using domain_model_roundtrip [OF uuid_text_lawful uuid_text_lawful uuid_text_lawful uuid_text_lawful
      uuid_text_lawful uuid_text_lawful, of Some
      "\<lparr>org_id = ''o1'', org_slug = ''acme'', org_name = ''Acme'', org_plan_tier = ''team'',
        org_status = ORG_STATUS_ACTIVE, org_created_at = ''t''\<rparr>"
      "\<lparr>ws_id = ''w1'', ws_org_id = ''o1'', ws_slug = ''main'', ws_name = ''Main'', ws_quota = JNull, ws_created_at = ''t''\<rparr>"
      "\<lparr>env_id = ''e1'', env_workspace_id = ''w1'', env_slug = ''dev'', env_name = ''Dev'', env_created_at = ''t''\<rparr>"
      "\<lparr>us_id = ''u1'', us_federation_sub = None, us_email = ''a@b'', us_name = None, us_created_at = ''t''\<rparr>"
      "\<lparr>ps_id = ''p1'', ps_org_id = ''o1'', ps_workspace_id = ''w1'', ps_name = ''set'', ps_entries = [],
        ps_capability_grants = [], ps_content_hash = ''h'', ps_created_at = ''t''\<rparr>"
      "Added sample_instance"] sample_instance_ok
  by (simp add: canonical_def ok_plugin_set_def wf_map_def)

end
